(* ===== verification/Prelude.thy ===== *)
theory Prelude
  imports Main "HOL-Library.Word" "HOL-Library.AList"
begin

text \<open>
  Shared ground of the development: the errors of the Go program as one datatype and the
  results of fallible calls, Go maps as association lists, the clock, and machine bytes
  and words. Nothing here is specific to one component.

  \<^item> A Go \<^verbatim>\<open>error\<close> is a value of \<open>goerror\<close>. Every sentinel error variable of the
    repository is a constructor; errors made by \<^verbatim>\<open>fmt.Errorf\<close> or returned by a library
    carry what the code can observe of them.
  \<^item> A Go map is an association list with distinct keys (\<open>mwf\<close>). Its list order stands for
    the unspecified iteration order, so no statement about a map may depend on it, except
    through what a particular run does.
  \<^item> A \<^verbatim>\<open>time.Time\<close> is the number of nanoseconds since Go's zero time, so that
    \<^verbatim>\<open>IsZero\<close> is a comparison with 0; a \<^verbatim>\<open>time.Duration\<close> is a number of nanoseconds and
    \<^verbatim>\<open>Time.Sub\<close> saturates at the range of a 64-bit signed integer, as in the library.
\<close>

unbundle bit_operations_syntax

named_theorems gomap_simps \<open>lookup, size and well-formedness of Go maps under updates\<close>
named_theorems bytes_simps \<open>conversions between bytes, words and strings\<close>
named_theorems time_defs \<open>unfolding of the clock operations\<close>

section \<open>Errors and results\<close>

datatype goerror =
    ErrInvalidCredentials
  | ErrServiceAlreadyRegistered
  | ErrServiceNotFound
  | ErrExtraDataNotAllowed
  | ErrUnknownChannelType
  | ErrPermissionDenied
  | ErrInvalidForwardRequest
  | ErrInvalidTunnelData
  | ErrInvalidCommand
  | ErrNotFound
  | ErrHttpNotFound
  | ErrUnsupportedVersion
  | ErrUnsupportedAuth
  | ErrUnsupportedAddress
  | ErrUnsupportedCommand
  | ErrRecordNotFound
  | ErrEOF
  | ErrUnexpectedEOF
  | ErrShortRead
  | ErrText string
  | ErrExternal nat

type_synonym 'a res = "goerror + 'a"

definition bind_res :: "'a res \<Rightarrow> ('a \<Rightarrow> 'b res) \<Rightarrow> 'b res" where
  "bind_res r f = (case r of Inl e \<Rightarrow> Inl e | Inr x \<Rightarrow> f x)"

lemma bind_res_simps [simp]:
  "bind_res (Inl e) f = Inl e"
  "bind_res (Inr x) f = f x"
  by (simp_all add: bind_res_def)

lemma bind_res_Inr: "bind_res r f = Inr y \<longleftrightarrow> (\<exists>x. r = Inr x \<and> f x = Inr y)"
  by (cases r) auto

lemma bind_res_Inl: "bind_res r f = Inl e \<longleftrightarrow> r = Inl e \<or> (\<exists>x. r = Inr x \<and> f x = Inl e)"
  by (cases r) auto

section \<open>Go maps\<close>

type_synonym ('k, 'v) gomap = "('k \<times> 'v) list"

abbreviation mget :: "('k, 'v) gomap \<Rightarrow> 'k \<Rightarrow> 'v option" where
  "mget m k \<equiv> map_of m k"

definition mput :: "'k \<Rightarrow> 'v \<Rightarrow> ('k, 'v) gomap \<Rightarrow> ('k, 'v) gomap" where
  "mput k v m = AList.update k v m"

definition mdel :: "'k \<Rightarrow> ('k, 'v) gomap \<Rightarrow> ('k, 'v) gomap" where
  "mdel k m = AList.delete k m"

text \<open>The loop \<^verbatim>\<open>for key, entry := range m { if p(entry) { delete(m, key) } }\<close>.\<close>

definition mpurge :: "('v \<Rightarrow> bool) \<Rightarrow> ('k, 'v) gomap \<Rightarrow> ('k, 'v) gomap" where
  "mpurge p m = filter (\<lambda>kv. \<not> p (snd kv)) m"

definition msize :: "('k, 'v) gomap \<Rightarrow> nat" where
  "msize m = length m"

definition mwf :: "('k, 'v) gomap \<Rightarrow> bool" where
  "mwf m \<longleftrightarrow> distinct (map fst m)"

lemma mget_mput [gomap_simps]: "mget (mput k v m) k' = (if k' = k then Some v else mget m k')"
  by (simp add: mput_def update_conv')

lemma mget_mdel [gomap_simps]: "mget (mdel k m) k' = (if k' = k then None else mget m k')"
  by (simp add: mdel_def delete_conv')

lemma mwf_empty [gomap_simps]: "mwf []"
  by (simp add: mwf_def)

lemma mwf_mput [gomap_simps]: "mwf m \<Longrightarrow> mwf (mput k v m)"
  by (simp add: mwf_def mput_def distinct_update)

lemma mwf_mdel [gomap_simps]: "mwf m \<Longrightarrow> mwf (mdel k m)"
  by (simp add: mwf_def mdel_def distinct_delete)

lemma mwf_mpurge [gomap_simps]: "mwf m \<Longrightarrow> mwf (mpurge p m)"
  by (induction m) (auto simp: mwf_def mpurge_def)

lemma mget_mpurge [gomap_simps]:
  "mwf m \<Longrightarrow> mget (mpurge p m) k = (case mget m k of None \<Rightarrow> None | Some v \<Rightarrow> if p v then None else Some v)"
proof (induction m)
  case Nil
  then show ?case by (simp add: mpurge_def)
next
  case (Cons kv m)
  have notin: "k' \<notin> fst ` set m \<Longrightarrow> mget (filter q m) k' = None" for k' q
    by (auto simp: map_of_eq_None_iff)
  from Cons show ?case
    by (cases kv) (auto simp: mpurge_def mwf_def notin split: option.splits)
qed

lemma msize_mput_le [gomap_simps]: "msize (mput k v m) \<le> Suc (msize m)"
  by (induction m) (auto simp: msize_def mput_def)

lemma msize_mdel_le [gomap_simps]: "msize (mdel k m) \<le> msize m"
  by (simp add: msize_def mdel_def length_delete_le)

lemma msize_empty [gomap_simps]: "msize [] = 0"
  by (simp add: msize_def)

lemma mget_Some_in: "mget m k = Some v \<Longrightarrow> (k, v) \<in> set m"
  by (rule map_of_SomeD)

lemma mwf_in_mget: "mwf m \<Longrightarrow> (k, v) \<in> set m \<longleftrightarrow> mget m k = Some v"
  by (simp add: mwf_def map_of_eq_Some_iff)

lemma mkeys_mget: "k \<in> fst ` set m \<longleftrightarrow> mget m k \<noteq> None"
  by (simp add: map_of_eq_None_iff)

section \<open>The clock\<close>

type_synonym gotime = int
type_synonym duration = int

definition second :: duration where
  "second = 1000000000"

definition minDuration :: duration where
  "minDuration = - (2 ^ 63)"

definition maxDuration :: duration where
  "maxDuration = 2 ^ 63 - 1"

definition timeSub :: "gotime \<Rightarrow> gotime \<Rightarrow> duration" where
  "timeSub t u = (if t - u < minDuration then minDuration
                  else if t - u > maxDuration then maxDuration else t - u)"

definition timeAfter :: "gotime \<Rightarrow> gotime \<Rightarrow> bool" where
  "timeAfter t u \<longleftrightarrow> t > u"

definition timeIsZero :: "gotime \<Rightarrow> bool" where
  "timeIsZero t \<longleftrightarrow> t = 0"

declare timeSub_def [time_defs] timeAfter_def [time_defs] timeIsZero_def [time_defs]
  minDuration_def [time_defs] maxDuration_def [time_defs] second_def [time_defs]

lemma timeSub_less: "0 < d \<Longrightarrow> d < maxDuration \<Longrightarrow> timeSub t u < d \<longleftrightarrow> t - u < d"
  by (auto simp: timeSub_def minDuration_def maxDuration_def)

lemma timeSub_greater: "0 \<le> d \<Longrightarrow> d < maxDuration \<Longrightarrow> d < timeSub t u \<longleftrightarrow> d < t - u"
  by (auto simp: timeSub_def minDuration_def maxDuration_def)

section \<open>Bytes and words\<close>

type_synonym byte = "8 word"
type_synonym u16 = "16 word"
type_synonym u32 = "32 word"
type_synonym u64 = "64 word"

text \<open>The conversions \<^verbatim>\<open>[]byte(s)\<close> and \<^verbatim>\<open>string(b)\<close>; a Go string is a byte sequence.\<close>

definition bytes_of :: "string \<Rightarrow> byte list" where
  "bytes_of s = map (\<lambda>c. of_nat (of_char c)) s"

definition string_of :: "byte list \<Rightarrow> string" where
  "string_of bs = map (\<lambda>b. char_of (unat b)) bs"

lemma length_bytes_of [bytes_simps]: "length (bytes_of s) = length s"
  by (simp add: bytes_of_def)

lemma length_string_of [bytes_simps]: "length (string_of bs) = length bs"
  by (simp add: string_of_def)

lemma unat_of_char_byte: "unat (of_nat (of_char c) :: byte) = of_char c"
  using nat_of_char_less_256 [of c] by (simp add: unat_of_nat)

lemma string_of_bytes_of [bytes_simps]: "string_of (bytes_of s) = s"
  by (induction s) (simp_all add: string_of_def bytes_of_def unat_of_char_byte)

lemma of_char_char_of_unat: "of_nat (of_char (char_of (unat b))) = (b :: byte)"
proof -
  have "unat b mod 256 = unat b"
    using unsigned_less [of b, where 'a = nat] by simp
  then show ?thesis by simp
qed

lemma bytes_of_string_of [bytes_simps]: "bytes_of (string_of bs) = bs"
  unfolding string_of_def bytes_of_def map_map comp_def of_char_char_of_unat by simp

lemma string_of_eq_iff [bytes_simps]: "string_of a = string_of b \<longleftrightarrow> a = b"
  by (metis bytes_of_string_of)

text \<open>
  Big-endian words: \<^verbatim>\<open>appendU32\<close> and \<^verbatim>\<open>appendU64\<close> write the shifted low bytes,
  \<^verbatim>\<open>binary.BigEndian.Uint32\<close> and \<^verbatim>\<open>Uint64\<close> read them back.
\<close>

definition putU16 :: "u16 \<Rightarrow> byte list" where
  "putU16 n = [ucast (drop_bit 8 n), ucast n]"

definition getU16 :: "byte \<Rightarrow> byte \<Rightarrow> u16" where
  "getU16 a b = push_bit 8 (ucast a) OR ucast b"

definition putU32 :: "u32 \<Rightarrow> byte list" where
  "putU32 n = [ucast (drop_bit 24 n), ucast (drop_bit 16 n), ucast (drop_bit 8 n), ucast n]"

definition getU32 :: "byte \<Rightarrow> byte \<Rightarrow> byte \<Rightarrow> byte \<Rightarrow> u32" where
  "getU32 a b c d =
     push_bit 24 (ucast a) OR push_bit 16 (ucast b) OR push_bit 8 (ucast c) OR ucast d"

definition putU64 :: "u64 \<Rightarrow> byte list" where
  "putU64 n = putU32 (ucast (drop_bit 32 n)) @ putU32 (ucast n)"

definition getU64 :: "u32 \<Rightarrow> u32 \<Rightarrow> u64" where
  "getU64 hi lo = push_bit 32 (ucast hi) OR ucast lo"

lemma bit_byte_beyond:
  "\<not> bit (b :: byte) (8 + n)" "\<not> bit b (16 + n)" "\<not> bit b (24 + n)"
  using bit_imp_le_length [of b] by force+

lemma getU16_put [bytes_simps]: "getU16 (ucast (drop_bit 8 n)) (ucast n) = n"
  by (rule bit_word_eqI) (auto simp: getU16_def bit_simps)

lemma getU32_put [bytes_simps]:
  "getU32 (ucast (drop_bit 24 n)) (ucast (drop_bit 16 n)) (ucast (drop_bit 8 n)) (ucast n) = n"
proof (rule bit_word_eqI)
  fix i assume "i < LENGTH(32)"
  consider "i < 8" | "8 \<le> i" "i < 16" | "16 \<le> i" "i < 24" | "24 \<le> i" by linarith
  then show "bit (getU32 (ucast (drop_bit 24 n)) (ucast (drop_bit 16 n))
      (ucast (drop_bit 8 n)) (ucast n)) i = bit n i"
    using \<open>i < LENGTH(32)\<close> by cases (auto simp: getU32_def bit_simps)
qed

lemma getU64_put [bytes_simps]: "getU64 (ucast (drop_bit 32 n)) (ucast n) = n"
  by (rule bit_word_eqI) (auto simp: getU64_def bit_simps)

lemma putU16_get [bytes_simps]: "putU16 (getU16 a b) = [a, b]"
  by (auto simp: putU16_def getU16_def bit_simps bit_byte_beyond intro!: bit_word_eqI)

lemma putU32_get [bytes_simps]: "putU32 (getU32 a b c d) = [a, b, c, d]"
  by (auto simp: putU32_def getU32_def bit_simps bit_byte_beyond intro!: bit_word_eqI)

lemma length_putU32 [bytes_simps]: "length (putU32 n) = 4"
  by (simp add: putU32_def)

lemma length_putU64 [bytes_simps]: "length (putU64 n) = 8"
  by (simp add: putU64_def putU32_def)

end
