(* ===== verification/GoStrings.thy ===== *)
theory GoStrings
  imports Prelude
begin

text \<open>
  The pieces of Go's standard library the program computes with on strings: from
  \<^verbatim>\<open>strings\<close> (Split and Join on one separator byte, TrimSpace, TrimRight, HasSuffix,
  TrimSuffix, Contains), from \<^verbatim>\<open>strconv\<close> (ParseUint with base 10 and 16 bits) and the
  record reader of \<^verbatim>\<open>encoding/csv\<close> with a blank as separator, which the gateway uses to
  split command lines.

  The lemmas show that splitting and joining are inverse, which prefix and suffix of the
  input a split at an index gives, and that a command line built by quoting its arguments
  is read back exactly.
\<close>

section \<open>Split, join, trim\<close>

fun splitOn :: "char \<Rightarrow> string \<Rightarrow> string list" where
  "splitOn c [] = [[]]"
| "splitOn c (x # xs) =
     (if x = c then [] # splitOn c xs
      else (case splitOn c xs of [] \<Rightarrow> [[x]] | p # ps \<Rightarrow> (x # p) # ps))"

fun joinWith :: "string \<Rightarrow> string list \<Rightarrow> string" where
  "joinWith sep [] = []"
| "joinWith sep [p] = p"
| "joinWith sep (p # q # ps) = p @ sep @ joinWith sep (q # ps)"

definition hasSuffix :: "string \<Rightarrow> string \<Rightarrow> bool" where
  "hasSuffix s suf \<longleftrightarrow> length suf \<le> length s \<and> drop (length s - length suf) s = suf"

definition trimSuffix :: "string \<Rightarrow> string \<Rightarrow> string" where
  "trimSuffix s suf = (if hasSuffix s suf then take (length s - length suf) s else s)"

definition hasPrefix :: "string \<Rightarrow> string \<Rightarrow> bool" where
  "hasPrefix s pre \<longleftrightarrow> take (length pre) s = pre"

fun containsStr :: "string \<Rightarrow> string \<Rightarrow> bool" where
  "containsStr [] sub = (sub = [])"
| "containsStr (x # xs) sub = (hasPrefix (x # xs) sub \<or> containsStr xs sub)"

definition trimRight :: "string \<Rightarrow> string \<Rightarrow> string" where
  "trimRight s cutset = rev (dropWhile (\<lambda>c. c \<in> set cutset) (rev s))"

text \<open>
  The UTF-8 encodings of the code points \<^verbatim>\<open>unicode.IsSpace\<close> accepts; \<^verbatim>\<open>strings.TrimSpace\<close>
  drops any number of them at both ends.
\<close>

definition spaceRunes :: "string list" where
  "spaceRunes =
     map (map char_of)
       [[9], [10], [11], [12], [13], [32 :: nat],
        [0xC2, 0x85], [0xC2, 0xA0], [0xE1, 0x9A, 0x80],
        [0xE2, 0x80, 0x80], [0xE2, 0x80, 0x81], [0xE2, 0x80, 0x82], [0xE2, 0x80, 0x83],
        [0xE2, 0x80, 0x84], [0xE2, 0x80, 0x85], [0xE2, 0x80, 0x86], [0xE2, 0x80, 0x87],
        [0xE2, 0x80, 0x88], [0xE2, 0x80, 0x89], [0xE2, 0x80, 0x8A],
        [0xE2, 0x80, 0xA8], [0xE2, 0x80, 0xA9], [0xE2, 0x80, 0xAF],
        [0xE2, 0x81, 0x9F], [0xE3, 0x80, 0x80]]"

fun dropSpaces :: "string list \<Rightarrow> nat \<Rightarrow> string \<Rightarrow> string" where
  "dropSpaces runes 0 s = s"
| "dropSpaces runes (Suc n) s =
     (case find (hasPrefix s) runes of
        None \<Rightarrow> s
      | Some r \<Rightarrow> dropSpaces runes n (drop (length r) s))"

definition trimSpace :: "string \<Rightarrow> string" where
  "trimSpace s =
     (let t = dropSpaces spaceRunes (length s) s
      in rev (dropSpaces (map rev spaceRunes) (length t) (rev t)))"

text \<open>A string that begins and ends with a visible ASCII character is not trimmed.\<close>

definition plainChar :: "char \<Rightarrow> bool" where
  "plainChar c \<longleftrightarrow> 32 < (of_char c :: nat) \<and> (of_char c :: nat) < 128"

lemma spaceRunes_not_plain: "r \<in> set spaceRunes \<Longrightarrow> r \<noteq> [] \<and> \<not> plainChar (hd r) \<and> \<not> plainChar (last r)"
  by (auto simp: spaceRunes_def plainChar_def)

lemma dropSpaces_plain:
  assumes "\<forall>r \<in> set runes. r \<noteq> [] \<and> \<not> plainChar (hd r)" and "s \<noteq> []" and "plainChar (hd s)"
  shows "dropSpaces runes n s = s"
proof -
  have "\<not> hasPrefix s r" if "r \<in> set runes" for r
    using assms that by (cases r; cases s) (auto simp: hasPrefix_def)
  then have "find (hasPrefix s) runes = None" by (simp add: find_None_iff)
  then show ?thesis by (cases n) simp_all
qed

lemma trimSpace_plain:
  assumes "s \<noteq> []" and "plainChar (hd s)" and "plainChar (last s)"
  shows "trimSpace s = s"
  using assms spaceRunes_not_plain
  by (auto simp: trimSpace_def dropSpaces_plain hd_rev)

lemma splitOn_nonempty [simp]: "splitOn c s \<noteq> []"
  by (cases s) (auto split: list.splits)

lemma length_splitOn [simp]: "length (splitOn c s) = Suc (count_list s c)"
  by (induction s) (auto split: list.splits)

lemma joinWith_Cons: "ps \<noteq> [] \<Longrightarrow> joinWith sep (p # ps) = p @ sep @ joinWith sep ps"
  by (cases ps) auto

lemma joinWith_append:
  "ps \<noteq> [] \<Longrightarrow> qs \<noteq> [] \<Longrightarrow> joinWith sep (ps @ qs) = joinWith sep ps @ sep @ joinWith sep qs"
proof (induction ps)
  case Nil
  then show ?case by simp
next
  case (Cons p ps)
  then show ?case
    by (cases "ps = []") (simp_all add: joinWith_Cons)
qed

lemma joinWith_Cons_char: "joinWith sep ((x # p) # ps) = x # joinWith sep (p # ps)"
  by (cases ps) auto

lemma join_splitOn: "joinWith [c] (splitOn c s) = s"
proof (induction s)
  case Nil
  then show ?case by simp
next
  case (Cons x s)
  then show ?case
    by (cases "splitOn c s") (auto simp: joinWith_Cons joinWith_Cons_char)
qed

lemma splitOn_no_sep: "p \<in> set (splitOn c s) \<Longrightarrow> c \<notin> set p"
  by (induction s arbitrary: p) (auto split: list.splits if_splits)

lemma splitOn_id: "c \<notin> set s \<Longrightarrow> splitOn c s = [s]"
  by (induction s) auto

lemma splitOn_append_sep: "c \<notin> set p \<Longrightarrow> splitOn c (p @ c # s) = p # splitOn c s"
  by (induction p) auto

lemma splitOn_join:
  "ps \<noteq> [] \<Longrightarrow> \<forall>p \<in> set ps. c \<notin> set p \<Longrightarrow> splitOn c (joinWith [c] ps) = ps"
proof (induction ps)
  case Nil
  then show ?case by simp
next
  case (Cons p ps)
  then show ?case
    by (cases "ps = []") (simp_all add: splitOn_id joinWith_Cons splitOn_append_sep)
qed

text \<open>A split at an index inside the parts cuts the string at a separator.\<close>

lemma join_split_at:
  assumes "0 < i" and "i < length (splitOn c s)"
  shows "joinWith [c] (take i (splitOn c s)) @ c # joinWith [c] (drop i (splitOn c s)) = s"
proof -
  have "take i (splitOn c s) \<noteq> []" and "drop i (splitOn c s) \<noteq> []"
    using assms by auto
  then have "joinWith [c] (take i (splitOn c s) @ drop i (splitOn c s))
      = joinWith [c] (take i (splitOn c s)) @ [c] @ joinWith [c] (drop i (splitOn c s))"
    by (rule joinWith_append)
  then show ?thesis
    by (simp add: join_splitOn)
qed

lemma splitOn_append: "splitOn c (a @ c # b) = splitOn c a @ splitOn c b"
  by (induction a) (auto split: list.splits)

lemma hasSuffix_append [simp]: "hasSuffix (s @ suf) suf"
  by (simp add: hasSuffix_def)

lemma hasSuffix_iff: "hasSuffix s suf \<longleftrightarrow> (\<exists>p. s = p @ suf)"
  by (auto simp: hasSuffix_def) (metis append_take_drop_id)

lemma trimSuffix_append [simp]: "trimSuffix (s @ suf) suf = s"
  by (simp add: trimSuffix_def)

section \<open>Numbers\<close>

definition isDigit :: "char \<Rightarrow> bool" where
  "isDigit c \<longleftrightarrow> 48 \<le> (of_char c :: nat) \<and> (of_char c :: nat) \<le> 57"

text \<open>\<^verbatim>\<open>strconv.ParseUint(s, 10, bits)\<close>: the digits are consumed from the left, and a value
  above the maximum stops the loop with a range error.\<close>

fun parseUintLoop :: "nat \<Rightarrow> nat \<Rightarrow> string \<Rightarrow> nat option" where
  "parseUintLoop maxVal n [] = Some n"
| "parseUintLoop maxVal n (c # cs) =
     (if \<not> isDigit c then None
      else let n1 = n * 10 + (of_char c - 48)
           in if n1 > maxVal then None else parseUintLoop maxVal n1 cs)"

definition parseUint16 :: "string \<Rightarrow> u16 option" where
  "parseUint16 s = (if s = [] then None else map_option of_nat (parseUintLoop 65535 0 s))"

fun decimal :: "nat \<Rightarrow> string" where
  "decimal n = (if n < 10 then [char_of (48 + n)] else decimal (n div 10) @ [char_of (48 + n mod 10)])"

declare decimal.simps [simp del]

lemma parseUintLoop_le: "parseUintLoop m n s = Some v \<Longrightarrow> n \<le> m \<Longrightarrow> v \<le> m"
  by (induction m n s rule: parseUintLoop.induct) (auto simp: Let_def split: if_splits)

lemma parseUintLoop_mono: "parseUintLoop m n s = Some v \<Longrightarrow> n \<le> v"
  by (induction m n s rule: parseUintLoop.induct) (force simp: Let_def split: if_splits)+

lemma parseUintLoop_append:
  "parseUintLoop m n (s @ t) =
     (case parseUintLoop m n s of None \<Rightarrow> None | Some v \<Rightarrow> parseUintLoop m v t)"
  by (induction m n s rule: parseUintLoop.induct) (auto simp: Let_def)

lemma of_char_digit [simp]: "k < 10 \<Longrightarrow> (of_char (char_of (48 + k) :: char) :: nat) = 48 + k"
  by simp

lemma parseUintLoop_decimal: "n \<le> m \<Longrightarrow> parseUintLoop m 0 (decimal n) = Some n"
proof (induction n rule: decimal.induct)
  case (1 n)
  show ?case
  proof (cases "n < 10")
    case True
    with 1 show ?thesis by (subst decimal.simps) (simp add: isDigit_def Let_def)
  next
    case False
    have "n mod 10 < 10" by simp
    moreover have "parseUintLoop m 0 (decimal (n div 10)) = Some (n div 10)"
      using 1 False by (meson div_le_dividend le_trans)
    ultimately show ?thesis
      using False \<open>n \<le> m\<close>
      by (subst decimal.simps) (simp add: parseUintLoop_append isDigit_def Let_def)
  qed
qed

lemma decimal_nonempty [simp]: "decimal n \<noteq> []"
  by (subst decimal.simps) simp

lemma set_decimal: "set (decimal n) \<subseteq> {c. isDigit c}"
proof (induction n rule: decimal.induct)
  case (1 n)
  then show ?case by (subst decimal.simps) (auto simp: isDigit_def)
qed

lemma parseUint16_decimal: "parseUint16 (decimal (unat p)) = Some p"
proof -
  have "unat p \<le> 65535"
    using unsigned_less [of p, where 'a = nat] by simp
  then show ?thesis
    by (simp add: parseUint16_def parseUintLoop_decimal)
qed

section \<open>Reading one csv record\<close>

abbreviation (input) quoteChar :: char where "quoteChar \<equiv> CHR 0x22"
abbreviation (input) blank :: char where "blank \<equiv> CHR '' ''"
abbreviation (input) newline :: char where "newline \<equiv> CHR 0x0A"
abbreviation (input) carriageReturn :: char where "carriageReturn \<equiv> CHR 0x0D"

fun indexByte :: "char \<Rightarrow> string \<Rightarrow> nat option" where
  "indexByte c [] = None"
| "indexByte c (x # xs) = (if x = c then Some 0 else map_option Suc (indexByte c xs))"

definition lengthNL :: "string \<Rightarrow> nat" where
  "lengthNL line = (if line \<noteq> [] \<and> last line = newline then 1 else 0)"

text \<open>
  \<^verbatim>\<open>readLine\<close>: the next line with its newline, whether the reader is at the end of the
  input, and what is left. A carriage return is dropped before a newline and before the
  end of the input.
\<close>

definition csvReadLine :: "string \<Rightarrow> string \<times> bool \<times> string" where
  "csvReadLine s =
     (case indexByte newline s of
        Some i \<Rightarrow>
          (let line = take (Suc i) s; n = Suc i
           in (if n \<ge> 2 \<and> line ! (n - 2) = carriageReturn
               then take (n - 2) line @ [newline] else line, False, drop (Suc i) s))
      | None \<Rightarrow>
          if s = [] then ([], True, [])
          else (if last s = carriageReturn then butlast s else s, False, []))"

lemma indexByte_less: "indexByte c s = Some i \<Longrightarrow> i < length s"
  by (induction s arbitrary: i) (auto split: if_splits)

lemma indexByte_nth: "indexByte c s = Some i \<Longrightarrow> s ! i = c"
  by (induction s arbitrary: i) (auto split: if_splits)

lemma indexByte_None [simp]: "indexByte c s = None \<longleftrightarrow> c \<notin> set s"
  by (induction s) auto

lemma indexByte_take: "indexByte c s = Some i \<Longrightarrow> c \<notin> set (take i s)"
  by (induction s arbitrary: i) (auto split: if_splits)

lemma indexByte_append: "c \<notin> set p \<Longrightarrow> indexByte c (p @ c # q) = Some (length p)"
  by (induction p) auto

lemma csvReadLine_length:
  "csvReadLine s = (line, eof, rest) \<Longrightarrow> length line + length rest \<le> length s"
  by (auto simp: csvReadLine_def Let_def split: option.splits if_splits dest: indexByte_less)

lemma csvReadLine_progress:
  "csvReadLine s = (line, False, rest) \<Longrightarrow> length rest < length s"
  by (auto simp: csvReadLine_def Let_def split: option.splits if_splits dest: indexByte_less)

text \<open>Blank lines before the record are skipped.\<close>

function csvFirstLine :: "string \<Rightarrow> (string \<times> string) option" where
  "csvFirstLine s =
     (case csvReadLine s of (line, eof, rest) \<Rightarrow>
        if eof then None
        else if length line = lengthNL line then csvFirstLine rest
        else Some (line, rest))"
  by pat_completeness auto
termination
  by (relation "measure length") (auto dest: csvReadLine_progress [OF sym])

declare csvFirstLine.simps [simp del]

text \<open>
  The field loop of \<^verbatim>\<open>readRecord\<close>. The first argument is the text of a quoted field read so
  far, or None between fields; a quoted field that is not closed on its line goes on with
  the next one. The result is None for a parse error.
\<close>

function (sequential) csvFields ::
    "string option \<Rightarrow> string list \<Rightarrow> string \<Rightarrow> string \<Rightarrow> string list option" where
  "csvFields None acc line rest =
     (if line = [] \<or> hd line \<noteq> quoteChar then
        (case indexByte blank line of
           Some i \<Rightarrow>
             if quoteChar \<in> set (take i line) then None
             else csvFields None (acc @ [take i line]) (drop (Suc i) line) rest
         | None \<Rightarrow>
             if quoteChar \<in> set (take (length line - lengthNL line) line) then None
             else Some (acc @ [take (length line - lengthNL line) line]))
      else csvFields (Some []) acc (tl line) rest)"
| "csvFields (Some buf) acc line rest =
     (case indexByte quoteChar line of
        Some i \<Rightarrow>
          if drop (Suc i) line \<noteq> [] \<and> hd (drop (Suc i) line) = quoteChar then
            csvFields (Some (buf @ take i line @ [quoteChar])) acc (tl (drop (Suc i) line)) rest
          else if drop (Suc i) line \<noteq> [] \<and> hd (drop (Suc i) line) = blank then
            csvFields None (acc @ [buf @ take i line]) (tl (drop (Suc i) line)) rest
          else if length (drop (Suc i) line) = lengthNL (drop (Suc i) line) then
            Some (acc @ [buf @ take i line])
          else None
      | None \<Rightarrow>
          if line = [] then None
          else csvFields (Some (buf @ line)) acc (fst (csvReadLine rest))
                 (snd (snd (csvReadLine rest))))"
  by pat_completeness auto
termination
proof (relation "measure (\<lambda>(q, acc, line, rest). length line + length rest)")
  fix line rest :: string
  assume "line \<noteq> []"
  moreover have "length (fst (csvReadLine rest)) + length (snd (snd (csvReadLine rest))) \<le> length rest"
    by (cases "csvReadLine rest") (auto dest: csvReadLine_length)
  ultimately show "((Some (buf @ line), acc, fst (csvReadLine rest), snd (snd (csvReadLine rest))),
      (Some buf, acc, line, rest)) \<in> measure (\<lambda>(q, acc, line, rest). length line + length rest)"
    for buf acc by (cases line) auto
qed (auto dest: indexByte_less)

declare csvFields.simps [simp del]

definition csvRead :: "string \<Rightarrow> string list option" where
  "csvRead s =
     (case csvFirstLine s of None \<Rightarrow> None | Some (line, rest) \<Rightarrow> csvFields None [] line rest)"

subsection \<open>Quoted records are read back\<close>

text \<open>The reference printer: every field quoted, a quote inside a field doubled.\<close>

fun csvEscape :: "string \<Rightarrow> string" where
  "csvEscape [] = []"
| "csvEscape (x # xs) = (if x = quoteChar then [quoteChar, quoteChar] else [x]) @ csvEscape xs"

definition csvQuote :: "string \<Rightarrow> string" where
  "csvQuote f = quoteChar # csvEscape f @ [quoteChar]"

lemma csvFields_quoted_char:
  assumes "x \<noteq> quoteChar" and "quoteChar \<in> set xs"
  shows "csvFields (Some buf) acc (x # xs) rest = csvFields (Some (buf @ [x])) acc xs rest"
proof -
  from assms(2) obtain i where i: "indexByte quoteChar xs = Some i"
    by (metis indexByte_None option.exhaust)
  with assms(1) show ?thesis
    by (subst (1 2) csvFields.simps) (simp only: indexByte.simps i option.map option.case if_False
        take_Suc_Cons drop_Suc_Cons append_Cons append_Nil append_assoc)
qed

lemma csvFields_quoted_quote:
  "csvFields (Some buf) acc (quoteChar # quoteChar # xs) rest =
     csvFields (Some (buf @ [quoteChar])) acc xs rest"
  by (subst csvFields.simps) simp

lemma csvFields_escaped:
  "csvFields (Some buf) acc (csvEscape f @ quoteChar # t) rest =
     csvFields (Some (buf @ f)) acc (quoteChar # t) rest"
proof (induction f arbitrary: buf)
  case Nil
  then show ?case by simp
next
  case (Cons x f)
  then show ?case
    by (cases "x = quoteChar") (simp_all add: csvFields_quoted_quote csvFields_quoted_char)
qed

lemma csvFields_close:
  "csvFields (Some buf) acc [quoteChar] rest = Some (acc @ [buf])"
  "csvFields (Some buf) acc (quoteChar # blank # t) rest = csvFields None (acc @ [buf]) t rest"
  by (subst csvFields.simps, simp add: lengthNL_def)+

lemma csvFields_open: "csvFields None acc (quoteChar # t) rest = csvFields (Some []) acc t rest"
  by (subst csvFields.simps) simp

lemma csvFields_quote_join:
  "fs \<noteq> [] \<Longrightarrow> csvFields None acc (joinWith [blank] (map csvQuote fs)) rest = Some (acc @ fs)"
proof (induction fs arbitrary: acc)
  case Nil
  then show ?case by simp
next
  case (Cons f fs)
  then show ?case
    by (cases "fs = []")
       (simp_all add: joinWith_Cons csvQuote_def csvFields_open csvFields_escaped csvFields_close)
qed

lemma csvFirstLine_single:
  assumes "newline \<notin> set s" and "s \<noteq> []" and "last s \<noteq> carriageReturn"
  shows "csvFirstLine s = Some (s, [])"
proof -
  have "indexByte newline s = None" using assms(1) by simp
  then have "csvReadLine s = (s, False, [])"
    using assms by (simp add: csvReadLine_def del: indexByte_None)
  moreover have "last s \<noteq> newline" using assms by (metis last_in_set)
  ultimately show ?thesis
    using assms by (subst csvFirstLine.simps) (simp add: lengthNL_def)
qed

lemma set_csvEscape: "set (csvEscape f) = set f"
  by (induction f) auto

lemma set_joinWith: "set (joinWith sep ps) \<subseteq> set sep \<union> (\<Union>p \<in> set ps. set p)"
  by (induction sep ps rule: joinWith.induct) auto

lemma last_joinWith: "ps \<noteq> [] \<Longrightarrow> last ps \<noteq> [] \<Longrightarrow> last (joinWith sep ps) = last (last ps)"
proof (induction ps)
  case Nil
  then show ?case by simp
next
  case (Cons p ps)
  moreover have "ps \<noteq> [] \<Longrightarrow> joinWith sep ps \<noteq> []"
    using Cons.prems by (induction sep ps rule: joinWith.induct) (auto split: if_splits)
  ultimately show ?case
    by (cases "ps = []") (auto simp: joinWith_Cons)
qed

lemma csvRead_quoted:
  assumes "fs \<noteq> []" and "\<forall>f \<in> set fs. newline \<notin> set f"
  shows "csvRead (joinWith [blank] (map csvQuote fs)) = Some fs"
proof -
  let ?s = "joinWith [blank] (map csvQuote fs)"
  have "newline \<notin> set ?s"
    using assms(2) set_joinWith [of "[blank]" "map csvQuote fs"]
    by (auto simp: csvQuote_def set_csvEscape dest!: subsetD split: if_splits)
  moreover have last: "last ?s = quoteChar"
    using assms(1) by (subst last_joinWith) (auto simp: last_map csvQuote_def)
  moreover have "?s \<noteq> []"
    using assms(1) by (cases fs; cases "tl fs") (auto simp: csvQuote_def)
  ultimately have "csvFirstLine ?s = Some (?s, [])"
    by (intro csvFirstLine_single) auto
  then show ?thesis
    using assms(1) by (simp add: csvRead_def csvFields_quote_join)
qed

end
