(* ===== verification/Migration.thy ===== *)
theory Migration
  imports GoStrings "HOL-Library.Char_ord" "HOL-Library.List_Lexorder"
begin

text \<open>
  \<^verbatim>\<open>db/migrations/migrations.go\<close> and \<^verbatim>\<open>db/migration.go\<close>: the loading of the migration files
  and the migration of a database to the set of migrations the program knows, upwards and
  downwards. What a statement does to the schema is a parameter, \<open>me_exec\<close>; a transaction
  either happens with its row in the migration table or not at all.
\<close>

section \<open>Loading\<close>

record migration =
  mg_ID :: string
  mg_SQL :: string
  mg_ReverseSQL :: string

record dirEntry =
  de_Name :: string
  de_IsDir :: bool
  de_Content :: string

definition sqlSuffix :: string where "sqlSuffix = ''.sql''"
definition reverseSuffix :: string where "reverseSuffix = ''.reverse.sql''"

definition loadEntry :: "dirEntry \<Rightarrow> (string, string) gomap \<times> (string, string) gomap \<Rightarrow> (string, string) gomap \<times> (string, string) gomap" where
  "loadEntry entry maps =
     (case maps of (forward, reverse) \<Rightarrow>
        if de_IsDir entry then (forward, reverse)
        else if \<not> hasSuffix (de_Name entry) sqlSuffix then (forward, reverse)
        else if hasSuffix (de_Name entry) reverseSuffix
          then (forward, mput (trimSuffix (de_Name entry) reverseSuffix) (trimSpace (de_Content entry)) reverse)
        else (mput (trimSuffix (de_Name entry) sqlSuffix) (trimSpace (de_Content entry)) forward, reverse))"

text \<open>None is a panic: a migration without its reverse or a reverse without its migration.\<close>

definition mustLoadMigrations :: "dirEntry list \<Rightarrow> migration list option" where
  "mustLoadMigrations entries =
     (case fold loadEntry entries ([], []) of (forward, reverse) \<Rightarrow>
        if \<exists>k \<in> set (map fst forward). mget reverse k = None then None
        else if \<exists>k \<in> set (map fst reverse). mget forward k = None then None
        else Some (map (\<lambda>k. \<lparr>mg_ID = k, mg_SQL = the (mget forward k), mg_ReverseSQL = the (mget reverse k)\<rparr>)
                     (sort (map fst forward))))"

section \<open>Migrating\<close>

record migrationModel =
  mm_MigratedAt :: gotime
  mm_ReverseSQL :: string

record 'a migState =
  ms_schema :: 'a
  ms_rows :: "(string, migrationModel) gomap"

text \<open>What the database answers: to the creation of the table, to the query of its rows, to a
  statement, and to the deletion and the creation of the row of a migration.\<close>

record 'a migrateEnv =
  me_auto :: "goerror option"
  me_find :: "goerror option"
  me_exec :: "string \<Rightarrow> 'a \<Rightarrow> 'a res"
  me_delete :: "string \<Rightarrow> goerror option"
  me_create :: "string \<Rightarrow> goerror option"
  me_now :: "string \<Rightarrow> gotime"

datatype migrateResult = MigrateOk | MigrateErr goerror | MigratePanic string

definition revertOne :: "'a migrateEnv \<Rightarrow> string \<Rightarrow> migrationModel \<Rightarrow> 'a migState \<Rightarrow> 'a migState res" where
  "revertOne env migrationId model st =
     (case me_exec env (mm_ReverseSQL model) (ms_schema st) of
        Inl e \<Rightarrow> Inl e
      | Inr schema \<Rightarrow>
          (case me_delete env migrationId of
             Some e \<Rightarrow> Inl e
           | None \<Rightarrow> Inr (st\<lparr>ms_schema := schema, ms_rows := mdel migrationId (ms_rows st)\<rparr>)))"

fun revertLoop :: "'a migrateEnv \<Rightarrow> (string, migrationModel) gomap \<Rightarrow> string list \<Rightarrow> 'a migState \<Rightarrow> migrateResult \<times> 'a migState" where
  "revertLoop env existing [] st = (MigrateOk, st)"
| "revertLoop env existing (migrationId # ids) st =
     (let model = (case mget existing migrationId of None \<Rightarrow> \<lparr>mm_MigratedAt = 0, mm_ReverseSQL = []\<rparr> | Some m \<Rightarrow> m)
      in if trimSpace (mm_ReverseSQL model) = [] then (MigratePanic migrationId, st)
         else case revertOne env migrationId model st of
                Inl e \<Rightarrow> (MigrateErr e, st)
              | Inr st1 \<Rightarrow> revertLoop env existing ids st1)"

text \<open>The row of a migration that is already in the table is refused as a duplicate.\<close>

definition applyOne :: "'a migrateEnv \<Rightarrow> migration \<Rightarrow> 'a migState \<Rightarrow> 'a migState res" where
  "applyOne env mig st =
     (case (if mg_SQL mig \<noteq> [] then me_exec env (mg_SQL mig) (ms_schema st) else Inr (ms_schema st)) of
        Inl e \<Rightarrow> Inl e
      | Inr schema \<Rightarrow>
          if mget (ms_rows st) (mg_ID mig) \<noteq> None then Inl (ErrText ''duplicated key not allowed'')
          else (case me_create env (mg_ID mig) of
                  Some e \<Rightarrow> Inl e
                | None \<Rightarrow> Inr (st\<lparr>ms_schema := schema,
                    ms_rows := mput (mg_ID mig) \<lparr>mm_MigratedAt = me_now env (mg_ID mig), mm_ReverseSQL = mg_ReverseSQL mig\<rparr> (ms_rows st)\<rparr>)))"

fun applyLoop :: "'a migrateEnv \<Rightarrow> (string, migrationModel) gomap \<Rightarrow> migration list \<Rightarrow> 'a migState \<Rightarrow> migrateResult \<times> 'a migState" where
  "applyLoop env existing [] st = (MigrateOk, st)"
| "applyLoop env existing (mig # migs) st =
     (if mget existing (mg_ID mig) \<noteq> None then applyLoop env existing migs st
      else case applyOne env mig st of
             Inl e \<Rightarrow> (MigrateErr e, st)
           | Inr st1 \<Rightarrow> applyLoop env existing migs st1)"

definition unknownIds :: "migration list \<Rightarrow> (string, migrationModel) gomap \<Rightarrow> string list" where
  "unknownIds current existing = rev (sort (filter (\<lambda>k. k \<notin> set (map mg_ID current)) (map fst existing)))"

definition Migrate :: "'a migrateEnv \<Rightarrow> migration list \<Rightarrow> 'a migState \<Rightarrow> migrateResult \<times> 'a migState" where
  "Migrate env current st =
     (case me_auto env of
        Some e \<Rightarrow> (MigrateErr e, st)
      | None \<Rightarrow>
          (case me_find env of
             Some e \<Rightarrow> (MigrateErr e, st)
           | None \<Rightarrow>
               (let existing = ms_rows st
                in case revertLoop env existing (unknownIds current existing) st of
                     (MigrateOk, st1) \<Rightarrow> applyLoop env existing current st1
                   | (failed, st1) \<Rightarrow> (failed, st1))))"

section \<open>The plan of a migration\<close>

text \<open>The statements a migration has to execute, in their order.\<close>

fun execAll :: "(string \<Rightarrow> 'a \<Rightarrow> 'a res) \<Rightarrow> string list \<Rightarrow> 'a \<Rightarrow> 'a res" where
  "execAll exec [] s = Inr s"
| "execAll exec (q # qs) s = (case exec q s of Inl e \<Rightarrow> Inl e | Inr s1 \<Rightarrow> execAll exec qs s1)"

definition reverts :: "(string, migrationModel) gomap \<Rightarrow> string list \<Rightarrow> string list" where
  "reverts existing ids = map (\<lambda>k. mm_ReverseSQL (the (mget existing k))) ids"

definition missing :: "migration list \<Rightarrow> (string, migrationModel) gomap \<Rightarrow> migration list" where
  "missing current existing = filter (\<lambda>mig. mget existing (mg_ID mig) = None) current"

definition applies :: "migration list \<Rightarrow> string list" where
  "applies migs = filter (\<lambda>q. q \<noteq> []) (map mg_SQL migs)"

definition plan :: "migration list \<Rightarrow> (string, migrationModel) gomap \<Rightarrow> string list" where
  "plan current existing = reverts existing (unknownIds current existing) @ applies (missing current existing)"

lemma execAll_append: "execAll exec (a @ b) s = (case execAll exec a s of Inl e \<Rightarrow> Inl e | Inr s1 \<Rightarrow> execAll exec b s1)"
  by (induction a arbitrary: s) (auto split: sum.split)

lemma reverts_append: "reverts existing (a @ b) = reverts existing a @ reverts existing b"
  by (simp add: reverts_def)

lemma applies_append: "applies (a @ b) = applies a @ applies b"
  by (simp add: applies_def)

lemma applies_Cons: "applies (mig # migs) = applies [mig] @ applies migs"
  by (simp add: applies_def)

text \<open>A loop of reverts does a prefix of its list, and all of it if it succeeds.\<close>

lemma revertLoop_prefix:
  assumes "revertLoop env existing ids st = (r, st')" and "\<forall>k \<in> set ids. mget existing k \<noteq> None"
  shows "\<exists>done rest. ids = done @ rest \<and> (r = MigrateOk \<longrightarrow> rest = [])
    \<and> execAll (me_exec env) (reverts existing done) (ms_schema st) = Inr (ms_schema st')
    \<and> ms_rows st' = fold mdel done (ms_rows st)"
  using assms
proof (induction ids arbitrary: st)
  case (Cons k ids)
  then obtain m where m: "mget existing k = Some m" by auto
  show ?case
  proof (cases "\<exists>st1. trimSpace (mm_ReverseSQL m) \<noteq> [] \<and> revertOne env k m st = Inr st1")
    case True
    then obtain st1 where st1: "trimSpace (mm_ReverseSQL m) \<noteq> []" "revertOne env k m st = Inr st1" by blast
    with Cons.prems m have "revertLoop env existing ids st1 = (r, st')" by simp
    from Cons.IH [OF this] Cons.prems obtain "done" rest where d: "ids = done @ rest" "r = MigrateOk \<longrightarrow> rest = []"
      "execAll (me_exec env) (reverts existing done) (ms_schema st1) = Inr (ms_schema st')"
      "ms_rows st' = fold mdel done (ms_rows st1)" by auto
    have "me_exec env (mm_ReverseSQL m) (ms_schema st) = Inr (ms_schema st1)" "ms_rows st1 = mdel k (ms_rows st)"
      using st1(2) by (auto simp: revertOne_def split: sum.splits option.splits)
    with d m show ?thesis
      by (intro exI [of _ "k # done"] exI [of _ rest]) (simp add: reverts_def)
  next
    case False
    with Cons.prems m have "r \<noteq> MigrateOk" "st' = st"
      by (auto split: if_splits sum.splits)
    then show ?thesis by (intro exI [of _ "[]"] exI [of _ "k # ids"]) (simp add: reverts_def)
  qed
qed (simp add: reverts_def)

definition record_row :: "'a migrateEnv \<Rightarrow> migration \<Rightarrow> (string, migrationModel) gomap \<Rightarrow> (string, migrationModel) gomap" where
  "record_row env mig = mput (mg_ID mig) \<lparr>mm_MigratedAt = me_now env (mg_ID mig), mm_ReverseSQL = mg_ReverseSQL mig\<rparr>"

lemma applyLoop_prefix:
  assumes "applyLoop env existing migs st = (r, st')"
  shows "\<exists>done rest. missing migs existing = done @ rest \<and> (r = MigrateOk \<longrightarrow> rest = [])
    \<and> execAll (me_exec env) (applies done) (ms_schema st) = Inr (ms_schema st')
    \<and> ms_rows st' = fold (record_row env) done (ms_rows st)"
  using assms
proof (induction migs arbitrary: st)
  case (Cons mig migs)
  show ?case
  proof (cases "mget existing (mg_ID mig) = None")
    case True
    show ?thesis
    proof (cases "applyOne env mig st")
      case (Inl e)
      with True Cons.prems show ?thesis
        by (intro exI [of _ "[]"] exI [of _ "missing (mig # migs) existing"]) (auto simp: applies_def)
    next
      case (Inr st1)
      with True Cons.prems have "applyLoop env existing migs st1 = (r, st')" by simp
      from Cons.IH [OF this] obtain "done" rest where d: "missing migs existing = done @ rest" "r = MigrateOk \<longrightarrow> rest = []"
        "execAll (me_exec env) (applies done) (ms_schema st1) = Inr (ms_schema st')"
        "ms_rows st' = fold (record_row env) done (ms_rows st1)" by blast
      have "execAll (me_exec env) (applies [mig]) (ms_schema st) = Inr (ms_schema st1)"
        "ms_rows st1 = record_row env mig (ms_rows st)"
        using Inr by (auto simp: applyOne_def applies_def record_row_def split: sum.splits option.splits if_splits)
      with d True have "missing (mig # migs) existing = (mig # done) @ rest \<and> (r = MigrateOk \<longrightarrow> rest = [])
          \<and> execAll (me_exec env) (applies (mig # done)) (ms_schema st) = Inr (ms_schema st')
          \<and> ms_rows st' = fold (record_row env) (mig # done) (ms_rows st)"
        by (simp add: missing_def applies_Cons [of mig "done"] execAll_append)
      then show ?thesis by blast
    qed
  qed (use Cons in \<open>auto simp: missing_def\<close>)
qed (simp add: missing_def applies_def)

text \<open>The plan of the state after a prefix is the rest of the plan.\<close>

lemma map_fst_mdel: "map fst (mdel k m) = filter (\<lambda>x. x \<noteq> k) (map fst m)"
  by (induction m) (auto simp: mdel_def)

lemma map_fst_fold_mdel: "map fst (fold mdel ks m) = filter (\<lambda>x. x \<notin> set ks) (map fst m)"
  by (induction ks arbitrary: m) (auto simp: map_fst_mdel filter_filter intro!: filter_cong)

lemma mget_fold_mdel: "mget (fold mdel ks m) k = (if k \<in> set ks then None else mget m k)"
  by (induction ks arbitrary: m) (auto simp: gomap_simps)

lemma distinct_unknownIds: "mwf rows \<Longrightarrow> distinct (unknownIds current rows)"
  by (simp add: unknownIds_def mwf_def)

lemma set_unknownIds: "k \<in> set (unknownIds current rows) \<longleftrightarrow> mget rows k \<noteq> None \<and> k \<notin> mg_ID ` set current"
  using mkeys_mget [of k rows] by (auto simp: unknownIds_def)

lemma plan_reverted:
  assumes "mwf rows" and "unknownIds current rows = done @ rest"
  shows "unknownIds current (fold mdel done rows) = rest"
    and "reverts (fold mdel done rows) rest = reverts rows rest"
    and "missing current (fold mdel done rows) = missing current rows"
proof -
  have dist: "set done \<inter> set rest = {}" using distinct_unknownIds [OF assms(1), of current] assms(2) by simp
  have "unknownIds current (fold mdel done rows) = filter (\<lambda>k. k \<notin> set done) (unknownIds current rows)"
    by (simp add: unknownIds_def map_fst_fold_mdel filter_sort conj_commute flip: rev_filter)
  also have "\<dots> = rest"
    using dist by (auto simp: assms(2) filter_empty_conv filter_id_conv)
  finally show "unknownIds current (fold mdel done rows) = rest" .
  show "reverts (fold mdel done rows) rest = reverts rows rest"
    using dist by (auto simp: reverts_def mget_fold_mdel)
  have "k \<notin> mg_ID ` set current" if "k \<in> set done" for k
    using that set_unknownIds [of k current rows] assms(2) by simp
  then show "missing current (fold mdel done rows) = missing current rows"
    by (force simp: missing_def mget_fold_mdel intro!: filter_cong)
qed

lemma mget_record: "mget (record_row env mig rows) k =
    (if k = mg_ID mig then Some \<lparr>mm_MigratedAt = me_now env (mg_ID mig), mm_ReverseSQL = mg_ReverseSQL mig\<rparr> else mget rows k)"
  by (simp add: record_row_def gomap_simps)

lemma mget_fold_record_None:
  "mget (fold (record_row env) migs rows) k = None \<longleftrightarrow> k \<notin> mg_ID ` set migs \<and> mget rows k = None"
  by (induction migs arbitrary: rows) (auto simp: mget_record)

lemma mget_fold_record_other:
  "k \<notin> mg_ID ` set migs \<Longrightarrow> mget (fold (record_row env) migs rows) k = mget rows k"
  by (induction migs arbitrary: rows) (auto simp: mget_record)

lemma filter_keys_mput: "\<not> P k \<Longrightarrow> filter P (map fst (mput k v m)) = filter P (map fst m)"
  by (induction m) (auto simp: mput_def)

lemma filter_keys_record:
  "\<forall>mig \<in> set migs. \<not> P (mg_ID mig) \<Longrightarrow> filter P (map fst (fold (record_row env) migs rows)) = filter P (map fst rows)"
  by (induction migs arbitrary: rows) (simp_all add: record_row_def filter_keys_mput)

lemma plan_applied:
  assumes "distinct (map mg_ID current)" and "missing current rows = done @ rest"
  shows "unknownIds current (fold (record_row env) done rows) = unknownIds current rows"
    and "missing current (fold (record_row env) done rows) = rest"
proof -
  have "set (missing current rows) \<subseteq> set current" by (auto simp: missing_def)
  then have sub: "set done \<subseteq> set current" by (simp add: assms(2))
  then show "unknownIds current (fold (record_row env) done rows) = unknownIds current rows"
    by (subst (1 2) unknownIds_def, subst filter_keys_record) auto
  have "missing current (fold (record_row env) done rows) = filter (\<lambda>mig. mg_ID mig \<notin> mg_ID ` set done) (missing current rows)"
    by (simp add: missing_def mget_fold_record_None conj_commute)
  also have "\<dots> = rest"
  proof -
    have "distinct (map mg_ID (missing current rows))" using assms(1) by (simp add: missing_def distinct_map_filter)
    then have "mg_ID ` set done \<inter> mg_ID ` set rest = {}" by (simp add: assms(2))
    then show ?thesis by (auto simp: assms(2) filter_empty_conv filter_id_conv)
  qed
  finally show "missing current (fold (record_row env) done rows) = rest" .
qed

lemma mwf_fold_mdel: "mwf m \<Longrightarrow> mwf (fold mdel ks m)"
  by (induction ks arbitrary: m) (simp_all add: gomap_simps)

lemma mwf_fold_record: "mwf m \<Longrightarrow> mwf (fold (record_row env) migs m)"
  by (induction migs arbitrary: m) (simp_all add: record_row_def gomap_simps)

lemma plan_prefix:
  assumes "Migrate env current st = (r, st')" and "mwf (ms_rows st)" and "distinct (map mg_ID current)"
  shows "mwf (ms_rows st') \<and> (\<exists>qs. plan current (ms_rows st) = qs @ plan current (ms_rows st')
    \<and> execAll (me_exec env) qs (ms_schema st) = Inr (ms_schema st')
    \<and> (r = MigrateOk \<longrightarrow> unknownIds current (ms_rows st') = [] \<and> missing current (ms_rows st') = []))"
proof (cases "me_auto env = None \<and> me_find env = None")
  case False
  with assms(1) have "st' = st" "r \<noteq> MigrateOk" by (auto simp: Migrate_def split: option.splits)
  with assms(2) show ?thesis by simp
next
  case True
  let ?rows = "ms_rows st"
  obtain r1 st1 where rev: "revertLoop env ?rows (unknownIds current ?rows) st = (r1, st1)" by (metis surj_pair)
  have "\<forall>k \<in> set (unknownIds current ?rows). mget ?rows k \<noteq> None" by (simp add: set_unknownIds)
  from revertLoop_prefix [OF rev this] obtain d1 rest1 where
    d1: "unknownIds current ?rows = d1 @ rest1" "r1 = MigrateOk \<longrightarrow> rest1 = []"
      "execAll (me_exec env) (reverts ?rows d1) (ms_schema st) = Inr (ms_schema st1)" "ms_rows st1 = fold mdel d1 ?rows"
    by blast
  note p1 = plan_reverted [OF assms(2) d1(1), folded d1(4)]
  have plan1: "plan current ?rows = reverts ?rows d1 @ plan current (ms_rows st1)"
    by (simp add: plan_def d1(1) p1 reverts_append)
  show ?thesis
  proof (cases "r1 = MigrateOk")
    case False
    then have "r = r1" "st' = st1" using assms(1) True rev by (auto simp: Migrate_def Let_def split: migrateResult.splits)
    with False plan1 d1 show ?thesis by (simp add: mwf_fold_mdel [OF assms(2)])
  next
    case ok: True
    then have app: "applyLoop env ?rows current st1 = (r, st')" using assms(1) True rev by (simp add: Migrate_def Let_def)
    from applyLoop_prefix [OF app] obtain d2 rest2 where d2: "missing current ?rows = d2 @ rest2" "r = MigrateOk \<longrightarrow> rest2 = []"
      "execAll (me_exec env) (applies d2) (ms_schema st1) = Inr (ms_schema st')"
      "ms_rows st' = fold (record_row env) d2 (ms_rows st1)" by blast
    have "missing current (ms_rows st1) = d2 @ rest2" using p1(3) d2(1) by simp
    note p2 = plan_applied [OF assms(3) this, of env, folded d2(4)]
    have "unknownIds current (ms_rows st') = []" using p2(1) p1(1) d1(2) ok by simp
    moreover have "plan current (ms_rows st1) = applies d2 @ plan current (ms_rows st')"
      using p1(1) d1(2) ok p2 \<open>missing current (ms_rows st1) = d2 @ rest2\<close>
      by (simp add: plan_def reverts_def applies_append)
    moreover have "mwf (ms_rows st')" by (simp add: d2(4) d1(4) mwf_fold_record mwf_fold_mdel assms(2))
    moreover have "execAll (me_exec env) (reverts ?rows d1 @ applies d2) (ms_schema st) = Inr (ms_schema st')"
      by (simp add: execAll_append d1(3) d2(3))
    ultimately show ?thesis using plan1 d2(2) p2(2) append_assoc by metis
  qed
qed

section \<open>Migrations are applied once, in order\<close>

definition attempts :: "'a migrateEnv list \<Rightarrow> migration list \<Rightarrow> 'a migState \<Rightarrow> 'a migState" where
  "attempts envs current st = fold (\<lambda>env st. snd (Migrate env current st)) envs st"

lemma attempts_prefix:
  assumes "mwf (ms_rows st)" and "distinct (map mg_ID current)" and "\<forall>env \<in> set envs. me_exec env = exec"
  shows "mwf (ms_rows (attempts envs current st))
    \<and> (\<exists>qs. plan current (ms_rows st) = qs @ plan current (ms_rows (attempts envs current st))
         \<and> execAll exec qs (ms_schema st) = Inr (ms_schema (attempts envs current st)))"
  using assms
proof (induction envs arbitrary: st)
  case (Cons env envs)
  let ?st1 = "snd (Migrate env current st)"
  from plan_prefix [OF prod.collapse [symmetric] Cons.prems(1,2), of env] obtain qs where
    qs: "mwf (ms_rows ?st1)" "plan current (ms_rows st) = qs @ plan current (ms_rows ?st1)"
      "execAll exec qs (ms_schema st) = Inr (ms_schema ?st1)" using Cons.prems(3) by auto
  from Cons.IH [OF qs(1) Cons.prems(2)] Cons.prems(3) obtain qs' where
    "mwf (ms_rows (attempts envs current ?st1))"
    "plan current (ms_rows ?st1) = qs' @ plan current (ms_rows (attempts envs current ?st1))"
    "execAll exec qs' (ms_schema ?st1) = Inr (ms_schema (attempts envs current ?st1))" by auto
  with qs have "mwf (ms_rows (attempts envs current ?st1))"
    "plan current (ms_rows st) = (qs @ qs') @ plan current (ms_rows (attempts envs current ?st1))"
    "execAll exec (qs @ qs') (ms_schema st) = Inr (ms_schema (attempts envs current ?st1))"
    by (simp_all add: execAll_append)
  moreover have "attempts (env # envs) current st = attempts envs current ?st1" by (simp add: attempts_def)
  ultimately show ?case by metis
qed (simp add: attempts_def)

lemma plan_done:
  assumes "unknownIds current rows = []" and "missing current rows = []"
  shows "fst ` set rows = mg_ID ` set current"
proof -
  have known: "k \<in> mg_ID ` set current" if "mget rows k \<noteq> None" for k
    using set_unknownIds [of k current rows] assms(1) that by auto
  have "mget rows (mg_ID mig) \<noteq> None" if "mig \<in> set current" for mig
    using assms(2) that by (simp add: missing_def filter_empty_conv)
  with known have "k \<in> fst ` set rows \<longleftrightarrow> k \<in> mg_ID ` set current" for k
    unfolding mkeys_mget by blast
  then show ?thesis by blast
qed

lemma plan_finished: "unknownIds current rows = [] \<Longrightarrow> missing current rows = [] \<Longrightarrow> plan current rows = []"
  by (simp add: plan_def reverts_def applies_def)

lemma Migrate_done:
  assumes "unknownIds current (ms_rows st) = []" and "missing current (ms_rows st) = []"
    and "me_auto env = None" and "me_find env = None"
  shows "Migrate env current st = (MigrateOk, st)"
proof -
  have "applyLoop env (ms_rows st) migs st = (MigrateOk, st)" if "missing migs (ms_rows st) = []" for migs
    using that by (induction migs) (auto simp: missing_def split: if_splits)
  with assms show ?thesis by (simp add: Migrate_def Let_def)
qed

text \<open>C9: However many attempts to migrate fail, and wherever they fail, the first one that succeeds
  has completed the plan of the first: between them the attempts executed the statements
  that revert the migrations this program does not know, newest first, and then those it
  knows and that were missing, each of them exactly once and in this order. The table then
  names the migrations of this program, and migrating again does nothing.\<close>

theorem migrate_exactly_once:
  assumes "mwf (ms_rows st)" and "distinct (map mg_ID current)" and "\<forall>env \<in> set envs. me_exec env = exec"
    and "me_exec env = exec" and "Migrate env current (attempts envs current st) = (MigrateOk, st')"
    and "me_auto env' = None" and "me_find env' = None"
  shows "execAll exec (plan current (ms_rows st)) (ms_schema st) = Inr (ms_schema st')
    \<and> fst ` set (ms_rows st') = mg_ID ` set current
    \<and> Migrate env' current st' = (MigrateOk, st')"
proof -
  let ?st1 = "attempts envs current st"
  obtain qs where qs: "mwf (ms_rows ?st1)" "plan current (ms_rows st) = qs @ plan current (ms_rows ?st1)"
    "execAll exec qs (ms_schema st) = Inr (ms_schema ?st1)" using attempts_prefix [OF assms(1-3)] by blast
  from plan_prefix [OF assms(5) qs(1) assms(2)] obtain qs' where
    qs': "plan current (ms_rows ?st1) = qs' @ plan current (ms_rows st')"
      "execAll exec qs' (ms_schema ?st1) = Inr (ms_schema st')"
    and finished: "unknownIds current (ms_rows st') = []" "missing current (ms_rows st') = []"
    using assms(4) by auto
  have "plan current (ms_rows st') = []" by (rule plan_finished [OF finished])
  with qs qs' have "execAll exec (plan current (ms_rows st)) (ms_schema st) = Inr (ms_schema st')"
    by (simp add: execAll_append)
  with plan_done [OF finished] Migrate_done [OF finished assms(6,7)] show ?thesis by blast
qed

section \<open>Downgrading restores the schema\<close>

lemma loadEntry_mwf: "mwf (fst maps) \<Longrightarrow> mwf (fst (loadEntry e maps))"
  by (cases maps) (simp add: loadEntry_def mwf_mput)

lemma fold_loadEntry_mwf: "mwf (fst maps) \<Longrightarrow> mwf (fst (fold loadEntry entries maps))"
  by (induction entries arbitrary: maps) (simp_all add: loadEntry_mwf)

lemma load_sorted:
  assumes "mustLoadMigrations entries = Some migs"
  shows "sorted (map mg_ID migs)" and "distinct (map mg_ID migs)"
proof -
  obtain forward reverse where maps: "fold loadEntry entries ([], []) = (forward, reverse)" by (metis surj_pair)
  with assms have "map mg_ID migs = sort (map fst forward)"
    by (auto simp: mustLoadMigrations_def comp_def split: if_splits)
  moreover have "mwf forward" using fold_loadEntry_mwf [of "([], [])" entries] maps by (simp add: gomap_simps)
  ultimately show "sorted (map mg_ID migs)" "distinct (map mg_ID migs)" by (simp_all add: mwf_def)
qed

lemma Migrate_rows:
  assumes "Migrate env current st = (MigrateOk, st')"
  shows "ms_rows st' = fold (record_row env) (missing current (ms_rows st))
    (fold mdel (unknownIds current (ms_rows st)) (ms_rows st))"
proof -
  let ?rows = "ms_rows st"
  from assms obtain st1 where l: "revertLoop env ?rows (unknownIds current ?rows) st = (MigrateOk, st1)"
    "applyLoop env ?rows current st1 = (MigrateOk, st')"
    by (auto simp: Migrate_def Let_def split: option.splits prod.splits migrateResult.splits)
  have "\<forall>k \<in> set (unknownIds current ?rows). mget ?rows k \<noteq> None" by (simp add: set_unknownIds)
  from revertLoop_prefix [OF l(1) this] applyLoop_prefix [OF l(2)] show ?thesis by auto
qed

lemma map_fst_mput_new: "mget m k = None \<Longrightarrow> map fst (mput k v m) = map fst m @ [k]"
  by (induction m) (auto simp: mput_def split: if_splits)

lemma map_fst_fold_record:
  "distinct (map mg_ID ns) \<Longrightarrow> \<forall>m \<in> set ns. mget rows (mg_ID m) = None \<Longrightarrow>
     map fst (fold (record_row env) ns rows) = map fst rows @ map mg_ID ns"
proof (induction ns arbitrary: rows)
  case (Cons n ns)
  have "\<forall>m \<in> set ns. mget (record_row env n rows) (mg_ID m) = None"
  proof
    fix m assume "m \<in> set ns"
    then have "mg_ID m \<noteq> mg_ID n" using Cons.prems(1) by (metis distinct.simps(2) image_eqI list.set_map list.simps(9))
    with \<open>m \<in> set ns\<close> Cons.prems(2) show "mget (record_row env n rows) (mg_ID m) = None" by (simp add: mget_record)
  qed
  from Cons.IH [OF _ this] Cons.prems show ?case by (simp add: record_row_def map_fst_mput_new)
qed simp

lemma mget_fold_record_in:
  "distinct (map mg_ID ns) \<Longrightarrow> m \<in> set ns \<Longrightarrow>
     mm_ReverseSQL (the (mget (fold (record_row env) ns rows) (mg_ID m))) = mg_ReverseSQL m"
proof (induction ns arbitrary: rows)
  case (Cons n ns)
  show ?case
  proof (cases "m \<in> set ns")
    case False
    with Cons.prems have "m = n" "mg_ID n \<notin> mg_ID ` set ns" by auto
    then show ?thesis by (simp add: mget_fold_record_other mget_record)
  qed (use Cons in simp)
qed simp

definition undone_by_reverse :: "(string \<Rightarrow> 'a \<Rightarrow> 'a res) \<Rightarrow> migration \<Rightarrow> bool" where
  "undone_by_reverse exec mig \<longleftrightarrow>
     (\<forall>s s'. execAll exec (applies [mig]) s = Inr s' \<longrightarrow> exec (mg_ReverseSQL mig) s' = Inr s)"

lemma execAll_undo:
  "\<forall>m \<in> set ns. undone_by_reverse exec m \<Longrightarrow> execAll exec (applies ns) s = Inr s' \<Longrightarrow>
     execAll exec (rev (map mg_ReverseSQL ns)) s' = Inr s"
proof (induction ns arbitrary: s)
  case (Cons n ns)
  then obtain s1 where s1: "execAll exec (applies [n]) s = Inr s1" "execAll exec (applies ns) s1 = Inr s'"
    by (auto simp: applies_Cons [of n ns] execAll_append split: sum.splits)
  then have "exec (mg_ReverseSQL n) s1 = Inr s" using Cons.prems(1) by (simp add: undone_by_reverse_def)
  with Cons.IH [OF _ s1(2)] Cons.prems(1) show ?case by (simp add: execAll_append)
qed (simp add: applies_def)

text \<open>What the old program plans once the migrations \<open>ns\<close> of the new one are recorded.\<close>

lemma downgrade_plan:
  assumes "ns = filter (\<lambda>m. mg_ID m \<notin> mg_ID ` set old) new" and "sorted (map mg_ID ns)" and "distinct (map mg_ID ns)"
    and none: "\<And>k. mget rows k = None \<longleftrightarrow> k \<notin> mg_ID ` set old" and "fst ` set rows = mg_ID ` set old"
  shows "plan old (fold (record_row env) ns rows) = rev (map mg_ReverseSQL ns)"
proof -
  let ?rows = "fold (record_row env) ns rows"
  have "map fst ?rows = map fst rows @ map mg_ID ns"
    by (rule map_fst_fold_record [OF assms(3)]) (simp add: none assms(1))
  moreover have "filter (\<lambda>k. k \<notin> set (map mg_ID old)) (map fst rows) = []"
    using assms(5) by (auto simp: filter_empty_conv)
  moreover have "filter (\<lambda>k. k \<notin> set (map mg_ID old)) (map mg_ID ns) = map mg_ID ns"
    by (auto simp: assms(1) filter_id_conv)
  ultimately have unknown: "unknownIds old ?rows = rev (map mg_ID ns)"
    using assms(2) by (simp add: unknownIds_def sorted_sort_id)
  have "missing old ?rows = []"
    by (auto simp: missing_def mget_fold_record_None none filter_empty_conv)
  moreover have "reverts ?rows (rev (map mg_ID ns)) = rev (map mg_ReverseSQL ns)"
    by (simp add: reverts_def rev_map mget_fold_record_in [OF assms(3)])
  ultimately show ?thesis by (simp add: plan_def unknown applies_def)
qed


section \<open>Sample migrations\<close>

definition sample_file :: "string \<Rightarrow> string \<Rightarrow> dirEntry" where
  "sample_file name content = \<lparr>de_Name = name, de_IsDir = False, de_Content = content\<rparr>"

definition sample_old_files :: "dirEntry list" where
  "sample_old_files = [sample_file ''0.reverse.sql'' ''a'', sample_file ''0.sql'' ''A'']"

definition sample_new_files :: "dirEntry list" where
  "sample_new_files = sample_old_files @ [sample_file ''1.reverse.sql'' ''b'', sample_file ''1.sql'' ''B'']"

definition sample_migration :: "string \<Rightarrow> string \<Rightarrow> string \<Rightarrow> migration" where
  "sample_migration k sql reverse = \<lparr>mg_ID = k, mg_SQL = sql, mg_ReverseSQL = reverse\<rparr>"

text \<open>A schema is the list of its columns; a statement adds or drops the newest one.\<close>

definition sample_sql :: "string \<Rightarrow> string list \<Rightarrow> string list res" where
  "sample_sql q columns =
     (if q = ''A'' \<or> q = ''B'' then Inr (q # columns)
      else if columns = [] then Inl (ErrExternal 0) else Inr (tl columns))"

definition sample_migrateEnv :: "goerror option \<Rightarrow> string list migrateEnv" where
  "sample_migrateEnv fault = \<lparr>me_auto = None, me_find = None, me_exec = sample_sql, me_delete = (\<lambda>_. None),
     me_create = (\<lambda>_. fault), me_now = (\<lambda>_. 1)\<rparr>"

definition sample_migState :: "string list migState" where
  "sample_migState = \<lparr>ms_schema = [''A''], ms_rows = [(''0'', \<lparr>mm_MigratedAt = 0, mm_ReverseSQL = ''a''\<rparr>)]\<rparr>"

lemma sample_load:
  "mustLoadMigrations sample_old_files = Some [sample_migration ''0'' ''A'' ''a'']"
  "mustLoadMigrations sample_new_files = Some [sample_migration ''0'' ''A'' ''a'', sample_migration ''1'' ''B'' ''b'']"
  by (simp_all add: mustLoadMigrations_def sample_new_files_def sample_old_files_def sample_file_def loadEntry_def
      sqlSuffix_def reverseSuffix_def hasSuffix_def trimSuffix_def trimSpace_plain plainChar_def mput_def
      sample_migration_def less_char_def less_eq_char_def)

lemmas sample_migration_defs = sample_migration_def sample_migrateEnv_def sample_migState_def sample_sql_def

lemma sample_upgrade:
  "Migrate (sample_migrateEnv None) [sample_migration ''0'' ''A'' ''a'', sample_migration ''1'' ''B'' ''b''] sample_migState =
     (MigrateOk, \<lparr>ms_schema = [''B'', ''A''], ms_rows = [(''0'', \<lparr>mm_MigratedAt = 0, mm_ReverseSQL = ''a''\<rparr>),
        (''1'', \<lparr>mm_MigratedAt = 1, mm_ReverseSQL = ''b''\<rparr>)]\<rparr>)"
  by (simp add: Migrate_def unknownIds_def applyOne_def sample_migration_defs mput_def)

lemma sample_downgrade:
  "\<exists>st2. Migrate (sample_migrateEnv None) [sample_migration ''0'' ''A'' ''a'']
     \<lparr>ms_schema = [''B'', ''A''], ms_rows = [(''0'', \<lparr>mm_MigratedAt = 0, mm_ReverseSQL = ''a''\<rparr>),
        (''1'', \<lparr>mm_MigratedAt = 1, mm_ReverseSQL = ''b''\<rparr>)]\<rparr> = (MigrateOk, st2)"
  by (simp add: Migrate_def unknownIds_def revertOne_def sample_migration_defs mdel_def trimSpace_plain plainChar_def)


theorem migrate_exactly_once_witness:
  "\<exists>st'. Migrate (sample_migrateEnv None) [sample_migration ''0'' ''A'' ''a'', sample_migration ''1'' ''B'' ''b'']
       (attempts [sample_migrateEnv (Some ErrEOF)] [sample_migration ''0'' ''A'' ''a'', sample_migration ''1'' ''B'' ''b''] sample_migState)
     = (MigrateOk, st') \<and> fst ` set (ms_rows st') = {''0'', ''1''}"
proof -
  let ?current = "[sample_migration ''0'' ''A'' ''a'', sample_migration ''1'' ''B'' ''b'']"
  have "attempts [sample_migrateEnv (Some ErrEOF)] ?current sample_migState = sample_migState"
    by (simp add: attempts_def Migrate_def unknownIds_def applyOne_def sample_migration_defs)
  with sample_upgrade obtain st' where st': "Migrate (sample_migrateEnv None) ?current
      (attempts [sample_migrateEnv (Some ErrEOF)] ?current sample_migState) = (MigrateOk, st')" by auto
  then show ?thesis
    using migrate_exactly_once [OF _ _ _ _ st', of sample_sql "sample_migrateEnv None"]
    by (simp add: sample_migration_def sample_migState_def sample_migrateEnv_def mwf_def)
qed

end
