(* ===== verification/Cert.thy ===== *)
theory Cert
  imports Prelude
begin

text \<open>
  The certificate checks the program delegates to the vendored ssh library: the user branch
  of \<^verbatim>\<open>CertChecker.Authenticate\<close> and \<^verbatim>\<open>CertChecker.CheckCert\<close> of
  \<^verbatim>\<open>vendor/golang.org/x/crypto/ssh/certs.go\<close>, and the public key branch of the server's
  authentication loop in \<^verbatim>\<open>server.go\<close>, which calls the application's callback, enforces the
  source address and verifies the client's signature.

  A plain public key is its wire encoding. What is not modelled is a parameter: whether a
  certificate's signature verifies under its signature key (\<open>verify\<close>), whether a remote
  address matches a source address list (\<open>checkSource\<close>).
\<close>

record permissions =
  pm_CriticalOptions :: "(string, string) gomap"
  pm_Extensions :: "(string, string) gomap"

record certificate =
  ct_Key :: "byte list"
  ct_Serial :: u64
  ct_CertType :: u32
  ct_KeyId :: string
  ct_ValidPrincipals :: "string list"
  ct_ValidAfter :: u64
  ct_ValidBefore :: u64
  ct_Permissions :: permissions
  ct_SignatureKey :: "byte list"
  ct_Signature :: "byte list"

datatype publicKey = PlainKey "byte list" | CertKey certificate

text \<open>
  A signer: the private key, named by the public key it belongs to, and the certificate it
  presents if it was made by \<^verbatim>\<open>NewCertSigner\<close>.
\<close>

record signer =
  sg_key :: "byte list"
  sg_certificate :: "certificate option"

definition signer_PublicKey :: "signer \<Rightarrow> publicKey" where
  "signer_PublicKey s = (case sg_certificate s of None \<Rightarrow> PlainKey (sg_key s) | Some cert \<Rightarrow> CertKey cert)"

definition NewCertSigner :: "certificate \<Rightarrow> signer \<Rightarrow> signer res" where
  "NewCertSigner cert s =
     (if signer_PublicKey s \<noteq> PlainKey (ct_Key cert)
      then Inl (ErrText ''ssh: signer and cert have different public key'')
      else Inr (s\<lparr>sg_certificate := Some cert\<rparr>))"

definition UserCert :: u32 where "UserCert = 1"

definition CertTimeInfinity :: u64 where "CertTimeInfinity = -1"

definition sourceAddressCriticalOption :: string where
  "sourceAddressCriticalOption = ''source-address''"

text \<open>\<^verbatim>\<open>Time.Unix\<close>: seconds since 1970, which is 62135596800 seconds after the zero time.\<close>

definition unixSeconds :: "gotime \<Rightarrow> int" where
  "unixSeconds t = t div second - 62135596800"

definition CheckCert ::
    "(certificate \<Rightarrow> bool) \<Rightarrow> string list \<Rightarrow> gotime \<Rightarrow> string \<Rightarrow> certificate \<Rightarrow> unit res" where
  "CheckCert verify supportedCriticalOptions now who cert =
     (if \<exists>opt \<in> fst ` set (pm_CriticalOptions (ct_Permissions cert)).
           opt \<noteq> sourceAddressCriticalOption \<and> opt \<notin> set supportedCriticalOptions
      then Inl (ErrText ''ssh: unsupported critical option in certificate'')
      else if ct_ValidPrincipals cert \<noteq> [] \<and> who \<notin> set (ct_ValidPrincipals cert)
      then Inl (ErrText ''ssh: principal not in the set of valid principals'')
      else if sint (ct_ValidAfter cert) < 0 \<or> unixSeconds now < sint (ct_ValidAfter cert)
      then Inl (ErrText ''ssh: cert is not yet valid'')
      else if ct_ValidBefore cert \<noteq> CertTimeInfinity
            \<and> (unixSeconds now \<ge> sint (ct_ValidBefore cert) \<or> sint (ct_ValidBefore cert) < 0)
      then Inl (ErrText ''ssh: cert has expired'')
      else if \<not> verify cert
      then Inl (ErrText ''ssh: certificate signature does not verify'')
      else Inr ())"

text \<open>The checker the program builds: no fallback for plain keys, no revocation list, no
  supported critical options, the system clock.\<close>

definition certAuthenticate ::
    "(certificate \<Rightarrow> bool) \<Rightarrow> (byte list \<Rightarrow> bool) \<Rightarrow> gotime \<Rightarrow> string \<Rightarrow> publicKey \<Rightarrow> permissions res" where
  "certAuthenticate verify isUserAuthority now user key =
     (case key of
        PlainKey _ \<Rightarrow> Inl (ErrText ''ssh: normal key pairs not accepted'')
      | CertKey cert \<Rightarrow>
          if ct_CertType cert \<noteq> UserCert then Inl (ErrText ''ssh: cert has wrong type'')
          else if \<not> isUserAuthority (ct_SignatureKey cert)
            then Inl (ErrText ''ssh: certificate signed by unrecognized authority'')
          else (case CheckCert verify [] now user cert of
                  Inl e \<Rightarrow> Inl e
                | Inr _ \<Rightarrow> Inr (ct_Permissions cert)))"

subsection \<open>The public key step of the server\<close>

datatype authOutcome = AuthQueryOk | AuthFailed goerror | AuthAccepted permissions

record pubkeyRequest =
  pk_isQuery :: bool
  pk_signatureOk :: bool
  pk_key :: publicKey

definition sourceAddressOk :: "(string \<Rightarrow> bool) \<Rightarrow> permissions \<Rightarrow> bool" where
  "sourceAddressOk checkSource perms =
     (case mget (pm_CriticalOptions perms) sourceAddressCriticalOption of
        None \<Rightarrow> True
      | Some saco \<Rightarrow> saco = [] \<or> checkSource saco)"

text \<open>
  One public key request on a connection that has not tried this key yet: the callback runs
  first, on the state \<open>st\<close>; a query is answered from its result alone; otherwise the
  client's signature is verified and the permissions of the callback are used.
\<close>

definition publickeyAuth ::
    "(publicKey \<Rightarrow> 's \<Rightarrow> permissions res \<times> 's) \<Rightarrow> (string \<Rightarrow> bool) \<Rightarrow> pubkeyRequest \<Rightarrow> 's \<Rightarrow> authOutcome \<times> 's" where
  "publickeyAuth callback checkSource req st =
     (let (result, st') = callback (pk_key req) st;
          candidate = (case result of
                         Inl e \<Rightarrow> Inl e
                       | Inr perms \<Rightarrow>
                           if sourceAddressOk checkSource perms then Inr perms
                           else Inl (ErrText ''ssh: remote address is not allowed''))
      in ((if pk_isQuery req then
             (case candidate of Inl e \<Rightarrow> AuthFailed e | Inr _ \<Rightarrow> AuthQueryOk)
           else if \<not> pk_signatureOk req then AuthFailed (ErrText ''ssh: signature does not verify'')
           else (case candidate of
                   Inl e \<Rightarrow> AuthFailed e
                 | Inr perms \<Rightarrow>
                     if sourceAddressOk checkSource perms then AuthAccepted perms
                     else AuthFailed (ErrText ''ssh: remote address is not allowed''))), st'))"

subsection \<open>What an accepted certificate is\<close>

definition cert_valid_for :: "(certificate \<Rightarrow> bool) \<Rightarrow> gotime \<Rightarrow> string \<Rightarrow> certificate \<Rightarrow> bool" where
  "cert_valid_for verify now user cert \<longleftrightarrow>
     ct_CertType cert = UserCert
     \<and> (\<forall>opt \<in> fst ` set (pm_CriticalOptions (ct_Permissions cert)). opt = sourceAddressCriticalOption)
     \<and> (ct_ValidPrincipals cert = [] \<or> user \<in> set (ct_ValidPrincipals cert))
     \<and> 0 \<le> sint (ct_ValidAfter cert) \<and> sint (ct_ValidAfter cert) \<le> unixSeconds now
     \<and> (ct_ValidBefore cert = CertTimeInfinity \<or> unixSeconds now < sint (ct_ValidBefore cert))
     \<and> verify cert"

lemma CheckCert_ok:
  "CheckCert verify [] now user cert = Inr x \<Longrightarrow> ct_CertType cert = UserCert \<Longrightarrow>
   cert_valid_for verify now user cert"
  by (auto simp: CheckCert_def cert_valid_for_def split: if_splits)

lemma certAuthenticate_iff:
  "certAuthenticate verify isAuth now user key = Inr perms \<longleftrightarrow>
     (\<exists>cert. key = CertKey cert \<and> isAuth (ct_SignatureKey cert)
        \<and> cert_valid_for verify now user cert \<and> perms = ct_Permissions cert)"
proof -
  have "CheckCert verify [] now user cert = Inr ()" if "cert_valid_for verify now user cert" for cert
    using that by (auto simp: CheckCert_def cert_valid_for_def)
  then show ?thesis
    by (auto simp: certAuthenticate_def cert_valid_for_def dest: CheckCert_ok
        split: publicKey.splits if_splits sum.splits)
       (auto simp: CheckCert_def split: if_splits)
qed

lemma publickeyAuth_accepted:
  "publickeyAuth cb check req st = (AuthAccepted perms, st') \<Longrightarrow>
     cb (pk_key req) st = (Inr perms, st') \<and> sourceAddressOk check perms
     \<and> \<not> pk_isQuery req \<and> pk_signatureOk req"
  by (auto simp: publickeyAuth_def Let_def split: prod.splits sum.splits if_splits)

lemma publickeyAuth_state: "snd (publickeyAuth cb check req st) = snd (cb (pk_key req) st)"
  by (simp add: publickeyAuth_def Let_def split: prod.splits)

end
