(* ===== verification/Keys.thy ===== *)
theory Keys
  imports GoStrings Cert
begin

text \<open>
  The textual form of public keys, as the vendored ssh library reads and writes it
  (\<^verbatim>\<open>ParseAuthorizedKey\<close> and \<^verbatim>\<open>MarshalAuthorizedKey\<close> of
  \<^verbatim>\<open>vendor/golang.org/x/crypto/ssh/keys.go\<close>), on top of the standard base64 encoding. The
  gateway publishes its host key in this form and pins the keys of its peers from it, and
  the command line reads key files in it. The binary encoding of a key is a parameter
  (\<open>keyFormat\<close>): the name of its type, the encoding of certificates and the parser.
\<close>

section \<open>Base64\<close>

definition base64Alphabet :: string where
  "base64Alphabet = ''ABCDEFGHIJKLMNOPQRSTUVWXYZabcdefghijklmnopqrstuvwxyz0123456789+/''"

definition base64Char :: "byte \<Rightarrow> char" where
  "base64Char v = base64Alphabet ! unat (take_bit 6 v)"

definition base64Value :: "char \<Rightarrow> byte option" where
  "base64Value c = map_option of_nat (indexByte c base64Alphabet)"

fun base64Encode :: "byte list \<Rightarrow> string" where
  "base64Encode (a # b # c # rest) =
     base64Char (drop_bit 2 a) # base64Char (push_bit 4 a OR drop_bit 4 b)
     # base64Char (push_bit 2 b OR drop_bit 6 c) # base64Char c # base64Encode rest"
| "base64Encode [a, b] =
     [base64Char (drop_bit 2 a), base64Char (push_bit 4 a OR drop_bit 4 b), base64Char (push_bit 2 b), CHR ''='']"
| "base64Encode [a] = [base64Char (drop_bit 2 a), base64Char (push_bit 4 a), CHR ''='', CHR ''='']"
| "base64Encode [] = []"

text \<open>
  Quanta of four characters; padding ends the input. The two low bits the padding leaves
  over are not checked, since the standard encoding is not strict.
\<close>

fun base64Quanta :: "string \<Rightarrow> byte list option" where
  "base64Quanta [] = Some []"
| "base64Quanta (a # b # c # d # rest) =
     (case (base64Value a, base64Value b, base64Value c, base64Value d) of
        (Some v, Some w, Some x, Some y) \<Rightarrow>
          map_option (\<lambda>bs. (push_bit 2 v OR drop_bit 4 w) # (push_bit 4 w OR drop_bit 2 x) # (push_bit 6 x OR y) # bs)
            (base64Quanta rest)
      | (Some v, Some w, Some x, None) \<Rightarrow>
          if d = CHR ''='' \<and> rest = [] then Some [push_bit 2 v OR drop_bit 4 w, push_bit 4 w OR drop_bit 2 x] else None
      | (Some v, Some w, None, _) \<Rightarrow>
          if c = CHR ''='' \<and> d = CHR ''='' \<and> rest = [] then Some [push_bit 2 v OR drop_bit 4 w] else None
      | _ \<Rightarrow> None)"
| "base64Quanta _ = None"

text \<open>Line breaks inside the input are skipped.\<close>

definition base64Decode :: "string \<Rightarrow> byte list res" where
  "base64Decode s =
     (case base64Quanta (filter (\<lambda>c. c \<noteq> newline \<and> c \<noteq> carriageReturn) s) of
        None \<Rightarrow> Inl (ErrText ''illegal base64 data'')
      | Some bs \<Rightarrow> Inr bs)"

section \<open>Authorized keys\<close>

record keyFormat =
  kf_Type :: "publicKey \<Rightarrow> string"
  kf_MarshalCert :: "certificate \<Rightarrow> byte list"
  kf_Parse :: "byte list \<Rightarrow> publicKey res"

text \<open>\<^verbatim>\<open>PublicKey.Marshal\<close>; a plain key is its encoding.\<close>

definition keyMarshal :: "keyFormat \<Rightarrow> publicKey \<Rightarrow> byte list" where
  "keyMarshal fmt key = (case key of PlainKey raw \<Rightarrow> raw | CertKey cert \<Rightarrow> kf_MarshalCert fmt cert)"

definition isBlank :: "char \<Rightarrow> bool" where
  "isBlank c \<longleftrightarrow> c = CHR '' '' \<or> c = CHR 0x09"

definition MarshalAuthorizedKey :: "keyFormat \<Rightarrow> publicKey \<Rightarrow> string" where
  "MarshalAuthorizedKey fmt key = kf_Type fmt key @ CHR '' '' # base64Encode (keyMarshal fmt key) @ [newline]"

text \<open>The key and the comment, from the text after the type.\<close>

definition parseAuthorizedKey :: "keyFormat \<Rightarrow> string \<Rightarrow> (publicKey \<times> string) res" where
  "parseAuthorizedKey fmt s =
     (let t = trimSpace s; base64Key = takeWhile (\<lambda>c. \<not> isBlank c) t
      in bind_res (base64Decode base64Key) (\<lambda>key.
         bind_res (kf_Parse fmt key) (\<lambda>out.
         Inr (out, trimSpace (dropWhile (\<lambda>c. \<not> isBlank c) t)))))"

text \<open>
  The scan over a leading options field: the index at which it stops and the options.
  When no blank ends the field the index is that of the last character.
\<close>

function scanOptions :: "string \<Rightarrow> nat \<Rightarrow> bool \<Rightarrow> nat \<Rightarrow> string list \<Rightarrow> nat \<times> string list" where
  "scanOptions line i inQuote optionStart options =
     (if i < length line then
        let b = line ! i;
            isEnd = (\<not> inQuote \<and> isBlank b);
            cut = (b = CHR '','' \<and> \<not> inQuote \<or> isEnd);
            options' = (if cut \<and> i - optionStart > 0
                        then options @ [take (i - optionStart) (drop optionStart line)] else options);
            optionStart' = (if cut then i + 1 else optionStart)
        in if isEnd then (i, options')
           else scanOptions line (i + 1)
                  (if b = CHR 0x22 \<and> (i = 0 \<or> line ! (i - 1) \<noteq> CHR 0x5C) then \<not> inQuote else inQuote)
                  optionStart' options'
      else (length line - 1, options))"
  by pat_completeness auto
termination by (relation "measure (\<lambda>(line, i, _). length line - i)") auto

text \<open>
  One line: the key with comment and options; or the error that is kept, if there is one,
  and the next line is tried.
\<close>

definition authorizedLine :: "keyFormat \<Rightarrow> string \<Rightarrow> goerror option + publicKey \<times> string \<times> string list" where
  "authorizedLine fmt raw =
     (let line = trimSpace (takeWhile (\<lambda>c. c \<noteq> carriageReturn) raw)
      in if line = [] \<or> hd line = CHR ''#'' then Inl None
         else if list_all (\<lambda>c. \<not> isBlank c) line then Inl None
         else case parseAuthorizedKey fmt (dropWhile (\<lambda>c. \<not> isBlank c) line) of
                Inr (out, comment) \<Rightarrow> Inr (out, comment, [])
              | Inl e \<Rightarrow>
                  (let (i, candidateOptions) = scanOptions line 0 False 0 [];
                       rest = dropWhile isBlank (drop i line)
                   in if rest = [] then Inl (Some e)
                      else if list_all (\<lambda>c. \<not> isBlank c) rest then Inl (Some e)
                      else case parseAuthorizedKey fmt (dropWhile (\<lambda>c. \<not> isBlank c) rest) of
                             Inr (out, comment) \<Rightarrow> Inr (out, comment, candidateOptions)
                           | Inl e' \<Rightarrow> Inl (Some e')))"

text \<open>The first line of an input and what follows its newline.\<close>

definition nextLine :: "string \<Rightarrow> string \<times> string" where
  "nextLine s = (takeWhile (\<lambda>c. c \<noteq> newline) s, tl (dropWhile (\<lambda>c. c \<noteq> newline) s))"

lemma nextLine_less: "s \<noteq> [] \<Longrightarrow> length (snd (nextLine s)) < length s"
proof -
  assume "s \<noteq> []"
  then have "0 < length s" by simp
  moreover have "length (dropWhile (\<lambda>c. c \<noteq> newline) s) \<le> length s" by (rule length_dropWhile_le)
  ultimately show ?thesis unfolding nextLine_def snd_conv length_tl by linarith
qed

function authorizedLoop ::
    "keyFormat \<Rightarrow> goerror option \<Rightarrow> string \<Rightarrow> (publicKey \<times> string \<times> string list \<times> string) res" where
  "authorizedLoop fmt lastErr s =
     (if s = [] then
        (case lastErr of
           Some e \<Rightarrow> Inl (ErrText ''ssh: no key found; last parsing error for ignored line'')
         | None \<Rightarrow> Inl (ErrText ''ssh: no key found''))
      else
        case authorizedLine fmt (fst (nextLine s)) of
          Inr (out, comment, options) \<Rightarrow> Inr (out, comment, options, snd (nextLine s))
        | Inl None \<Rightarrow> authorizedLoop fmt lastErr (snd (nextLine s))
        | Inl (Some e) \<Rightarrow> authorizedLoop fmt (Some e) (snd (nextLine s)))"
  by pat_completeness auto
termination by (relation "measure (\<lambda>(_, _, s). length s)") (auto intro: nextLine_less)

declare authorizedLoop.simps [simp del] scanOptions.simps [simp del]

definition ParseAuthorizedKey :: "keyFormat \<Rightarrow> string \<Rightarrow> (publicKey \<times> string \<times> string list \<times> string) res" where
  "ParseAuthorizedKey fmt s = authorizedLoop fmt None s"

section \<open>Base64 round trip\<close>

lemma distinct_alphabet: "distinct base64Alphabet" "length base64Alphabet = 64"
  by (simp_all add: base64Alphabet_def)

lemma indexByte_distinct: "distinct s \<Longrightarrow> i < length s \<Longrightarrow> indexByte (s ! i) s = Some i"
proof (induction s arbitrary: i)
  case (Cons x s)
  then show ?case by (cases i) auto
qed simp

lemma sextet_less: "unat (take_bit 6 v :: byte) < 64"
  using take_bit_nat_less_exp [of 6 "unat v"] by (simp add: unsigned_take_bit_eq)

lemma base64Value_char: "base64Value (base64Char v) = Some (take_bit 6 v)"
  using indexByte_distinct [OF distinct_alphabet(1)] sextet_less [of v] distinct_alphabet(2)
  by (simp add: base64Value_def base64Char_def)

lemma base64Char_in: "base64Char v \<in> set base64Alphabet"
  using sextet_less [of v] distinct_alphabet(2) by (simp add: base64Char_def)

lemma base64Value_pad: "base64Value CHR ''='' = None"
  by (simp add: base64Value_def base64Alphabet_def)

lemma byte_eq_iff: "a = b \<longleftrightarrow> (\<forall>n \<in> {0, 1, 2, 3, 4, 5, 6, 7}. bit a n = bit b n)" for a b :: byte
proof
  assume same: "\<forall>n \<in> {0, 1, 2, 3, 4, 5, 6, 7}. bit a n = bit b n"
  show "a = b"
  proof (rule bit_word_eqI)
    fix n
    assume "n < LENGTH(8)"
    then have "n \<in> {0, 1, 2, 3, 4, 5, 6, 7}" by auto
    with same show "bit a n = bit b n" by blast
  qed
qed simp

lemma sextets:
  fixes a b c :: byte
  shows "push_bit 2 (take_bit 6 (drop_bit 2 a)) OR drop_bit 4 (take_bit 6 (push_bit 4 a OR drop_bit 4 b)) = a"
    and "push_bit 4 (take_bit 6 (push_bit 4 a OR drop_bit 4 b)) OR drop_bit 2 (take_bit 6 (push_bit 2 b OR drop_bit 6 c)) = b"
    and "push_bit 6 (take_bit 6 (push_bit 2 b OR drop_bit 6 c)) OR take_bit 6 c = c"
    and "push_bit 2 (take_bit 6 (drop_bit 2 a)) OR drop_bit 4 (take_bit 6 (push_bit 4 a)) = a"
    and "push_bit 4 (take_bit 6 (push_bit 4 a OR drop_bit 4 b)) OR drop_bit 2 (take_bit 6 (push_bit 2 b)) = b"
  by (simp_all add: byte_eq_iff bit_simps bit_byte_beyond numeral_2_eq_2 [symmetric])

lemma base64Quanta_encode: "base64Quanta (base64Encode bs) = Some bs"
  by (induction bs rule: base64Encode.induct)
     (simp_all add: base64Value_char base64Value_pad sextets [simplified])

lemma base64Encode_chars: "set (base64Encode bs) \<subseteq> insert CHR ''='' (set base64Alphabet)"
  by (induction bs rule: base64Encode.induct) (auto simp: base64Char_in)

lemma base64Encode_plain: "c \<in> set (base64Encode bs) \<Longrightarrow> plainChar c \<and> \<not> isBlank c"
  using base64Encode_chars [of bs] by (auto simp: base64Alphabet_def plainChar_def isBlank_def)

lemma plainChar_not_break: "plainChar c \<Longrightarrow> c \<noteq> newline \<and> c \<noteq> carriageReturn \<and> \<not> isBlank c"
  by (auto simp: plainChar_def isBlank_def)

lemma base64Encode_Nil [simp]: "base64Encode bs = [] \<longleftrightarrow> bs = []"
  by (cases bs rule: base64Encode.cases) auto

lemma base64Decode_encode: "base64Decode (base64Encode bs) = Inr bs"
proof -
  have "filter (\<lambda>c. c \<noteq> newline \<and> c \<noteq> carriageReturn) (base64Encode bs) = base64Encode bs"
    using base64Encode_plain [of _ bs] plainChar_not_break by (auto simp: filter_id_conv)
  then show ?thesis by (simp add: base64Decode_def base64Quanta_encode)
qed

section \<open>Reading back a key that was written\<close>

definition keyOk :: "keyFormat \<Rightarrow> publicKey \<Rightarrow> bool" where
  "keyOk fmt key \<longleftrightarrow>
     kf_Parse fmt (keyMarshal fmt key) = Inr key \<and> keyMarshal fmt key \<noteq> []
     \<and> kf_Type fmt key \<noteq> [] \<and> list_all plainChar (kf_Type fmt key) \<and> hd (kf_Type fmt key) \<noteq> CHR ''#''"

lemma trimSpace_leading_blank:
  assumes "s \<noteq> []" and "plainChar (hd s)" and "plainChar (last s)"
  shows "trimSpace (CHR '' '' # s) = s"
proof -
  have "find (hasPrefix (CHR '' '' # s)) spaceRunes = Some [CHR '' '']"
    by (simp add: spaceRunes_def hasPrefix_def char_of_def bit_Suc_0_iff)
  then have "dropSpaces spaceRunes (length (CHR '' '' # s)) (CHR '' '' # s) = s"
    using assms spaceRunes_not_plain by (simp add: dropSpaces_plain)
  then show ?thesis
    using assms spaceRunes_not_plain by (simp add: trimSpace_def dropSpaces_plain hd_rev)
qed

lemma trimSpace_Nil [simp]: "trimSpace [] = []"
  by (simp add: trimSpace_def)

lemma parseAuthorizedKey_encoded:
  assumes "kf_Parse fmt bs = Inr key" and "bs \<noteq> []"
  shows "parseAuthorizedKey fmt (CHR '' '' # base64Encode bs) = Inr (key, [])"
proof -
  have plain: "\<forall>c \<in> set (base64Encode bs). plainChar c \<and> \<not> isBlank c" using base64Encode_plain by blast
  have "trimSpace (CHR '' '' # base64Encode bs) = base64Encode bs"
    using plain assms(2) by (intro trimSpace_leading_blank) auto
  moreover have "takeWhile (\<lambda>c. \<not> isBlank c) (base64Encode bs) = base64Encode bs"
    "dropWhile (\<lambda>c. \<not> isBlank c) (base64Encode bs) = []"
    using plain by (simp_all add: takeWhile_eq_all_conv dropWhile_eq_Nil_conv)
  ultimately show ?thesis
    unfolding parseAuthorizedKey_def Let_def using assms(1) by (simp only: base64Decode_encode) simp
qed

lemma authorizedLine_marshalled:
  assumes "keyOk fmt key"
  shows "authorizedLine fmt (kf_Type fmt key @ CHR '' '' # base64Encode (keyMarshal fmt key)) = Inr (key, [], [])"
proof -
  let ?t = "kf_Type fmt key" and ?b = "base64Encode (keyMarshal fmt key)"
  let ?l = "?t @ CHR '' '' # ?b"
  have ok: "?t \<noteq> []" "\<forall>c \<in> set ?t. plainChar c" "hd ?t \<noteq> CHR ''#''" "?b \<noteq> []"
      "kf_Parse fmt (keyMarshal fmt key) = Inr key" "keyMarshal fmt key \<noteq> []"
    using assms by (simp_all add: keyOk_def list_all_iff)
  have cr: "takeWhile (\<lambda>c. c \<noteq> carriageReturn) ?l = ?l"
    using ok(2) base64Encode_plain plainChar_not_break by (auto simp: takeWhile_eq_all_conv)
  have trim: "trimSpace ?l = ?l"
    using ok base64Encode_plain [of "last ?b" "keyMarshal fmt key"] by (intro trimSpace_plain) auto
  have "dropWhile (\<lambda>c. \<not> isBlank c) ?l = CHR '' '' # ?b"
    using ok(2) plainChar_not_break by (subst dropWhile_append2) (auto simp: isBlank_def)
  then show ?thesis
    using ok parseAuthorizedKey_encoded [OF ok(5,6)]
    by (simp add: authorizedLine_def cr trim Let_def isBlank_def)
qed

lemma nextLine_append: "newline \<notin> set l \<Longrightarrow> nextLine (l @ newline # rest) = (l, rest)"
  by (induction l) (auto simp: nextLine_def)

lemma nextLine_marshalled:
  assumes "keyOk fmt key"
  shows "nextLine (MarshalAuthorizedKey fmt key @ rest) =
    (kf_Type fmt key @ CHR '' '' # base64Encode (keyMarshal fmt key), rest)"
proof -
  let ?l = "kf_Type fmt key @ CHR '' '' # base64Encode (keyMarshal fmt key)"
  have "newline \<notin> set ?l"
    using assms base64Encode_plain plainChar_not_break by (auto simp: keyOk_def list_all_iff)
  then show ?thesis
    using nextLine_append [of ?l rest] by (simp add: MarshalAuthorizedKey_def)
qed

lemma ParseAuthorizedKey_marshalled:
  assumes "keyOk fmt key"
  shows "ParseAuthorizedKey fmt (MarshalAuthorizedKey fmt key @ rest) = Inr (key, [], [], rest)"
proof -
  have "MarshalAuthorizedKey fmt key @ rest \<noteq> []" by (simp add: MarshalAuthorizedKey_def)
  then show ?thesis
    using nextLine_marshalled [OF assms, of rest] authorizedLine_marshalled [OF assms]
    by (simp add: ParseAuthorizedKey_def authorizedLoop.simps)
qed

text \<open>A key format with one kind of key.\<close>

definition sample_keyFormat :: keyFormat where
  "sample_keyFormat = \<lparr>kf_Type = (\<lambda>_. ''ssh-ed25519''), kf_MarshalCert = (\<lambda>_. []), kf_Parse = (\<lambda>bs. Inr (PlainKey bs))\<rparr>"

lemma sample_key_ok: "bs \<noteq> [] \<Longrightarrow> keyOk sample_keyFormat (PlainKey bs)"
  by (simp add: keyOk_def sample_keyFormat_def keyMarshal_def plainChar_def)

end
