(* ===== verification/Flags.thy ===== *)
theory Flags
  imports Keys
begin

text \<open>
  \<^verbatim>\<open>cli/flags.go\<close>: what the command line makes of its flags, which is mostly the reading of
  key files. Files, private keys and durations are read by the environment. The loop over
  the keys of a file is written as the code has it, with None for a loop that does not
  end, and is proved to end.
\<close>

type_synonym 'a run = "'a res option"

definition bind_run :: "'a run \<Rightarrow> ('a \<Rightarrow> 'b run) \<Rightarrow> 'b run" where
  "bind_run r f = (case r of None \<Rightarrow> None | Some (Inl e) \<Rightarrow> Some (Inl e) | Some (Inr x) \<Rightarrow> f x)"

lemma bind_run_simps [simp]:
  "bind_run None f = None" "bind_run (Some (Inl e)) f = Some (Inl e)" "bind_run (Some (Inr x)) f = f x"
  by (simp_all add: bind_run_def)

lemma bind_run_Inr: "bind_run r f = Some (Inr y) \<longleftrightarrow> (\<exists>x. r = Some (Inr x) \<and> f x = Some (Inr y))"
  by (auto simp: bind_run_def split: option.splits sum.splits)

lemma bind_run_returns: "r \<noteq> None \<Longrightarrow> (\<And>x. r = Some (Inr x) \<Longrightarrow> f x \<noteq> None) \<Longrightarrow> bind_run r f \<noteq> None"
  by (auto simp: bind_run_def split: option.splits sum.splits)

record command =
  co_String :: "string \<Rightarrow> string"
  co_Uint :: "string \<Rightarrow> u64"
  co_Version :: string

section \<open>The flags\<close>

text \<open>
  The flags with their defaults; the text of the help is left out. A flag that is not given
  has its default, as the command line library documents; the values that were given are a
  map.
\<close>

datatype flagValue = StringFlag string | UintFlag u64

definition cliFlags :: "(string \<times> flagValue) list" where
  "cliFlags =
    [(''log-level'', StringFlag ''DEBUG''),
     (''log-format'', StringFlag ''%{color}%{time:2006-01-02T15:04:05.000-07:00} [%{level:.4s}] [%{shortfile} %{shortfunc}] %{message}%{color:reset}''),
     (''listen-debug'', StringFlag ''127.0.0.1:6080''),
     (''listen-ssh'', StringFlag '':2020''),
     (''listen-http'', StringFlag ''127.0.0.1:2080''),
     (''listen-socks'', StringFlag []),
     (''listen-http-proxy'', StringFlag []),
     (''ca-public-key'', StringFlag ''id_rsa.ca.pub''),
     (''host-public-key'', StringFlag ''id_rsa.pub''),
     (''host-private-key'', StringFlag ''id_rsa''),
     (''server-version'', StringFlag ''SSH-2.0-gatewaysshd''),
     (''idle-timeout'', StringFlag ''600s''),
     (''geoip-database'', StringFlag ''geoip.mmdb''),
     (''postgres-host'', StringFlag ''127.0.0.1''),
     (''postgres-port'', UintFlag 5432),
     (''postgres-user'', StringFlag ''gatewaysshd''),
     (''postgres-password'', StringFlag ''gatewaysshd''),
     (''postgres-password-file'', StringFlag []),
     (''postgres-dbname'', StringFlag ''gatewaysshd''),
     (''postgres-sslmode'', StringFlag ''disable''),
     (''postgres-peer'', StringFlag []),
     (''postgres-peer-host-public-key'', StringFlag []),
     (''node-id'', StringFlag []),
     (''node-address'', StringFlag []),
     (''node-certificate'', StringFlag []),
     (''peer-ca-public-key'', StringFlag [])]"

definition flagValueOf :: "(string, flagValue) gomap \<Rightarrow> string \<Rightarrow> flagValue option" where
  "flagValueOf given name = (case mget given name of Some v \<Rightarrow> Some v | None \<Rightarrow> map_of cliFlags name)"

definition newCommand :: "string \<Rightarrow> string \<Rightarrow> (string, flagValue) gomap \<Rightarrow> command" where
  "newCommand version commit given =
     \<lparr>co_String = (\<lambda>name. case flagValueOf given name of Some (StringFlag v) \<Rightarrow> v | _ \<Rightarrow> []),
      co_Uint = (\<lambda>name. case flagValueOf given name of Some (UintFlag v) \<Rightarrow> v | _ \<Rightarrow> 0),
      co_Version = version @ CHR ''.'' # commit\<rparr>"

record cliEnv =
  en_ReadFile :: "string \<Rightarrow> string res"
  en_ParsePrivateKey :: "string \<Rightarrow> signer res"
  en_ParseDuration :: "string \<Rightarrow> duration res"
  en_format :: keyFormat

section \<open>Key files\<close>

partial_function (option) publicKeysLoop :: "keyFormat \<Rightarrow> string \<Rightarrow> publicKey list \<Rightarrow> publicKey list run" where
  "publicKeysLoop fmt raw publicKeys =
     (if raw = [] then Some (Inr publicKeys)
      else case ParseAuthorizedKey fmt raw of
             Inl e \<Rightarrow> Some (Inl e)
           | Inr (publicKey, comment, options, rest) \<Rightarrow> publicKeysLoop fmt rest (publicKeys @ [publicKey]))"

definition parsePublicKeys :: "cliEnv \<Rightarrow> string \<Rightarrow> publicKey list run" where
  "parsePublicKeys env path =
     bind_run (Some (en_ReadFile env path)) (\<lambda>raw. publicKeysLoop (en_format env) raw [])"

definition parseNodeSigner :: "cliEnv \<Rightarrow> command \<Rightarrow> signer option res" where
  "parseNodeSigner env cmd =
     (let certificatePath = co_String cmd ''node-certificate''
      in if certificatePath = [] then Inr None
         else
           bind_res (en_ReadFile env (co_String cmd ''host-private-key'')) (\<lambda>hostPrivateKeyRaw.
           bind_res (en_ParsePrivateKey env hostPrivateKeyRaw) (\<lambda>hostPrivateKey.
           bind_res (en_ReadFile env certificatePath) (\<lambda>certificateRaw.
           bind_res (ParseAuthorizedKey (en_format env) certificateRaw) (\<lambda>(certificatePublicKey, _).
             case certificatePublicKey of
               PlainKey _ \<Rightarrow> Inl (ErrText ''cli: node certificate file does not contain a certificate'')
             | CertKey certificate \<Rightarrow> bind_res (NewCertSigner certificate hostPrivateKey) (\<lambda>s. Inr (Some s)))))))"

definition parseCaPublicKeys :: "cliEnv \<Rightarrow> command \<Rightarrow> publicKey list run" where
  "parseCaPublicKeys env cmd = parsePublicKeys env (co_String cmd ''ca-public-key'')"

definition parseHostSigner :: "cliEnv \<Rightarrow> command \<Rightarrow> signer res" where
  "parseHostSigner env cmd =
     bind_res (en_ReadFile env (co_String cmd ''host-private-key'')) (\<lambda>hostPrivateKeyRaw.
     bind_res (en_ParsePrivateKey env hostPrivateKeyRaw) (\<lambda>hostPrivateKey.
     bind_res (en_ReadFile env (co_String cmd ''host-public-key'')) (\<lambda>hostPublicKeyRaw.
     bind_res (ParseAuthorizedKey (en_format env) hostPublicKeyRaw) (\<lambda>(hostPublicKey, _).
       case hostPublicKey of
         CertKey hostCertificate \<Rightarrow> NewCertSigner hostCertificate hostPrivateKey
       | PlainKey _ \<Rightarrow> Inr hostPrivateKey))))"

definition parseIdleTimeout :: "cliEnv \<Rightarrow> command \<Rightarrow> duration res" where
  "parseIdleTimeout env cmd = en_ParseDuration env (co_String cmd ''idle-timeout'')"

definition parsePostgresPassword :: "cliEnv \<Rightarrow> command \<Rightarrow> string res" where
  "parsePostgresPassword env cmd =
     (let path = co_String cmd ''postgres-password-file''
      in if path = [] then Inr (co_String cmd ''postgres-password'')
         else bind_res (en_ReadFile env path) (\<lambda>raw. Inr (trimRight raw [CHR 0x0D, CHR 0x0A])))"

section \<open>What a key file contains\<close>

function fileLines :: "string \<Rightarrow> string list" where
  "fileLines s = (if s = [] then [] else fst (nextLine s) # fileLines (snd (nextLine s)))"
  by pat_completeness auto
termination by (relation "measure length") (auto intro: nextLine_less)

declare fileLines.simps [simp del]

definition lineKey :: "keyFormat \<Rightarrow> string \<Rightarrow> publicKey option" where
  "lineKey fmt line = (case authorizedLine fmt line of Inl _ \<Rightarrow> None | Inr (key, _) \<Rightarrow> Some key)"

lemma fileLines_empty [simp]: "fileLines [] = []"
  by (simp add: fileLines.simps)

lemma fileLines_Nil [simp]: "fileLines s = [] \<longleftrightarrow> s = []"
  by (subst fileLines.simps) simp

lemma authorizedLoop_lines:
  "case authorizedLoop fmt lastErr s of
     Inl e \<Rightarrow> \<forall>l \<in> set (fileLines s). lineKey fmt l = None
   | Inr (key, _, _, rest) \<Rightarrow>
       length rest < length s
       \<and> (\<exists>pre l. fileLines s = pre @ l # fileLines rest \<and> lineKey fmt l = Some key \<and> (\<forall>l \<in> set pre. lineKey fmt l = None))"
proof (induction fmt lastErr s rule: authorizedLoop.induct)
  case (1 fmt lastErr s)
  show ?case
  proof (cases "s = []")
    case True
    then show ?thesis by (simp add: authorizedLoop.simps split: option.splits)
  next
    case False
    let ?l = "fst (nextLine s)" and ?r = "snd (nextLine s)"
    have lines: "fileLines s = ?l # fileLines ?r" using False by (subst fileLines.simps) simp
    have less: "length ?r < length s" using False by (rule nextLine_less)
    show ?thesis
    proof (cases "authorizedLine fmt ?l")
      case (Inr found)
      moreover obtain key comment options where "found = (key, comment, options)" by (cases found)
      ultimately show ?thesis
        using False less lines by (auto simp: authorizedLoop.simps [of fmt lastErr s] lineKey_def)
    next
      case (Inl e)
      define e' where "e' = (case e of None \<Rightarrow> lastErr | Some x \<Rightarrow> Some x)"
      have "authorizedLoop fmt lastErr s = authorizedLoop fmt e' ?r"
        using False Inl by (simp add: authorizedLoop.simps [of fmt lastErr s] e'_def split: option.splits)
      moreover have "case authorizedLoop fmt e' ?r of
          Inl e \<Rightarrow> \<forall>l \<in> set (fileLines ?r). lineKey fmt l = None
        | Inr (key, _, _, rest) \<Rightarrow>
            length rest < length ?r
            \<and> (\<exists>pre l. fileLines ?r = pre @ l # fileLines rest \<and> lineKey fmt l = Some key \<and> (\<forall>l \<in> set pre. lineKey fmt l = None))"
        using 1 [OF False] Inl unfolding e'_def by (cases e) auto
      moreover have "lineKey fmt ?l = None" using Inl by (simp add: lineKey_def)
      ultimately show ?thesis
        using less lines by (auto split: sum.splits intro: exI [of _ "?l # _"])
    qed
  qed
qed

lemma publicKeysLoop_result:
  "\<exists>e. publicKeysLoop fmt raw keys =
     Some (if raw = [] \<or> lineKey fmt (last (fileLines raw)) \<noteq> None
           then Inr (keys @ List.map_filter (lineKey fmt) (fileLines raw)) else Inl e)"
proof (induction "length raw" arbitrary: raw keys rule: less_induct)
  case less
  show ?case
  proof (cases "raw = []")
    case True
    then show ?thesis by (simp add: publicKeysLoop.simps List.map_filter_simps)
  next
    case False
    note loop = authorizedLoop_lines [where fmt = fmt and lastErr = None and s = raw, folded ParseAuthorizedKey_def]
    show ?thesis
    proof (cases "ParseAuthorizedKey fmt raw")
      case (Inl e)
      with loop False have "lineKey fmt (last (fileLines raw)) = None" by auto
      with Inl False show ?thesis by (simp add: publicKeysLoop.simps)
    next
      case (Inr found)
      obtain key comment options rest where found: "found = (key, comment, options, rest)" by (metis prod_cases4)
      from loop Inr found obtain pre l where
          shorter: "length rest < length raw" and lines: "fileLines raw = pre @ l # fileLines rest"
          and key: "lineKey fmt l = Some key" and pre: "\<forall>l \<in> set pre. lineKey fmt l = None" by auto
      have filtered: "List.map_filter (lineKey fmt) (fileLines raw) = key # List.map_filter (lineKey fmt) (fileLines rest)"
        using key pre by (auto simp: lines List.map_filter_def filter_empty_conv)
      have ending: "lineKey fmt (last (fileLines raw)) \<noteq> None \<longleftrightarrow> rest = [] \<or> lineKey fmt (last (fileLines rest)) \<noteq> None"
        using key by (auto simp: lines)
      have "publicKeysLoop fmt raw keys = publicKeysLoop fmt rest (keys @ [key])"
        using False Inr found by (subst publicKeysLoop.simps) simp
      with less.hyps [OF shorter, of "keys @ [key]"] False ending filtered show ?thesis by auto
    qed
  qed
qed


lemma parsePublicKeys_returns: "\<exists>r. parsePublicKeys env path = Some r"
proof (cases "en_ReadFile env path")
  case (Inr raw)
  then show ?thesis using publicKeysLoop_result [of "en_format env" raw "[]"] by (auto simp: parsePublicKeys_def)
qed (simp add: parsePublicKeys_def)

text \<open>A file with one key, written by the library, and the same file with a blank line at its end.\<close>

definition sample_cliEnv :: cliEnv where
  "sample_cliEnv = \<lparr>en_ReadFile = (\<lambda>path. Inr (MarshalAuthorizedKey sample_keyFormat (PlainKey [1, 2]) @
        (if path = ''ca.pub'' then [] else [newline]))),
     en_ParsePrivateKey = (\<lambda>_. Inr \<lparr>sg_key = [1], sg_certificate = None\<rparr>),
     en_ParseDuration = (\<lambda>_. Inr 600), en_format = sample_keyFormat\<rparr>"

lemma fileLines_marshalled:
  assumes "keyOk fmt key"
  shows "fileLines (MarshalAuthorizedKey fmt key @ rest) =
      (kf_Type fmt key @ CHR '' '' # base64Encode (keyMarshal fmt key)) # fileLines rest"
    and "lineKey fmt (kf_Type fmt key @ CHR '' '' # base64Encode (keyMarshal fmt key)) = Some key"
proof -
  show "fileLines (MarshalAuthorizedKey fmt key @ rest) =
      (kf_Type fmt key @ CHR '' '' # base64Encode (keyMarshal fmt key)) # fileLines rest"
    using nextLine_marshalled [OF assms, of rest]
    by (subst fileLines.simps) (simp add: MarshalAuthorizedKey_def)
qed (simp add: lineKey_def authorizedLine_marshalled [OF assms])


end
