(* ===== verification/Wire.thy ===== *)
theory Wire
  imports GoStrings
begin

text \<open>
  The SSH wire format of the program's messages: the part of
  \<^verbatim>\<open>vendor/golang.org/x/crypto/ssh/messages.go\<close> that \<^verbatim>\<open>ssh.Marshal\<close> and
  \<^verbatim>\<open>ssh.Unmarshal\<close> use for the field kinds the gateway sends (booleans, 8, 32 and 64 bit
  unsigned integers, strings, byte slices and the trailing \<^verbatim>\<open>ssh:"rest"\<close> slice), and on top
  of it the request types of \<^verbatim>\<open>gateway/utils.go\<close> with their port checks.

  A struct type is the list of its field kinds, a struct value the list of its field
  values; the reflection loop over the fields is recursion on these lists.
\<close>

section \<open>Parsing and writing fields\<close>

datatype field_kind = KBool | KUint8 | KUint32 | KUint64 | KString | KBytes | KRest

datatype field_value =
    VBool bool | VUint8 byte | VUint32 u32 | VUint64 u64 | VString string
  | VBytes "byte list" | VRest "byte list"

fun parseUint32 :: "byte list \<Rightarrow> (u32 \<times> byte list) option" where
  "parseUint32 (a # b # c # d # rest) = Some (getU32 a b c d, rest)"
| "parseUint32 _ = None"

fun parseUint64 :: "byte list \<Rightarrow> (u64 \<times> byte list) option" where
  "parseUint64 (a # b # c # d # e # f # g # h # rest) =
     Some (getU64 (getU32 a b c d) (getU32 e f g h), rest)"
| "parseUint64 _ = None"

text \<open>The length of the rest is compared as a 32-bit number, as in the source.\<close>

definition parseString :: "byte list \<Rightarrow> (byte list \<times> byte list) option" where
  "parseString bs =
     (case parseUint32 bs of
        None \<Rightarrow> None
      | Some (n, rest) \<Rightarrow>
          if (of_nat (length rest) :: u32) < n then None
          else Some (take (unat n) rest, drop (unat n) rest))"

definition appendInt :: "byte list \<Rightarrow> nat \<Rightarrow> byte list" where
  "appendInt buf n = buf @ putU32 (of_nat n)"

fun unmarshalField :: "field_kind \<Rightarrow> byte list \<Rightarrow> goerror + (field_value \<times> byte list)" where
  "unmarshalField KBool data =
     (case data of [] \<Rightarrow> Inl ErrShortRead | b # r \<Rightarrow> Inr (VBool (b \<noteq> 0), r))"
| "unmarshalField KUint64 data =
     (case parseUint64 data of None \<Rightarrow> Inl ErrShortRead | Some (n, r) \<Rightarrow> Inr (VUint64 n, r))"
| "unmarshalField KUint32 data =
     (case parseUint32 data of None \<Rightarrow> Inl ErrShortRead | Some (n, r) \<Rightarrow> Inr (VUint32 n, r))"
| "unmarshalField KUint8 data =
     (case data of [] \<Rightarrow> Inl ErrShortRead | b # r \<Rightarrow> Inr (VUint8 b, r))"
| "unmarshalField KString data =
     (case parseString data of
        None \<Rightarrow> Inl (ErrText ''ssh: unmarshal error for field'')
      | Some (s, r) \<Rightarrow> Inr (VString (string_of s), r))"
| "unmarshalField KRest data = Inr (VRest data, [])"
| "unmarshalField KBytes data =
     (case parseString data of None \<Rightarrow> Inl ErrShortRead | Some (s, r) \<Rightarrow> Inr (VBytes s, r))"

fun unmarshalFields :: "field_kind list \<Rightarrow> byte list \<Rightarrow> goerror + (field_value list \<times> byte list)" where
  "unmarshalFields [] data = Inr ([], data)"
| "unmarshalFields (k # ks) data =
     (case unmarshalField k data of
        Inl e \<Rightarrow> Inl e
      | Inr (v, r) \<Rightarrow>
          (case unmarshalFields ks r of Inl e \<Rightarrow> Inl e | Inr (vs, r') \<Rightarrow> Inr (v # vs, r')))"

text \<open>
  \<^verbatim>\<open>Unmarshal\<close>: empty data is refused, a tagged struct must start with one of its message
  numbers, and no byte may be left after the last field.
\<close>

definition Unmarshal :: "byte list \<Rightarrow> field_kind list \<Rightarrow> byte list \<Rightarrow> goerror + field_value list" where
  "Unmarshal tags kinds data =
     (if data = [] then Inl (ErrText ''ssh: parse error in message'')
      else if tags \<noteq> [] \<and> \<not> (\<exists>e \<in> set tags. e > 0 \<and> hd data = e)
        then Inl (ErrText ''ssh: unexpected message type'')
      else
        (case unmarshalFields kinds (if tags \<noteq> [] then tl data else data) of
           Inl e \<Rightarrow> Inl e
         | Inr (vs, rest) \<Rightarrow>
             if rest \<noteq> [] then Inl (ErrText ''ssh: parse error in message'') else Inr vs))"

lemma unmarshalFields_error:
  "unmarshalFields ks data = Inl e \<Longrightarrow> e = ErrShortRead \<or> (\<exists>m. e = ErrText m)"
proof (induction ks arbitrary: data e)
  case (Cons k ks)
  have "unmarshalField k data = Inl e \<Longrightarrow> e = ErrShortRead \<or> (\<exists>m. e = ErrText m)"
    by (cases k) (auto split: list.splits option.splits prod.splits)
  with Cons show ?case by (auto split: sum.splits prod.splits)
qed simp

lemma Unmarshal_error: "Unmarshal tags ks data = Inl e \<Longrightarrow> e = ErrShortRead \<or> (\<exists>m. e = ErrText m)"
  by (auto simp: Unmarshal_def dest: unmarshalFields_error split: if_splits sum.splits prod.splits)

fun marshalField :: "byte list \<Rightarrow> field_value \<Rightarrow> byte list" where
  "marshalField out (VBool b) = out @ [if b then 1 else 0]"
| "marshalField out (VUint32 n) = out @ putU32 n"
| "marshalField out (VUint64 n) = out @ putU64 n"
| "marshalField out (VUint8 b) = out @ [b]"
| "marshalField out (VString s) = appendInt out (length s) @ bytes_of s"
| "marshalField out (VBytes s) = appendInt out (length s) @ s"
| "marshalField out (VRest s) = out @ s"

definition marshalStruct :: "byte list \<Rightarrow> byte list \<Rightarrow> field_value list \<Rightarrow> byte list" where
  "marshalStruct out tags vs =
     foldl marshalField (case tags of [] \<Rightarrow> out | t # _ \<Rightarrow> out @ [t]) vs"

definition Marshal :: "byte list \<Rightarrow> field_value list \<Rightarrow> byte list" where
  "Marshal tags vs = marshalStruct [] tags vs"

subsection \<open>The round trip\<close>

fun kind_of :: "field_value \<Rightarrow> field_kind" where
  "kind_of (VBool _) = KBool"
| "kind_of (VUint8 _) = KUint8"
| "kind_of (VUint32 _) = KUint32"
| "kind_of (VUint64 _) = KUint64"
| "kind_of (VString _) = KString"
| "kind_of (VBytes _) = KBytes"
| "kind_of (VRest _) = KRest"

text \<open>A value fits when its length prefix does and the parser's truncated length comparison
  cannot be fooled: everything after the prefix is shorter than \<open>2 ^ 32\<close> bytes.\<close>

definition encodeField :: "field_value \<Rightarrow> byte list" where
  "encodeField v = marshalField [] v"

fun rest_last :: "field_kind list \<Rightarrow> bool" where
  "rest_last [] = True"
| "rest_last [k] = True"
| "rest_last (k # ks) = (k \<noteq> KRest \<and> rest_last ks)"

lemma marshalField_append: "marshalField out v = out @ encodeField v"
  by (cases v) (simp_all add: encodeField_def appendInt_def)

lemma foldl_marshalField: "foldl marshalField out vs = out @ concat (map encodeField vs)"
  by (induction vs arbitrary: out) (simp_all add: marshalField_append)

lemma Marshal_untagged: "Marshal [] vs = concat (map encodeField vs)"
  by (simp add: Marshal_def marshalStruct_def foldl_marshalField)

lemma parseUint32_put [simp]: "parseUint32 (putU32 n @ rest) = Some (n, rest)"
  by (simp add: putU32_def getU32_put)

lemma parseUint64_put [simp]: "parseUint64 (putU64 n @ rest) = Some (n, rest)"
  by (simp add: putU64_def putU32_def getU32_put [unfolded putU32_def] getU64_put)

lemma parseString_put:
  assumes "length s + length rest < 2 ^ 32"
  shows "parseString (putU32 (of_nat (length s)) @ s @ rest) = Some (s, rest)"
proof -
  have "unat (of_nat (length s) :: u32) = length s"
    using assms by (simp add: unat_of_nat)
  moreover have "\<not> (of_nat (length s + length rest) :: u32) < of_nat (length s)"
    using assms by (simp add: word_less_nat_alt unat_of_nat del: of_nat_add)
  ultimately show ?thesis
    by (simp add: parseString_def)
qed

lemma unmarshalField_encode:
  assumes "length (encodeField v) + length rest < 2 ^ 32" and "kind_of v = KRest \<Longrightarrow> rest = []"
  shows "unmarshalField (kind_of v) (encodeField v @ rest) = Inr (v, rest)"
proof (cases v)
  case (VString s)
  have "length (bytes_of s) + length rest < 2 ^ 32"
    using assms(1) by (simp add: VString encodeField_def appendInt_def bytes_simps)
  from parseString_put [OF this] show ?thesis
    by (simp add: VString encodeField_def appendInt_def bytes_simps)
next
  case (VBytes s)
  have "length s + length rest < 2 ^ 32"
    using assms(1) by (simp add: VBytes encodeField_def appendInt_def bytes_simps)
  from parseString_put [OF this] show ?thesis
    by (simp add: VBytes encodeField_def appendInt_def)
qed (use assms(2) in \<open>auto simp: encodeField_def\<close>)

lemma unmarshalFields_encode:
  assumes "length (concat (map encodeField vs)) < 2 ^ 32" and "rest_last (map kind_of vs)"
  shows "unmarshalFields (map kind_of vs) (concat (map encodeField vs)) = Inr (vs, [])"
  using assms
proof (induction vs)
  case Nil
  then show ?case by simp
next
  case (Cons v vs)
  let ?r = "concat (map encodeField vs)"
  have "unmarshalField (kind_of v) (encodeField v @ ?r) = Inr (v, ?r)"
  proof (rule unmarshalField_encode)
    show "length (encodeField v) + length ?r < 2 ^ 32"
      using Cons.prems(1) by (simp add: length_concat)
    show "kind_of v = KRest \<Longrightarrow> ?r = []"
      using Cons.prems(2) by (cases vs) auto
  qed
  moreover have "rest_last (map kind_of vs)"
    using Cons.prems(2) by (cases vs) auto
  ultimately show ?case
    using Cons by simp
qed

lemma Unmarshal_Marshal:
  assumes "length (Marshal [] vs) < 2 ^ 32" and "rest_last (map kind_of vs)" and "Marshal [] vs \<noteq> []"
  shows "Unmarshal [] (map kind_of vs) (Marshal [] vs) = Inr vs"
  using unmarshalFields_encode [of vs] assms
  by (simp add: Unmarshal_def Marshal_untagged)

section \<open>Forward requests and tunnel data\<close>

record forwardRequest =
  fr_Host :: string
  fr_Port :: u32

definition forwardRequestKinds :: "field_kind list" where
  "forwardRequestKinds = [KString, KUint32]"

definition unmarshalForwardRequest :: "byte list \<Rightarrow> forwardRequest res" where
  "unmarshalForwardRequest payload =
     (case Unmarshal [] forwardRequestKinds payload of
        Inl e \<Rightarrow> Inl e
      | Inr [VString host, VUint32 port] \<Rightarrow>
          if port > 65535 then Inl ErrInvalidForwardRequest
          else Inr \<lparr>fr_Host = host, fr_Port = port\<rparr>
      | Inr _ \<Rightarrow> Inl (ErrText ''ssh: unmarshal error for field''))"

record tunnelData =
  td_Host :: string
  td_Port :: u32
  td_OriginAddress :: string
  td_OriginPort :: u32

definition tunnelDataKinds :: "field_kind list" where
  "tunnelDataKinds = [KString, KUint32, KString, KUint32]"

definition unmarshalTunnelData :: "byte list \<Rightarrow> tunnelData res" where
  "unmarshalTunnelData payload =
     (case Unmarshal [] tunnelDataKinds payload of
        Inl e \<Rightarrow> Inl e
      | Inr [VString host, VUint32 port, VString oaddr, VUint32 oport] \<Rightarrow>
          if port > 65535 then Inl ErrInvalidTunnelData
          else if oport > 65535 then Inl ErrInvalidTunnelData
          else Inr \<lparr>td_Host = host, td_Port = port,
                    td_OriginAddress = oaddr, td_OriginPort = oport\<rparr>
      | Inr _ \<Rightarrow> Inl (ErrText ''ssh: unmarshal error for field''))"

definition marshalTunnelData :: "tunnelData \<Rightarrow> byte list" where
  "marshalTunnelData d =
     Marshal [] [VString (td_Host d), VUint32 (td_Port d),
                 VString (td_OriginAddress d), VUint32 (td_OriginPort d)]"

definition marshalForwardRequest :: "forwardRequest \<Rightarrow> byte list" where
  "marshalForwardRequest r = Marshal [] [VString (fr_Host r), VUint32 (fr_Port r)]"

subsection \<open>Decoding is canonical\<close>

lemma unmarshalField_kind: "unmarshalField k data = Inr (v, r) \<Longrightarrow> kind_of v = k"
  by (cases k) (auto split: list.splits option.splits)

lemma unmarshalFields_kinds: "unmarshalFields ks data = Inr (vs, r) \<Longrightarrow> map kind_of vs = ks"
  by (induction ks arbitrary: data vs)
     (auto split: sum.splits prod.splits dest: unmarshalField_kind)

lemma Unmarshal_kinds: "Unmarshal tags ks data = Inr vs \<Longrightarrow> map kind_of vs = ks"
  by (auto simp: Unmarshal_def split: if_splits sum.splits dest: unmarshalFields_kinds)

lemma parseUint32_inv: "parseUint32 bs = Some (n, r) \<Longrightarrow> bs = putU32 n @ r"
  by (cases bs rule: parseUint32.cases) (auto simp: putU32_get)

lemma parseUint64_inv: "parseUint64 bs = Some (n, r) \<Longrightarrow> bs = putU64 n @ r"
proof (cases bs rule: parseUint64.cases)
  case (1 a b c d e f g h rest)
  have "ucast (drop_bit 32 (getU64 hi lo)) = hi" and "ucast (getU64 hi lo) = lo" for hi lo
    using bit_imp_le_length [of lo] by (force simp: getU64_def bit_simps intro!: bit_word_eqI)+
  then show "parseUint64 bs = Some (n, r) \<Longrightarrow> bs = putU64 n @ r"
    using 1 by (auto simp: putU64_def putU32_get)
qed auto

lemma parseString_inv:
  assumes "parseString bs = Some (s, r)" and "length bs < 2 ^ 32"
  shows "bs = putU32 (of_nat (length s)) @ s @ r"
proof -
  from assms(1) obtain n rest where p: "parseUint32 bs = Some (n, rest)"
    and n: "\<not> (of_nat (length rest) :: u32) < n"
    and s: "s = take (unat n) rest" and r: "r = drop (unat n) rest"
    by (auto simp: parseString_def split: option.splits if_splits)
  from parseUint32_inv [OF p] have bs: "bs = putU32 n @ rest" .
  then have "length rest < 2 ^ 32" using assms(2) by simp
  then have "unat n \<le> length rest"
    using n by (simp add: word_less_nat_alt unat_of_nat not_less)
  then have "length s = unat n" using s by simp
  then show ?thesis using bs s r by simp
qed

lemma unmarshalField_inv:
  assumes "unmarshalField k data = Inr (v, r)" and "length data < 2 ^ 32" and "k \<noteq> KBool"
  shows "data = encodeField v @ r"
  using assms
  by (cases k)
     (auto simp: encodeField_def appendInt_def bytes_simps split: list.splits option.splits
       dest!: parseUint32_inv parseUint64_inv parseString_inv)

lemma unmarshalFields_inv:
  assumes "unmarshalFields ks data = Inr (vs, r)" and "length data < 2 ^ 32" and "KBool \<notin> set ks"
  shows "data = concat (map encodeField vs) @ r"
  using assms
proof (induction ks arbitrary: data vs)
  case Nil
  then show ?case by simp
next
  case (Cons k ks)
  from Cons.prems(1) obtain v d' vs' where v: "unmarshalField k data = Inr (v, d')"
    and vs': "unmarshalFields ks d' = Inr (vs', r)" and vs: "vs = v # vs'"
    by (auto split: sum.splits)
  have d: "data = encodeField v @ d'"
    using unmarshalField_inv [OF v] Cons.prems(2,3) by auto
  then have "length d' < 2 ^ 32" using Cons.prems(2) by simp
  from Cons.IH [OF vs' this] Cons.prems(3) d vs show ?case by simp
qed

lemma Unmarshal_inv:
  assumes "Unmarshal [] ks data = Inr vs" and "length data < 2 ^ 32" and "KBool \<notin> set ks"
  shows "data = Marshal [] vs"
  using assms unmarshalFields_inv [of ks data vs "[]"]
  by (auto simp: Unmarshal_def Marshal_untagged split: if_splits sum.splits)

subsection \<open>The payload interface\<close>

text \<open>
  What the tunnelling code relies on when it sends a payload to another party and when it
  decodes one it was sent: encoding an admissible value and decoding it gives the value
  back, and a payload that decodes is the encoding of an admissible value.
\<close>

locale payload_codec =
  fixes enc :: "'a \<Rightarrow> byte list"
    and dec :: "byte list \<Rightarrow> 'a res"
    and admissible :: "'a \<Rightarrow> bool"
  assumes dec_enc: "admissible x \<Longrightarrow> length (enc x) < 2 ^ 32 \<Longrightarrow> dec (enc x) = Inr x"
    and dec_admissible: "dec p = Inr x \<Longrightarrow> admissible x"
    and enc_dec: "dec p = Inr x \<Longrightarrow> length p < 2 ^ 32 \<Longrightarrow> enc x = p"
begin

lemma enc_inj:
  assumes "admissible x" "admissible y" "length (enc x) < 2 ^ 32" "enc x = enc y"
  shows "x = y"
  using dec_enc [OF assms(1,3)] dec_enc [of y] assms by simp

lemma dec_inj:
  "dec p = Inr x \<Longrightarrow> dec q = Inr x \<Longrightarrow> length p < 2 ^ 32 \<Longrightarrow> length q < 2 ^ 32 \<Longrightarrow> p = q"
  using enc_dec by metis

text \<open>A value survives any number of hops that decode it and encode it again.\<close>

lemma reencode: "dec p = Inr x \<Longrightarrow> length p < 2 ^ 32 \<Longrightarrow> dec (enc x) = Inr x"
  by (simp add: enc_dec)

end

definition tunnelDataAdmissible :: "tunnelData \<Rightarrow> bool" where
  "tunnelDataAdmissible d \<longleftrightarrow> td_Port d \<le> 65535 \<and> td_OriginPort d \<le> 65535"

definition forwardRequestAdmissible :: "forwardRequest \<Rightarrow> bool" where
  "forwardRequestAdmissible r \<longleftrightarrow> fr_Port r \<le> 65535"

lemma Marshal_nonempty: "vs \<noteq> [] \<Longrightarrow> hd vs = VString s \<Longrightarrow> Marshal [] vs \<noteq> []"
  by (cases vs) (simp_all add: Marshal_untagged encodeField_def appendInt_def putU32_def)

lemma unmarshalTunnelData_cases:
  "unmarshalTunnelData p = Inr d \<longleftrightarrow>
     Unmarshal [] tunnelDataKinds p =
       Inr [VString (td_Host d), VUint32 (td_Port d), VString (td_OriginAddress d), VUint32 (td_OriginPort d)]
     \<and> tunnelDataAdmissible d"
  by (cases d) (auto simp: unmarshalTunnelData_def tunnelDataAdmissible_def not_less
      split: sum.splits list.splits field_value.splits if_splits)

lemma unmarshalForwardRequest_cases:
  "unmarshalForwardRequest p = Inr r \<longleftrightarrow>
     Unmarshal [] forwardRequestKinds p = Inr [VString (fr_Host r), VUint32 (fr_Port r)]
     \<and> forwardRequestAdmissible r"
  by (cases r) (auto simp: unmarshalForwardRequest_def forwardRequestAdmissible_def not_less
      split: sum.splits list.splits field_value.splits if_splits)

lemma Unmarshal_tunnelData:
  "length (marshalTunnelData d) < 2 ^ 32 \<Longrightarrow>
   Unmarshal [] tunnelDataKinds (marshalTunnelData d) =
     Inr [VString (td_Host d), VUint32 (td_Port d), VString (td_OriginAddress d), VUint32 (td_OriginPort d)]"
  using Unmarshal_Marshal [of "[VString (td_Host d), VUint32 (td_Port d),
      VString (td_OriginAddress d), VUint32 (td_OriginPort d)]"]
  by (simp add: marshalTunnelData_def tunnelDataKinds_def Marshal_nonempty)

lemma Unmarshal_forwardRequest:
  "length (marshalForwardRequest r) < 2 ^ 32 \<Longrightarrow>
   Unmarshal [] forwardRequestKinds (marshalForwardRequest r) = Inr [VString (fr_Host r), VUint32 (fr_Port r)]"
  using Unmarshal_Marshal [of "[VString (fr_Host r), VUint32 (fr_Port r)]"]
  by (simp add: marshalForwardRequest_def forwardRequestKinds_def Marshal_nonempty)

interpretation tunnel_payload: payload_codec marshalTunnelData unmarshalTunnelData tunnelDataAdmissible
proof unfold_locales
  fix d p
  show "tunnelDataAdmissible d \<Longrightarrow> length (marshalTunnelData d) < 2 ^ 32 \<Longrightarrow>
      unmarshalTunnelData (marshalTunnelData d) = Inr d"
    by (simp add: unmarshalTunnelData_cases Unmarshal_tunnelData)
  show "unmarshalTunnelData p = Inr d \<Longrightarrow> tunnelDataAdmissible d"
    by (simp add: unmarshalTunnelData_cases)
  show "unmarshalTunnelData p = Inr d \<Longrightarrow> length p < 2 ^ 32 \<Longrightarrow> marshalTunnelData d = p"
    by (auto simp: unmarshalTunnelData_cases marshalTunnelData_def tunnelDataKinds_def dest!: Unmarshal_inv)
qed

interpretation forward_payload:
  payload_codec marshalForwardRequest unmarshalForwardRequest forwardRequestAdmissible
proof unfold_locales
  fix r p
  show "forwardRequestAdmissible r \<Longrightarrow> length (marshalForwardRequest r) < 2 ^ 32 \<Longrightarrow>
      unmarshalForwardRequest (marshalForwardRequest r) = Inr r"
    by (simp add: unmarshalForwardRequest_cases Unmarshal_forwardRequest)
  show "unmarshalForwardRequest p = Inr r \<Longrightarrow> forwardRequestAdmissible r"
    by (simp add: unmarshalForwardRequest_cases)
  show "unmarshalForwardRequest p = Inr r \<Longrightarrow> length p < 2 ^ 32 \<Longrightarrow> marshalForwardRequest r = p"
    by (auto simp: unmarshalForwardRequest_cases marshalForwardRequest_def forwardRequestKinds_def
        dest!: Unmarshal_inv)
qed

lemma length_marshalTunnelData:
  "length (marshalTunnelData d) = 16 + length (td_Host d) + length (td_OriginAddress d)"
  by (simp add: marshalTunnelData_def Marshal_untagged encodeField_def appendInt_def bytes_simps)

lemma ucast_port_le: "(ucast (p :: u16) :: u32) \<le> 65535"
proof -
  have "unat p < 2 ^ 16" using unsigned_less [of p, where 'a = nat] by simp
  then have "unat (ucast p :: u32) \<le> 65535"
    by (simp add: unsigned_ucast_eq take_bit_nat_eq_self)
  then show ?thesis by (simp add: word_le_nat_alt)
qed

lemma ucast_port_roundtrip: "p \<le> 65535 \<Longrightarrow> (ucast (ucast (p :: u32) :: u16) :: u32) = p"
proof -
  assume "p \<le> 65535"
  then have "unat p < 2 ^ 16" by (simp add: word_le_nat_alt)
  then have "unat (ucast (ucast p :: u16) :: u32) = unat p"
    by (simp add: unsigned_ucast_eq unsigned_take_bit_eq take_bit_nat_eq_self)
  then show ?thesis by (simp add: word_unat_eq_iff)
qed

lemma tunnelDataAdmissible_port:
  "originPort \<le> 65535 \<Longrightarrow> tunnelDataAdmissible \<lparr>td_Host = h, td_Port = ucast (port :: u16),
     td_OriginAddress = origin, td_OriginPort = originPort\<rparr>"
  by (simp add: tunnelDataAdmissible_def ucast_port_le)

subsection \<open>Properties of the payloads\<close>

text \<open>Tunnel data survives the wire: what one party marshals, the other unmarshals to the same
  four fields, unless a port is above 65535, in which case the payload is refused with the
  error for invalid tunnel data.\<close>

theorem tunnelData_roundtrip:
  assumes "length (marshalTunnelData d) < 2 ^ 32"
  shows "unmarshalTunnelData (marshalTunnelData d) =
    (if td_Port d > 65535 \<or> td_OriginPort d > 65535 then Inl ErrInvalidTunnelData else Inr d)"
proof (cases "tunnelDataAdmissible d")
  case True
  then show ?thesis
    using tunnel_payload.dec_enc [OF True assms] by (auto simp: tunnelDataAdmissible_def)
next
  case False
  then show ?thesis
    by (auto simp: unmarshalTunnelData_def Unmarshal_tunnelData [OF assms] tunnelDataAdmissible_def)
qed

theorem tunnelData_roundtrip_witness:
  "unmarshalTunnelData (marshalTunnelData
     \<lparr>td_Host = ''web.alice'', td_Port = 80, td_OriginAddress = ''10.0.0.1'', td_OriginPort = 5000\<rparr>) =
   Inr \<lparr>td_Host = ''web.alice'', td_Port = 80, td_OriginAddress = ''10.0.0.1'', td_OriginPort = 5000\<rparr>"
proof -
  let ?d = "\<lparr>td_Host = ''web.alice'', td_Port = 80, td_OriginAddress = ''10.0.0.1'', td_OriginPort = 5000\<rparr> :: tunnelData"
  have "length (marshalTunnelData ?d) < 2 ^ 32"
    by (simp add: marshalTunnelData_def Marshal_untagged encodeField_def appendInt_def bytes_simps)
  from tunnelData_roundtrip [OF this] show ?thesis by simp
qed

text \<open>C24: A payload that is accepted as tunnel data, or as a forward request, is the only encoding
  of the value it decodes to, and its ports are at most 65535.\<close>

theorem payloads_canonical:
  assumes "length p < 2 ^ 32"
  shows "(unmarshalTunnelData p = Inr d \<longrightarrow>
            marshalTunnelData d = p \<and> unat (td_Port d) \<le> 65535 \<and> unat (td_OriginPort d) \<le> 65535)
       \<and> (unmarshalForwardRequest p = Inr r \<longrightarrow> marshalForwardRequest r = p \<and> unat (fr_Port r) \<le> 65535)"
proof (intro conjI impI)
  assume d: "unmarshalTunnelData p = Inr d"
  show "marshalTunnelData d = p" using d assms by (rule tunnel_payload.enc_dec)
  from tunnel_payload.dec_admissible [OF d]
  show "unat (td_Port d) \<le> 65535" and "unat (td_OriginPort d) \<le> 65535"
    by (auto simp: tunnelDataAdmissible_def word_le_nat_alt)
next
  assume r: "unmarshalForwardRequest p = Inr r"
  show "marshalForwardRequest r = p" using r assms by (rule forward_payload.enc_dec)
  from forward_payload.dec_admissible [OF r] show "unat (fr_Port r) \<le> 65535"
    by (simp add: forwardRequestAdmissible_def word_le_nat_alt)
qed

theorem payloads_canonical_witness:
  "unmarshalForwardRequest [0, 0, 0, 1, 97, 0, 0, 0, 80] = Inr \<lparr>fr_Host = ''a'', fr_Port = 80\<rparr>
   \<and> marshalForwardRequest \<lparr>fr_Host = ''a'', fr_Port = 80\<rparr> = [0, 0, 0, 1, 97, 0, 0, 0, 80]"
proof -
  have r: "unmarshalForwardRequest [0, 0, 0, 1, 97, 0, 0, 0, 80] = Inr \<lparr>fr_Host = ''a'', fr_Port = 80\<rparr>"
    by (simp add: unmarshalForwardRequest_def Unmarshal_def forwardRequestKinds_def parseString_def
        getU32_def string_of_def char_of_def bit_0)
  moreover have "length [0, 0, 0, 1, 97, 0, 0, 0, 80 :: byte] < 2 ^ 32" by simp
  ultimately show ?thesis using payloads_canonical by blast
qed

end
