(* ===== verification/Usage.thy ===== *)
theory Usage
  imports Prelude
begin

text \<open>
  \<^verbatim>\<open>gateway/utils.go\<close>, the accounting of a connection: \<open>usageStats\<close> with its atomic counters
  and the wrapper \<open>wrappedConn\<close> around the socket. The counters are 64-bit words; the time
  of the last use is kept, as in the code, as a 64-bit count of nanoseconds since 1970.
  Each atomic operation is one step, and the clock reading of an update is a parameter.
\<close>

record usageStats =
  bytesRead :: u64
  bytesWritten :: u64
  usedAtNano :: u64
  createdAt :: gotime

text \<open>\<^verbatim>\<open>Time.UnixNano\<close> and \<^verbatim>\<open>time.Unix(0, n)\<close>.\<close>

definition unixEpoch :: gotime where
  "unixEpoch = 62135596800 * second"

definition unixNano :: "gotime \<Rightarrow> u64" where
  "unixNano t = word_of_int (t - unixEpoch)"

definition timeUnix0 :: "u64 \<Rightarrow> gotime" where
  "timeUnix0 n = unixEpoch + sint n"

definition newUsage :: "gotime \<Rightarrow> usageStats" where
  "newUsage now = \<lparr>bytesRead = 0, bytesWritten = 0, usedAtNano = unixNano now, createdAt = now\<rparr>"

definition usage_update :: "gotime \<Rightarrow> u64 \<Rightarrow> u64 \<Rightarrow> usageStats \<Rightarrow> usageStats" where
  "usage_update now nread nwritten u =
     (let u1 = (if nread > 0 then u\<lparr>bytesRead := bytesRead u + nread\<rparr> else u);
          u2 = (if nwritten > 0 then u1\<lparr>bytesWritten := bytesWritten u1 + nwritten\<rparr> else u1)
      in u2\<lparr>usedAtNano := unixNano now\<rparr>)"

definition usage_read :: "gotime \<Rightarrow> u64 \<Rightarrow> usageStats \<Rightarrow> usageStats" where
  "usage_read now n u = usage_update now n 0 u"

definition usage_write :: "gotime \<Rightarrow> u64 \<Rightarrow> usageStats \<Rightarrow> usageStats" where
  "usage_write now n u = usage_update now 0 n u"

definition getBytesRead :: "usageStats \<Rightarrow> u64" where
  "getBytesRead u = bytesRead u"

definition getBytesWritten :: "usageStats \<Rightarrow> u64" where
  "getBytesWritten u = bytesWritten u"

definition usage_getUsedAt :: "usageStats \<Rightarrow> gotime" where
  "usage_getUsedAt u = timeUnix0 (usedAtNano u)"

section \<open>The wrapped connection\<close>

text \<open>What the underlying connection answers to a read or a write: a size and perhaps an error.\<close>

type_synonym io_result = "int \<times> goerror option"

definition wrapped_Read :: "gotime \<Rightarrow> io_result \<Rightarrow> usageStats \<Rightarrow> io_result \<times> usageStats" where
  "wrapped_Read now r u =
     (r, if snd r = None \<and> fst r \<ge> 0 then usage_read now (word_of_int (fst r)) u else u)"

definition wrapped_Write :: "gotime \<Rightarrow> io_result \<Rightarrow> usageStats \<Rightarrow> io_result \<times> usageStats" where
  "wrapped_Write now r u =
     (r, if snd r = None \<and> fst r \<ge> 0 then usage_write now (word_of_int (fst r)) u else u)"

datatype io_event = IORead gotime io_result | IOWrite gotime io_result

fun io_step :: "io_event \<Rightarrow> usageStats \<Rightarrow> usageStats" where
  "io_step (IORead now r) u = snd (wrapped_Read now r u)"
| "io_step (IOWrite now r) u = snd (wrapped_Write now r u)"

definition io_run :: "io_event list \<Rightarrow> usageStats \<Rightarrow> usageStats" where
  "io_run es u = fold io_step es u"

section \<open>Properties\<close>

fun io_counts :: "io_event \<Rightarrow> bool" where
  "io_counts (IORead now r) \<longleftrightarrow> snd r = None \<and> fst r \<ge> 0"
| "io_counts (IOWrite now r) \<longleftrightarrow> snd r = None \<and> fst r \<ge> 0"

fun io_time :: "io_event \<Rightarrow> gotime" where
  "io_time (IORead now r) = now"
| "io_time (IOWrite now r) = now"

fun io_read_size :: "io_event \<Rightarrow> int" where
  "io_read_size (IORead now r) = (if io_counts (IORead now r) then fst r else 0)"
| "io_read_size (IOWrite now r) = 0"

fun io_write_size :: "io_event \<Rightarrow> int" where
  "io_write_size (IOWrite now r) = (if io_counts (IOWrite now r) then fst r else 0)"
| "io_write_size (IORead now r) = 0"

lemma usage_update_fields [simp]:
  "bytesRead (usage_update now r w u) = bytesRead u + r"
  "bytesWritten (usage_update now r w u) = bytesWritten u + w"
  "usedAtNano (usage_update now r w u) = unixNano now"
  "createdAt (usage_update now r w u) = createdAt u"
  by (auto simp: usage_update_def Let_def word_gt_0)

lemmas io_defs = usage_read_def usage_write_def wrapped_Read_def wrapped_Write_def

lemma io_step_fields:
  "bytesRead (io_step e u) = bytesRead u + word_of_int (io_read_size e)"
  "bytesWritten (io_step e u) = bytesWritten u + word_of_int (io_write_size e)"
  "usedAtNano (io_step e u) = (if io_counts e then unixNano (io_time e) else usedAtNano u)"
  "createdAt (io_step e u) = createdAt u"
  by (cases e; simp add: io_defs)+

lemma sint_of_int64: "- (2 ^ 63) \<le> n \<Longrightarrow> n < 2 ^ 63 \<Longrightarrow> sint (word_of_int n :: u64) = n"
  by (simp add: signed_of_int signed_take_bit_int_eq_self)

lemma timeUnix0_unixNano:
  assumes "- (2 ^ 63) \<le> t - unixEpoch" and "t - unixEpoch < 2 ^ 63"
  shows "timeUnix0 (unixNano t) = t"
  using sint_of_int64 [OF assms] by (simp only: timeUnix0_def unixNano_def)

lemma io_run_counts:
  "bytesRead (io_run es u) = bytesRead u + word_of_int (sum_list (map io_read_size es))
   \<and> bytesWritten (io_run es u) = bytesWritten u + word_of_int (sum_list (map io_write_size es))"
  by (induction es arbitrary: u) (simp_all add: io_run_def io_step_fields)

lemma io_run_used:
  "usedAtNano (io_run es u) =
     (case filter io_counts es of [] \<Rightarrow> usedAtNano u | _ \<Rightarrow> unixNano (io_time (last (filter io_counts es))))"
  by (induction es arbitrary: u) (auto simp: io_run_def io_step_fields split: list.splits)

text \<open>C32: After any traffic on a connection, the two counters are the numbers of bytes that were
  read and written without an error, modulo the width of the counters.\<close>

theorem usage_counts_traffic:
  "uint (getBytesRead (io_run es (newUsage t0))) = sum_list (map io_read_size es) mod 2 ^ 64
   \<and> uint (getBytesWritten (io_run es (newUsage t0))) = sum_list (map io_write_size es) mod 2 ^ 64"
  using io_run_counts [of es "newUsage t0"]
  by (simp add: getBytesRead_def getBytesWritten_def newUsage_def uint_word_of_int take_bit_eq_mod)

text \<open>The time of the last use is the time of the last read or write that succeeded, or the
  time the connection was accepted when there was none, for every clock between the
  years 1678 and 2262; failed reads and writes never postpone the idle timeout.\<close>

theorem usage_last_used:
  assumes "\<forall>e \<in> set es. \<bar>io_time e - unixEpoch\<bar> < 2 ^ 63" and "\<bar>t0 - unixEpoch\<bar> < 2 ^ 63"
  shows "usage_getUsedAt (io_run es (newUsage t0)) = last (t0 # map io_time (filter io_counts es))"
proof (cases "filter io_counts es")
  case Nil
  then show ?thesis
    using assms(2) by (simp add: usage_getUsedAt_def io_run_used newUsage_def timeUnix0_unixNano)
next
  case (Cons e rest)
  then have "last (filter io_counts es) \<in> set es"
    by (metis filter_is_subset last_in_set list.distinct(1) subset_code(1))
  with assms(1) have "\<bar>io_time (last (filter io_counts es)) - unixEpoch\<bar> < 2 ^ 63" by blast
  with Cons show ?thesis
    by (simp add: usage_getUsedAt_def io_run_used timeUnix0_unixNano last_map)
qed

theorem usage_last_used_witness:
  "usage_getUsedAt (io_run [IORead (unixEpoch + 5) (3, None), IOWrite (unixEpoch + 9) (0, Some ErrEOF)]
     (newUsage unixEpoch)) = unixEpoch + 5"
  using usage_last_used [of "[IORead (unixEpoch + 5) (3, None), IOWrite (unixEpoch + 9) (0, Some ErrEOF)]" unixEpoch]
  by simp

end
