(* ===== verification/Tunnel.thy ===== *)
theory Tunnel
  imports Prelude
begin

text \<open>
  \<^verbatim>\<open>gateway/tunnel.go\<close>: a tunnel, its one-time close and the loop that answers the requests
  on its channel. Tunnels and connections are objects that the program shares by
  pointer; in the model a pointer is a number (\<open>ref\<close>) into a store of objects. A loop
  around \<^verbatim>\<open>select\<close> consumes a list of events, which is the order in which the cases of
  the select became ready and were picked; it is None when the list ends while the loop
  still waits.
\<close>

type_synonym ref = nat

text \<open>The values of \<^verbatim>\<open>map[string]interface{}\<close> that the program puts into tunnel metadata.\<close>

datatype metadata = MString string | MPort nat | MObject "(string \<times> metadata) list"

record tunnel =
  tn_connection :: "ref option"
  tn_channel :: ref
  tn_channelType :: string
  tn_extraData :: "byte list"
  tn_done :: bool
  tn_metadata :: metadata

definition make_tunnel :: "ref option \<Rightarrow> ref \<Rightarrow> string \<Rightarrow> byte list \<Rightarrow> metadata \<Rightarrow> tunnel" where
  "make_tunnel conn channel channelType extraData metadata =
     \<lparr>tn_connection = conn, tn_channel = channel, tn_channelType = channelType,
      tn_extraData = extraData, tn_done = False, tn_metadata = metadata\<rparr>"

text \<open>\<^verbatim>\<open>closeOnce\<close> runs the close of \<^verbatim>\<open>done\<close> the first time only; a second one would panic.\<close>

definition tunnel_close :: "tunnel \<Rightarrow> tunnel" where
  "tunnel_close t = (if tn_done t then t else t\<lparr>tn_done := True\<rparr>)"

record tunnelStatus =
  ts_Type :: string
  ts_Metadata :: metadata

definition tunnel_gatherStatus :: "tunnel \<Rightarrow> tunnelStatus" where
  "tunnel_gatherStatus t = \<lparr>ts_Type = tn_channelType t, ts_Metadata = tn_metadata t\<rparr>"

section \<open>The request loop\<close>

text \<open>A request is its \<^verbatim>\<open>WantReply\<close> flag and what sending the reply returns.\<close>

datatype tunnel_event =
    TunnelDone
  | TunnelRequestsClosed
  | TunnelRequest bool fault_or_sent
and fault_or_sent = Sent | NotSent goerror

fun handleRequests_loop :: "tunnel_event list \<Rightarrow> bool list option" where
  "handleRequests_loop [] = None"
| "handleRequests_loop (TunnelDone # es) = Some []"
| "handleRequests_loop (TunnelRequestsClosed # es) = Some []"
| "handleRequests_loop (TunnelRequest wantReply r # es) =
     (if wantReply then
        (case r of
           NotSent e \<Rightarrow> Some []
         | Sent \<Rightarrow> map_option (\<lambda>replies. False # replies) (handleRequests_loop es))
      else handleRequests_loop es)"

section \<open>Copying between two channels\<close>

text \<open>
  \<^verbatim>\<open>handleTunnel\<close> starts one copy in each direction and returns when the first of them is
  done; then the two deferred calls close both tunnels. The events are the ends of the
  two copies.
\<close>

datatype copy_event = CopyToSelfDone | CopyToOtherDone

fun handleTunnel :: "copy_event list \<Rightarrow> tunnel \<times> tunnel \<Rightarrow> (tunnel \<times> tunnel) option" where
  "handleTunnel [] ts = None"
| "handleTunnel (e # es) (self, other) = Some (tunnel_close self, tunnel_close other)"

lemma tunnel_close_done [simp]: "tn_done (tunnel_close t)"
  by (simp add: tunnel_close_def)

lemma tunnel_close_idem [simp]: "tunnel_close (tunnel_close t) = tunnel_close t"
  by (simp add: tunnel_close_def)

lemma handleRequests_loop_false:
  "handleRequests_loop es = Some replies \<Longrightarrow> set replies \<subseteq> {False}"
  by (induction es arbitrary: replies rule: handleRequests_loop.induct)
     (auto split: if_splits fault_or_sent.splits)

end
