(* ===== verification/Models.thy ===== *)
theory Models
  imports Prelude
begin

text \<open>
  The data of \<^verbatim>\<open>db/models.go\<close>: users, nodes and locations as the program handles them
  (\<open>user\<close>, \<open>node\<close>, \<open>location\<close>) and as rows of the two tables (\<open>user_row\<close>, \<open>node_row\<close>), where a
  column that may be NULL is an option. Scanning a NULL into a Go field leaves the field's
  zero value, and saving an empty status or screenshot writes NULL; a nil byte slice and an
  empty one are the same empty list.

  A \<^verbatim>\<open>float64\<close> is kept as its 64-bit pattern. Timestamps are exact: the rounding of the
  column type to microseconds is not modelled.
\<close>

record location =
  loc_Latitude :: u64
  loc_Longitude :: u64
  loc_TimeZone :: string
  loc_Country :: string
  loc_City :: string

definition zero_location :: location where
  "zero_location = \<lparr>loc_Latitude = 0, loc_Longitude = 0, loc_TimeZone = [], loc_Country = [], loc_City = []\<rparr>"

type_synonym status = "byte list"

record user =
  us_ID :: string
  us_CreatedAt :: gotime
  us_ModifiedAt :: gotime
  us_Comment :: string
  us_IP :: string
  us_Location :: location
  us_Status :: status
  us_Administrator :: bool
  us_Screenshot :: "byte list"
  us_Disabled :: bool
  us_NodeID :: string
  us_OnlineAt :: gotime
  us_Online :: bool

definition zero_user :: user where
  "zero_user = \<lparr>us_ID = [], us_CreatedAt = 0, us_ModifiedAt = 0, us_Comment = [], us_IP = [],
     us_Location = zero_location, us_Status = [], us_Administrator = False, us_Screenshot = [],
     us_Disabled = False, us_NodeID = [], us_OnlineAt = 0, us_Online = False\<rparr>"

record node =
  nd_ID :: string
  nd_CreatedAt :: gotime
  nd_ModifiedAt :: gotime
  nd_Address :: string
  nd_HostPublicKey :: string
  nd_Online :: bool
  nd_OnlineAt :: gotime

definition zero_node :: node where
  "zero_node = \<lparr>nd_ID = [], nd_CreatedAt = 0, nd_ModifiedAt = 0, nd_Address = [],
     nd_HostPublicKey = [], nd_Online = False, nd_OnlineAt = 0\<rparr>"

section \<open>Rows\<close>

record user_row =
  ur_id :: string
  ur_created_at :: gotime
  ur_modified_at :: gotime
  ur_comment :: string
  ur_ip :: string
  ur_location :: location
  ur_status :: "status option"
  ur_administrator :: "bool option"
  ur_screenshot :: "byte list option"
  ur_disabled :: "bool option"
  ur_node_id :: "string option"
  ur_online_at :: "gotime option"

definition nullable :: "'a \<Rightarrow> 'a option \<Rightarrow> 'a" where
  "nullable z v = (case v of None \<Rightarrow> z | Some x \<Rightarrow> x)"

definition status_value :: "status \<Rightarrow> status option" where
  "status_value s = (if s = [] then None else Some s)"

text \<open>Loading a row: the listing queries leave out status and screenshot, the single-user query
  only the screenshot, and the read of an update loads every column.\<close>

definition load_user :: "bool \<Rightarrow> bool \<Rightarrow> user_row \<Rightarrow> user" where
  "load_user withStatus withScreenshot r =
     \<lparr>us_ID = ur_id r, us_CreatedAt = ur_created_at r, us_ModifiedAt = ur_modified_at r,
      us_Comment = ur_comment r, us_IP = ur_ip r, us_Location = ur_location r,
      us_Status = (if withStatus then nullable [] (ur_status r) else []),
      us_Administrator = nullable False (ur_administrator r),
      us_Screenshot = (if withScreenshot then nullable [] (ur_screenshot r) else []),
      us_Disabled = nullable False (ur_disabled r),
      us_NodeID = nullable [] (ur_node_id r),
      us_OnlineAt = nullable 0 (ur_online_at r),
      us_Online = False\<rparr>"

definition save_user :: "user \<Rightarrow> user_row" where
  "save_user u =
     \<lparr>ur_id = us_ID u, ur_created_at = us_CreatedAt u, ur_modified_at = us_ModifiedAt u,
      ur_comment = us_Comment u, ur_ip = us_IP u, ur_location = us_Location u,
      ur_status = status_value (us_Status u),
      ur_administrator = Some (us_Administrator u),
      ur_screenshot = status_value (us_Screenshot u),
      ur_disabled = Some (us_Disabled u),
      ur_node_id = Some (us_NodeID u),
      ur_online_at = Some (us_OnlineAt u)\<rparr>"

lemma nullable_simps [simp]: "nullable z None = z" "nullable z (Some x) = x"
  by (simp_all add: nullable_def)

lemma nullable_status_value [simp]: "nullable [] (status_value s) = s"
  by (simp add: status_value_def)

lemma load_save_user: "load_user True True (save_user u) = u\<lparr>us_Online := False\<rparr>"
  by (simp add: load_user_def save_user_def)

end
