(* ===== verification/Connection.thy ===== *)
theory Connection
  imports Cert Wire Usage Tunnel Models
begin

text \<open>
  \<^verbatim>\<open>gateway/connection.go\<close>, the state of one ssh connection: what its permissions make of it,
  the services it advertises, its tunnels and counters, its status report and the global
  requests it handles. The channels it opens involve the whole gateway and are in
  \<open>Channels\<close>.
\<close>

type_synonym services = "(string, (u16, bool) gomap) gomap"

record connection =
  cn_id :: string
  cn_user :: string
  cn_nodeId :: string
  cn_remoteAddress :: string
  cn_tunnels :: "ref list"
  cn_tunnelsOpened :: u64
  cn_tunnelsClosed :: u64
  cn_services :: services
  cn_done :: bool
  cn_usage :: usageStats
  cn_permitPortForwarding :: bool
  cn_administrator :: bool

text \<open>The first part of \<^verbatim>\<open>handleConnection\<close>: the connection an authenticated client gets.\<close>

definition newConnection :: "string \<Rightarrow> permissions \<Rightarrow> string \<Rightarrow> string \<Rightarrow> usageStats \<Rightarrow> connection" where
  "newConnection ident perms user remote usage =
     (let peer = (mget (pm_Extensions perms) ''peer'' \<noteq> None)
      in \<lparr>cn_id = ident,
          cn_user = (if peer then [] else user),
          cn_nodeId = (if peer then nullable [] (mget (pm_Extensions perms) ''identity'') else []),
          cn_remoteAddress = remote, cn_tunnels = [], cn_tunnelsOpened = 0, cn_tunnelsClosed = 0,
          cn_services = [], cn_done = False, cn_usage = usage,
          cn_permitPortForwarding = (mget (pm_Extensions perms) ''permit-port-forwarding'' \<noteq> None),
          cn_administrator = (mget (pm_Extensions perms) ''administrator'' \<noteq> None)\<rparr>)"

definition connection_close :: "connection \<Rightarrow> connection" where
  "connection_close c = (if cn_done c then c else c\<lparr>cn_done := True\<rparr>)"

definition addTunnel :: "ref \<Rightarrow> connection \<Rightarrow> connection" where
  "addTunnel t c = c\<lparr>cn_tunnels := t # cn_tunnels c, cn_tunnelsOpened := cn_tunnelsOpened c + 1\<rparr>"

definition deleteTunnel :: "ref \<Rightarrow> connection \<Rightarrow> connection" where
  "deleteTunnel t c = c\<lparr>cn_tunnels := filter (\<lambda>x. x \<noteq> t) (cn_tunnels c),
                        cn_tunnelsClosed := cn_tunnelsClosed c + 1\<rparr>"

definition conn_getUsedAt :: "connection \<Rightarrow> gotime" where
  "conn_getUsedAt c = usage_getUsedAt (cn_usage c)"

section \<open>The services of a connection\<close>

definition lookupService :: "string \<Rightarrow> u16 \<Rightarrow> connection \<Rightarrow> bool" where
  "lookupService host port c =
     (case mget (cn_services c) host of
        None \<Rightarrow> False
      | Some ports \<Rightarrow> nullable False (mget ports port))"

definition registerService :: "string \<Rightarrow> u16 \<Rightarrow> connection \<Rightarrow> unit res \<times> connection" where
  "registerService host port c =
     (let services = (case mget (cn_services c) host of
                        None \<Rightarrow> mput host [] (cn_services c) | Some _ \<Rightarrow> cn_services c);
          ports = nullable [] (mget services host)
      in if nullable False (mget ports port)
         then (Inl ErrServiceAlreadyRegistered, c\<lparr>cn_services := services\<rparr>)
         else (Inr (), c\<lparr>cn_services := mput host (mput port True ports) services\<rparr>))"

definition deregisterService :: "string \<Rightarrow> u16 \<Rightarrow> connection \<Rightarrow> unit res \<times> connection" where
  "deregisterService host port c =
     (case mget (cn_services c) host of
        None \<Rightarrow> (Inr (), c)
      | Some ports \<Rightarrow> (Inr (), c\<lparr>cn_services := mput host (mdel port ports) (cn_services c)\<rparr>))"

section \<open>Status\<close>

record connectionStatus =
  cs_ID :: string
  cs_CreatedAt :: gotime
  cs_UsedAt :: gotime
  cs_User :: string
  cs_Administrator :: bool
  cs_PermitPortForwarding :: bool
  cs_Address :: string
  cs_Tunnels :: "tunnelStatus list"
  cs_TunnelsActive :: u64
  cs_TunnelsOpened :: u64
  cs_TunnelsClosed :: u64
  cs_UpTime :: u64
  cs_IdleTime :: u64
  cs_BytesRead :: u64
  cs_BytesWritten :: u64
  cs_Services :: "(string, u16 list) gomap"

text \<open>Hosts without a port that is set do not appear, since only an append creates an entry.\<close>

definition statusServices :: "services \<Rightarrow> (string, u16 list) gomap" where
  "statusServices svc =
     filter (\<lambda>(h, ps). ps \<noteq> []) (map (\<lambda>(h, ports). (h, map fst (filter snd ports))) svc)"

text \<open>\<open>seconds\<close> is the conversion of a duration by way of a float, \<^verbatim>\<open>uint64(d.Seconds())\<close>.\<close>

definition conn_gatherStatus ::
    "(duration \<Rightarrow> u64) \<Rightarrow> gotime \<Rightarrow> gotime \<Rightarrow> (ref \<Rightarrow> tunnel) \<Rightarrow> connection \<Rightarrow> connectionStatus" where
  "conn_gatherStatus seconds now now' tunnels c =
     (let ts = map (\<lambda>r. tunnel_gatherStatus (tunnels r)) (cn_tunnels c)
      in \<lparr>cs_ID = cn_id c, cs_CreatedAt = createdAt (cn_usage c),
          cs_UsedAt = usage_getUsedAt (cn_usage c), cs_User = cn_user c,
          cs_Administrator = cn_administrator c,
          cs_PermitPortForwarding = cn_permitPortForwarding c,
          cs_Address = cn_remoteAddress c, cs_Tunnels = ts, cs_TunnelsActive = of_nat (length ts),
          cs_TunnelsOpened = cn_tunnelsOpened c, cs_TunnelsClosed = cn_tunnelsClosed c,
          cs_UpTime = seconds (timeSub now (createdAt (cn_usage c))),
          cs_IdleTime = seconds (timeSub now' (usage_getUsedAt (cn_usage c))),
          cs_BytesRead = getBytesRead (cn_usage c), cs_BytesWritten = getBytesWritten (cn_usage c),
          cs_Services = statusServices (cn_services c)\<rparr>)"

section \<open>Global requests\<close>

record sshRequest =
  rq_Type :: string
  rq_WantReply :: bool
  rq_Payload :: "byte list"

text \<open>
  The result is the error the handler returns (None for nil), the connection afterwards and
  the reply that was sent, if any. \<open>replyFault\<close> is what sending a reply returns.
\<close>

definition sendReply :: "goerror option \<Rightarrow> sshRequest \<Rightarrow> bool \<Rightarrow> connection \<Rightarrow> goerror option \<times> connection \<times> bool option" where
  "sendReply replyFault request ok c =
     (if rq_WantReply request
      then (case replyFault of None \<Rightarrow> (None, c, Some ok) | Some e \<Rightarrow> (Some e, c, None))
      else (None, c, None))"

definition handleRequest ::
    "goerror option \<Rightarrow> sshRequest \<Rightarrow> connection \<Rightarrow> goerror option \<times> connection \<times> bool option" where
  "handleRequest replyFault request c =
     (if rq_Type request = ''tcpip-forward'' then
        (case unmarshalForwardRequest (rq_Payload request) of
           Inl e \<Rightarrow> (Some e, c, None)
         | Inr forward \<Rightarrow>
             if fr_Port forward = 0 then (None, c, None)
             else if fr_Port forward > 65535 then (Some (ErrText ''gateway: port is out of range''), c, None)
             else (case registerService (fr_Host forward) (ucast (fr_Port forward)) c of
                     (Inl e, c') \<Rightarrow> (Some e, c', None)
                   | (Inr _, c') \<Rightarrow> sendReply replyFault request True c'))
      else if rq_Type request = ''cancel-tcpip-forward'' then
        (case unmarshalForwardRequest (rq_Payload request) of
           Inl e \<Rightarrow> (Some e, c, None)
         | Inr forward \<Rightarrow>
             if fr_Port forward > 65535 then (Some (ErrText ''gateway: port is out of range''), c, None)
             else (case deregisterService (fr_Host forward) (ucast (fr_Port forward)) c of
                     (Inl e, c') \<Rightarrow> (Some e, c', None)
                   | (Inr _, c') \<Rightarrow> sendReply replyFault request True c'))
      else sendReply replyFault request False c)"

section \<open>Properties\<close>

definition services_of :: "connection \<Rightarrow> (string \<times> u16) set" where
  "services_of c = {(h, p). lookupService h p c}"

lemma mem_services_of [simp]: "(h, p) \<in> services_of c \<longleftrightarrow> lookupService h p c"
  by (simp add: services_of_def)

lemma lookup_register:
  "lookupService h' p' (snd (registerService h p c)) \<longleftrightarrow> (h', p') = (h, p) \<or> lookupService h' p' c"
  by (auto simp: registerService_def lookupService_def Let_def nullable_def gomap_simps
      split: option.splits if_splits)

lemma lookup_deregister:
  "lookupService h' p' (snd (deregisterService h p c)) \<longleftrightarrow> (h', p') \<noteq> (h, p) \<and> lookupService h' p' c"
  by (auto simp: deregisterService_def lookupService_def nullable_def gomap_simps split: option.splits if_splits)

lemma registerService_services:
  "services_of (snd (registerService h p c)) = insert (h, p) (services_of c)"
  "fst (registerService h p c) = (if lookupService h p c then Inl ErrServiceAlreadyRegistered else Inr ())"
  by (auto simp: lookup_register)
     (auto simp: registerService_def lookupService_def Let_def nullable_def gomap_simps
      split: option.splits if_splits)

lemma deregisterService_services:
  "services_of (snd (deregisterService h p c)) = services_of c - {(h, p)}"
  "fst (deregisterService h p c) = Inr ()"
  by (auto simp: lookup_deregister) (simp add: deregisterService_def split: option.splits)

lemma handleRequest_keeps:
  assumes "handleRequest f rq c = (e, c', reply)"
  shows "c' = c\<lparr>cn_services := cn_services c'\<rparr>"
  using assms
  by (auto simp: handleRequest_def sendReply_def registerService_def deregisterService_def Let_def
      split: if_splits sum.splits option.splits)

text \<open>The contract of the two requests, on the set of services alone.\<close>

definition forward_spec :: "sshRequest \<Rightarrow> (string \<times> u16) set \<Rightarrow> (string \<times> u16) set" where
  "forward_spec rq S =
     (case unmarshalForwardRequest (rq_Payload rq) of
        Inl e \<Rightarrow> S
      | Inr fr \<Rightarrow>
          if rq_Type rq = ''tcpip-forward'' then
            (if fr_Port fr = 0 then S else insert (fr_Host fr, ucast (fr_Port fr)) S)
          else if rq_Type rq = ''cancel-tcpip-forward'' then S - {(fr_Host fr, ucast (fr_Port fr))}
          else S)"

lemma unmarshalForwardRequest_port:
  "unmarshalForwardRequest p = Inr r \<Longrightarrow> \<not> fr_Port r > 65535"
  using forward_payload.dec_admissible [of p r] by (simp add: forwardRequestAdmissible_def not_less)

lemma sendReply_conn [simp]: "fst (snd (sendReply f rq ok c)) = c"
  by (simp add: sendReply_def split: option.splits)


text \<open>A request that wants a reply is left without one, while the connection goes on, exactly
  when it is a forward request for port 0. Every other request either gets its reply or
  ends the connection.\<close>

theorem unanswered_iff_port_zero:
  assumes "rq_WantReply rq"
  shows "(\<exists>c'. handleRequest None rq c = (None, c', None)) \<longleftrightarrow>
     rq_Type rq = ''tcpip-forward''
     \<and> (\<exists>h. unmarshalForwardRequest (rq_Payload rq) = Inr \<lparr>fr_Host = h, fr_Port = 0\<rparr>)"
proof (cases "unmarshalForwardRequest (rq_Payload rq)")
  case (Inl e)
  then show ?thesis using assms by (simp add: handleRequest_def sendReply_def)
next
  case (Inr fr)
  have "(\<exists>h. fr = \<lparr>fr_Host = h, fr_Port = 0\<rparr>) \<longleftrightarrow> fr_Port fr = 0"
    by (cases fr) auto
  with Inr assms unmarshalForwardRequest_port [OF Inr] show ?thesis
    by (auto simp: handleRequest_def sendReply_def split: prod.splits sum.splits)
qed

definition sample_connection :: "string \<Rightarrow> string \<Rightarrow> connection" where
  "sample_connection user nodeId =
     \<lparr>cn_id = ''k1'', cn_user = user, cn_nodeId = nodeId, cn_remoteAddress = ''10.1.2.3:40000'',
      cn_tunnels = [], cn_tunnelsOpened = 0, cn_tunnelsClosed = 0, cn_services = [], cn_done = False,
      cn_usage = newUsage 0, cn_permitPortForwarding = True, cn_administrator = False\<rparr>"

theorem unanswered_iff_port_zero_witness:
  "\<exists>c'. handleRequest None \<lparr>rq_Type = ''tcpip-forward'', rq_WantReply = True,
      rq_Payload = [0, 0, 0, 1, 97, 0, 0, 0, 0]\<rparr> (sample_connection ''alice'' []) = (None, c', None)"
  using unanswered_iff_port_zero [of "\<lparr>rq_Type = ''tcpip-forward'', rq_WantReply = True,
      rq_Payload = [0, 0, 0, 1, 97, 0, 0, 0, 0]\<rparr>" "sample_connection ''alice'' []"]
  by (simp add: unmarshalForwardRequest_def Unmarshal_def forwardRequestKinds_def parseString_def
        getU32_def string_of_def)

end
