(* ===== verification/TtlCache.thy ===== *)
theory TtlCache
  imports Prelude
begin

text \<open>
  The contract of a bounded cache whose entries expire. The gateway keeps two of them: the
  mesh routes of \<^verbatim>\<open>gateway/routecache.go\<close> and the login flags of \<^verbatim>\<open>auth/auth.go\<close>. Both store a
  value under a user name until a point in time, both drop expired entries and, if that is
  not enough, all entries when they are full, and both can be told to forget a name.

  The locale states what their clients rely on. Its lemmas are about whole histories of
  operations: a value that is looked up is the last one stored under that name, it was not
  forgotten since, and it is not older than the time to live; and the cache never holds
  more than its maximum of entries.
\<close>

datatype 'v cache_op =
    CLookup gotime string
  | CStore gotime gotime string 'v
  | CForget string

fun cache_step ::
    "(gotime \<Rightarrow> string \<Rightarrow> 'c \<Rightarrow> 'v option \<times> 'c) \<Rightarrow> (gotime \<Rightarrow> gotime \<Rightarrow> string \<Rightarrow> 'v \<Rightarrow> 'c \<Rightarrow> 'c) \<Rightarrow>
     (string \<Rightarrow> 'c \<Rightarrow> 'c) \<Rightarrow> 'c \<Rightarrow> 'v cache_op \<Rightarrow> 'c" where
  "cache_step lookup store forget c (CLookup now k) = snd (lookup now k c)"
| "cache_step lookup store forget c (CStore t t' k v) = store t t' k v c"
| "cache_step lookup store forget c (CForget k) = forget k c"

definition cache_run ::
    "(gotime \<Rightarrow> string \<Rightarrow> 'c \<Rightarrow> 'v option \<times> 'c) \<Rightarrow> (gotime \<Rightarrow> gotime \<Rightarrow> string \<Rightarrow> 'v \<Rightarrow> 'c \<Rightarrow> 'c) \<Rightarrow>
     (string \<Rightarrow> 'c \<Rightarrow> 'c) \<Rightarrow> 'v cache_op list \<Rightarrow> 'c \<Rightarrow> 'c" where
  "cache_run lookup store forget ops c = foldl (cache_step lookup store forget) c ops"

text \<open>The value last stored under a name and the time of that store, unless it was
  forgotten since.\<close>

fun note_store :: "string \<Rightarrow> ('v \<times> gotime) option \<Rightarrow> 'v cache_op \<Rightarrow> ('v \<times> gotime) option" where
  "note_store k prev (CLookup now k') = prev"
| "note_store k prev (CStore t t' k' v) = (if k' = k then Some (v, t') else prev)"
| "note_store k prev (CForget k') = (if k' = k then None else prev)"

definition last_store :: "string \<Rightarrow> 'v cache_op list \<Rightarrow> ('v \<times> gotime) option" where
  "last_store k ops = foldl (note_store k) None ops"

lemma cache_run_Nil [simp]: "cache_run lookup store forget [] c = c"
  by (simp add: cache_run_def)

lemma cache_run_snoc [simp]:
  "cache_run lookup store forget (ops @ [op]) c =
     cache_step lookup store forget (cache_run lookup store forget ops c) op"
  by (simp add: cache_run_def)

lemma last_store_Nil [simp]: "last_store k [] = None"
  by (simp add: last_store_def)

lemma last_store_snoc [simp]: "last_store k (ops @ [op]) = note_store k (last_store k ops) op"
  by (simp add: last_store_def)

lemma last_store_in: "last_store k ops = Some (v, t') \<Longrightarrow> \<exists>t. CStore t t' k v \<in> set ops"
proof (induction ops rule: rev_induct)
  case Nil
  then show ?case by simp
next
  case (snoc op ops)
  then show ?case by (cases op) (auto split: if_splits)
qed

locale ttl_cache =
  fixes entry :: "'c \<Rightarrow> string \<Rightarrow> ('v \<times> gotime) option"
    and entries_size :: "'c \<Rightarrow> nat"
    and invar :: "'c \<Rightarrow> bool"
    and fresh :: 'c
    and lookup :: "gotime \<Rightarrow> string \<Rightarrow> 'c \<Rightarrow> 'v option \<times> 'c"
    and store :: "gotime \<Rightarrow> gotime \<Rightarrow> string \<Rightarrow> 'v \<Rightarrow> 'c \<Rightarrow> 'c"
    and forget :: "string \<Rightarrow> 'c \<Rightarrow> 'c"
    and ttl :: duration
    and max_entries :: nat
  assumes invar_fresh: "invar fresh"
    and entry_fresh: "entry fresh k = None"
    and size_fresh: "entries_size fresh \<le> max_entries"
    and lookup_value: "invar c \<Longrightarrow> fst (lookup now k c) =
        (case entry c k of None \<Rightarrow> None | Some (v, e) \<Rightarrow> if timeAfter now e then None else Some v)"
    and lookup_entry: "invar c \<Longrightarrow> entry (snd (lookup now k c)) k' = Some x \<Longrightarrow> entry c k' = Some x"
    and invar_lookup: "invar c \<Longrightarrow> invar (snd (lookup now k c))"
    and size_lookup: "invar c \<Longrightarrow> entries_size (snd (lookup now k c)) \<le> entries_size c"
    and store_same: "invar c \<Longrightarrow> entry (store t t' k v c) k = Some (v, t' + ttl)"
    and store_other: "invar c \<Longrightarrow> k' \<noteq> k \<Longrightarrow> entry (store t t' k v c) k' = Some x \<Longrightarrow> entry c k' = Some x"
    and invar_store: "invar c \<Longrightarrow> invar (store t t' k v c)"
    and size_store: "invar c \<Longrightarrow> entries_size (store t t' k v c) \<le> max_entries"
    and forget_entry: "invar c \<Longrightarrow> entry (forget k c) k' = (if k' = k then None else entry c k')"
    and invar_forget: "invar c \<Longrightarrow> invar (forget k c)"
    and size_forget: "invar c \<Longrightarrow> entries_size (forget k c) \<le> entries_size c"
begin

abbreviation run :: "'v cache_op list \<Rightarrow> 'c" where
  "run ops \<equiv> cache_run lookup store forget ops fresh"

lemma invar_run: "invar (run ops)"
proof (induction ops rule: rev_induct)
  case Nil
  show ?case by (simp add: invar_fresh)
next
  case (snoc op ops)
  then show ?case
    by (cases op) (auto intro: invar_lookup invar_store invar_forget)
qed

lemma size_run: "entries_size (run ops) \<le> max_entries"
proof (induction ops rule: rev_induct)
  case Nil
  show ?case by (simp add: size_fresh)
next
  case (snoc op ops)
  then show ?case
    by (cases op)
       (simp_all add: size_store [OF invar_run] order_trans [OF size_lookup [OF invar_run]]
         order_trans [OF size_forget [OF invar_run]])
qed

lemma entry_run: "entry (run ops) k = Some (v, e) \<Longrightarrow> last_store k ops = Some (v, e - ttl)"
proof (induction ops arbitrary: v e rule: rev_induct)
  case Nil
  then show ?case by (simp add: entry_fresh)
next
  case (snoc op ops)
  show ?case
  proof (cases op)
    case (CLookup now k')
    with snoc show ?thesis by (auto dest: lookup_entry [OF invar_run])
  next
    case (CStore t t' k' v')
    with snoc show ?thesis
      using store_other [OF invar_run, of k k' t t' v' ops "(v, e)"]
      by (cases "k' = k") (auto simp: store_same [OF invar_run])
  next
    case (CForget k')
    with snoc show ?thesis
      by (auto simp: forget_entry [OF invar_run] split: if_splits)
  qed
qed

text \<open>What a lookup returns after any history.\<close>

lemma lookup_run:
  assumes "fst (lookup now k (run ops)) = Some v"
  shows "\<exists>t'. last_store k ops = Some (v, t') \<and> now \<le> t' + ttl"
proof -
  obtain e where "entry (run ops) k = Some (v, e)" and "now \<le> e"
    using assms by (auto simp: lookup_value [OF invar_run] timeAfter_def split: option.splits if_splits)
  then show ?thesis using entry_run by fastforce
qed

lemma lookup_after_store:
  "now \<le> t' + ttl \<Longrightarrow> fst (lookup now k (store t t' k v (run ops))) = Some v"
  by (simp add: lookup_value [OF invar_store, OF invar_run] store_same [OF invar_run] timeAfter_def)

lemma lookup_after_forget: "fst (lookup now k (forget k (run ops))) = None"
  by (simp add: lookup_value [OF invar_forget, OF invar_run] forget_entry [OF invar_run])

end

end
