(* ===== verification/RouteCache.thy ===== *)
theory RouteCache
  imports TtlCache
begin

text \<open>
  \<^verbatim>\<open>gateway/routecache.go\<close>: which remote node a user is on, remembered for fifteen seconds.
  The clock readings of the source are arguments; \<open>rc_put\<close> takes the two it may make, one
  for dropping expired entries and one for the expiry of the new entry.
\<close>

definition routeCacheTimeToLive :: duration where
  "routeCacheTimeToLive = 15 * second"

definition routeCacheMaxEntries :: nat where
  "routeCacheMaxEntries = 4096"

record routeCacheEntry =
  rce_nodeId :: string
  rce_expiresAt :: gotime

record routeCache =
  rc_entries :: "(string, routeCacheEntry) gomap"

definition newRouteCache :: routeCache where
  "newRouteCache = \<lparr>rc_entries = []\<rparr>"

definition rc_get :: "gotime \<Rightarrow> string \<Rightarrow> routeCache \<Rightarrow> string option" where
  "rc_get now userId c =
     (case mget (rc_entries c) userId of
        None \<Rightarrow> None
      | Some entry \<Rightarrow> if timeAfter now (rce_expiresAt entry) then None else Some (rce_nodeId entry))"

definition rc_invalidate :: "string \<Rightarrow> routeCache \<Rightarrow> routeCache" where
  "rc_invalidate userId c = c\<lparr>rc_entries := mdel userId (rc_entries c)\<rparr>"

definition rc_put :: "gotime \<Rightarrow> gotime \<Rightarrow> string \<Rightarrow> string \<Rightarrow> routeCache \<Rightarrow> routeCache" where
  "rc_put now now' userId nodeId c =
     (let es = rc_entries c;
          es1 = (if msize es \<ge> routeCacheMaxEntries
                 then (let es' = mpurge (\<lambda>e. timeAfter now (rce_expiresAt e)) es
                       in if msize es' \<ge> routeCacheMaxEntries then [] else es')
                 else es)
      in c\<lparr>rc_entries :=
             mput userId \<lparr>rce_nodeId = nodeId, rce_expiresAt = now' + routeCacheTimeToLive\<rparr> es1\<rparr>)"

subsection \<open>The cache contract\<close>

definition rc_entry :: "routeCache \<Rightarrow> string \<Rightarrow> (string \<times> gotime) option" where
  "rc_entry c k = map_option (\<lambda>e. (rce_nodeId e, rce_expiresAt e)) (mget (rc_entries c) k)"

definition rc_invar :: "routeCache \<Rightarrow> bool" where
  "rc_invar c \<longleftrightarrow> mwf (rc_entries c)"

lemma rc_put_size: "msize (rc_entries (rc_put t t' k v c)) \<le> routeCacheMaxEntries"
proof -
  have "msize (mput k x es) \<le> routeCacheMaxEntries" if "msize es < routeCacheMaxEntries" for x es
    using msize_mput_le [of k x es] that by simp
  moreover have "msize ([] :: (string, routeCacheEntry) gomap) < routeCacheMaxEntries"
    by (simp add: msize_def routeCacheMaxEntries_def)
  ultimately show ?thesis
    by (auto simp: rc_put_def Let_def not_le)
qed

lemma rc_put_entry:
  "rc_invar c \<Longrightarrow> rc_entry (rc_put t t' k v c) k = Some (v, t' + routeCacheTimeToLive)"
  "rc_invar c \<Longrightarrow> k' \<noteq> k \<Longrightarrow> rc_entry (rc_put t t' k v c) k' = Some x \<Longrightarrow> rc_entry c k' = Some x"
  by (auto simp: rc_put_def rc_entry_def rc_invar_def Let_def gomap_simps split: if_splits option.splits)

lemma rc_put_invar: "rc_invar c \<Longrightarrow> rc_invar (rc_put t t' k v c)"
  by (auto simp: rc_put_def rc_invar_def Let_def intro!: mwf_mput mwf_mpurge mwf_empty)

lemma rc_get_entry:
  "rc_get now k c =
     (case rc_entry c k of None \<Rightarrow> None | Some (v, e) \<Rightarrow> if timeAfter now e then None else Some v)"
  by (simp add: rc_get_def rc_entry_def split: option.splits)

lemma rc_fresh: "rc_invar newRouteCache" "rc_entry newRouteCache k = None"
  "msize (rc_entries newRouteCache) \<le> routeCacheMaxEntries"
  by (simp_all add: rc_invar_def rc_entry_def newRouteCache_def gomap_simps)

lemma rc_invalidate_laws:
  "rc_entry (rc_invalidate k c) k' = (if k' = k then None else rc_entry c k')"
  "rc_invar c \<Longrightarrow> rc_invar (rc_invalidate k c)"
  "msize (rc_entries (rc_invalidate k c)) \<le> msize (rc_entries c)"
  by (simp_all add: rc_invalidate_def rc_entry_def rc_invar_def gomap_simps)

interpretation route_cache: ttl_cache rc_entry "\<lambda>c. msize (rc_entries c)" rc_invar newRouteCache
  "\<lambda>now k c. (rc_get now k c, c)" rc_put rc_invalidate routeCacheTimeToLive routeCacheMaxEntries
  by unfold_locales
     (auto simp: rc_fresh rc_get_entry rc_put_entry(1) rc_put_invar rc_put_size rc_invalidate_laws
       dest: rc_put_entry(2))

subsection \<open>Properties\<close>

text \<open>C25: After any history of operations, a route the cache answers with is the one last stored for
  that user, no invalidation came after it, and it was stored at most fifteen seconds ago.\<close>

theorem route_is_last_stored:
  assumes "rc_get now userId (cache_run (\<lambda>now k c. (rc_get now k c, c)) rc_put rc_invalidate ops newRouteCache)
    = Some nodeId"
  shows "\<exists>t. last_store userId ops = Some (nodeId, t) \<and> now \<le> t + 15 * second"
  using route_cache.lookup_run [of now userId ops nodeId] assms by (simp add: routeCacheTimeToLive_def)

theorem route_is_last_stored_witness:
  "\<exists>t. last_store ''bob'' [CStore 0 5 ''bob'' ''node-b''] = Some (''node-b'', t) \<and> 10 \<le> t + 15 * second"
  using route_is_last_stored [of 10 "''bob''" "[CStore 0 5 ''bob'' ''node-b'']" "''node-b''"]
  by (simp add: cache_run_def rc_put_def newRouteCache_def rc_get_def msize_def routeCacheMaxEntries_def
      mput_def timeAfter_def routeCacheTimeToLive_def second_def)

text \<open>The cache never holds more than 4096 routes, whatever names clients ask for, and a route
  that was just stored is found even when the cache was full.\<close>

theorem route_cache_bounded:
  "msize (rc_entries (cache_run (\<lambda>now k c. (rc_get now k c, c)) rc_put rc_invalidate ops newRouteCache)) \<le> 4096
   \<and> rc_get t' userId (rc_put t t' userId nodeId
        (cache_run (\<lambda>now k c. (rc_get now k c, c)) rc_put rc_invalidate ops newRouteCache)) = Some nodeId"
  using route_cache.size_run [of ops] route_cache.lookup_after_store [of t' t' userId t nodeId ops]
  by (simp add: routeCacheMaxEntries_def routeCacheTimeToLive_def second_def)

end
