(* ===== verification/Database.thy ===== *)
theory Database
  imports Models
begin

text \<open>
  The user and node operations of \<^verbatim>\<open>db/users.go\<close> and \<^verbatim>\<open>db/nodes.go\<close>, on a state with the two
  tables. Every operation takes the error the database connection may give it
  (\<open>fault\<close>): with one, it returns that error and leaves the tables as they are, since each
  operation is a single statement or a transaction. Statements that stamp a row take the
  time they read.
\<close>

record database =
  db_users :: "(string, user_row) gomap"
  db_nodes :: "(string, node) gomap"

definition empty_database :: database where
  "empty_database = \<lparr>db_users = [], db_nodes = []\<rparr>"

type_synonym fault = "goerror option"

section \<open>Users\<close>

definition listUsers :: "fault \<Rightarrow> (user_row \<Rightarrow> bool) \<Rightarrow> database \<Rightarrow> user list res" where
  "listUsers fault cond db =
     (case fault of
        Some e \<Rightarrow> Inl e
      | None \<Rightarrow> Inr (map (load_user False False) (filter cond (map snd (db_users db)))))"

definition db_ListUsers :: "fault \<Rightarrow> database \<Rightarrow> user list res" where
  "db_ListUsers fault db = listUsers fault (\<lambda>_. True) db"

definition db_ListOnlineUsers :: "fault \<Rightarrow> gotime \<Rightarrow> database \<Rightarrow> user list res" where
  "db_ListOnlineUsers fault since db =
     listUsers fault (\<lambda>r. case ur_online_at r of None \<Rightarrow> False | Some t \<Rightarrow> t > since) db"

definition db_GetUsers :: "fault \<Rightarrow> string list \<Rightarrow> database \<Rightarrow> user list res" where
  "db_GetUsers fault userIds db =
     (if userIds = [] then Inr [] else listUsers fault (\<lambda>r. ur_id r \<in> set userIds) db)"

text \<open>The SQL condition \<^verbatim>\<open>userNodeGone\<close>: the row's node is NULL, empty, or not among the nodes
  that are online with a heartbeat after \<open>staleBefore\<close>.\<close>

definition liveNodeIds :: "gotime \<Rightarrow> database \<Rightarrow> string list" where
  "liveNodeIds staleBefore db =
     map nd_ID (filter (\<lambda>n. nd_Online n \<and> nd_OnlineAt n > staleBefore) (map snd (db_nodes db)))"

definition userNodeGone :: "gotime \<Rightarrow> database \<Rightarrow> user_row \<Rightarrow> bool" where
  "userNodeGone staleBefore db r =
     (case ur_node_id r of
        None \<Rightarrow> True
      | Some n \<Rightarrow> n = [] \<or> n \<notin> set (liveNodeIds staleBefore db))"

definition update_users :: "(user_row \<Rightarrow> bool) \<Rightarrow> (user_row \<Rightarrow> user_row) \<Rightarrow> database \<Rightarrow> database" where
  "update_users cond f db =
     db\<lparr>db_users := map (\<lambda>(k, r). (k, if cond r then f r else r)) (db_users db)\<rparr>"

definition db_MarkUsersOnline ::
    "fault \<Rightarrow> gotime \<Rightarrow> string list \<Rightarrow> string \<Rightarrow> duration \<Rightarrow> database \<Rightarrow> unit res \<times> database" where
  "db_MarkUsersOnline fault now userIds nodeId nodeStaleAfter db =
     (if userIds = [] then (Inr (), db)
      else case fault of
        Some e \<Rightarrow> (Inl e, db)
      | None \<Rightarrow>
          if nodeId = [] then
            (Inr (), update_users (\<lambda>r. ur_id r \<in> set userIds) (\<lambda>r. r\<lparr>ur_online_at := Some now\<rparr>) db)
          else
            (let staleBefore = now - nodeStaleAfter
             in (Inr (), update_users (\<lambda>r. ur_id r \<in> set userIds)
                  (\<lambda>r. r\<lparr>ur_online_at := Some now,
                         ur_modified_at := (if userNodeGone staleBefore db r then now else ur_modified_at r),
                         ur_node_id := (if userNodeGone staleBefore db r then Some nodeId else ur_node_id r)\<rparr>)
                  db)))"

definition db_ClearUserNodeID ::
    "fault \<Rightarrow> gotime \<Rightarrow> string \<Rightarrow> string \<Rightarrow> database \<Rightarrow> unit res \<times> database" where
  "db_ClearUserNodeID fault now userId nodeId db =
     (case fault of
        Some e \<Rightarrow> (Inl e, db)
      | None \<Rightarrow>
          (Inr (), update_users (\<lambda>r. ur_id r = userId \<and> ur_node_id r = Some nodeId)
             (\<lambda>r. r\<lparr>ur_node_id := Some [], ur_modified_at := now\<rparr>) db))"

definition db_GetUser :: "fault \<Rightarrow> string \<Rightarrow> database \<Rightarrow> user option res" where
  "db_GetUser fault userId db =
     (case fault of
        Some e \<Rightarrow> Inl e
      | None \<Rightarrow> Inr (map_option (load_user True False) (mget (db_users db) userId)))"

definition db_GetUserScreenshot :: "fault \<Rightarrow> string \<Rightarrow> database \<Rightarrow> byte list res" where
  "db_GetUserScreenshot fault userId db =
     (case fault of
        Some e \<Rightarrow> Inl e
      | None \<Rightarrow>
          Inr (case mget (db_users db) userId of None \<Rightarrow> [] | Some r \<Rightarrow> nullable [] (ur_screenshot r)))"

definition db_GetUserNodeID :: "fault \<Rightarrow> string \<Rightarrow> database \<Rightarrow> string res" where
  "db_GetUserNodeID fault userId db =
     (case fault of
        Some e \<Rightarrow> Inl e
      | None \<Rightarrow>
          Inr (case mget (db_users db) userId of None \<Rightarrow> [] | Some r \<Rightarrow> nullable [] (ur_node_id r)))"

text \<open>
  \<^verbatim>\<open>INSERT ... ON CONFLICT (id) DO UPDATE ... RETURNING\<close>: a new row is the saved model; an
  existing one gets the new address and location, and its presence columns only while the
  account is not disabled. The returned user has the stored light columns.
\<close>

definition connect_model :: "gotime \<Rightarrow> string \<Rightarrow> string \<Rightarrow> location \<Rightarrow> string \<Rightarrow> user" where
  "connect_model now userId ip loc nodeId =
     zero_user\<lparr>us_ID := userId, us_CreatedAt := now, us_ModifiedAt := now, us_IP := ip,
               us_Location := loc, us_NodeID := nodeId, us_OnlineAt := now\<rparr>"

definition connect_conflict :: "gotime \<Rightarrow> string \<Rightarrow> location \<Rightarrow> string \<Rightarrow> user_row \<Rightarrow> user_row" where
  "connect_conflict now ip loc nodeId r =
     r\<lparr>ur_modified_at := now, ur_ip := ip, ur_location := loc,
       ur_node_id := (if ur_disabled r = Some True then ur_node_id r else Some nodeId),
       ur_online_at := (if ur_disabled r = Some True then ur_online_at r else Some now)\<rparr>"

definition db_UpsertUserOnConnect ::
    "fault \<Rightarrow> gotime \<Rightarrow> string \<Rightarrow> string \<Rightarrow> location \<Rightarrow> string \<Rightarrow> database \<Rightarrow> user res \<times> database" where
  "db_UpsertUserOnConnect fault now userId ip loc nodeId db =
     (case fault of
        Some e \<Rightarrow> (Inl e, db)
      | None \<Rightarrow>
          (let row = (case mget (db_users db) userId of
                        None \<Rightarrow> save_user (connect_model now userId ip loc nodeId)
                      | Some r \<Rightarrow> connect_conflict now ip loc nodeId r)
           in (Inr (load_user False False row), db\<lparr>db_users := mput userId row (db_users db)\<rparr>)))"

definition updateUserColumn ::
    "fault \<Rightarrow> gotime \<Rightarrow> string \<Rightarrow> (user_row \<Rightarrow> user_row) \<Rightarrow> database \<Rightarrow> unit res \<times> database" where
  "updateUserColumn fault now userId setColumn db =
     (case fault of
        Some e \<Rightarrow> (Inl e, db)
      | None \<Rightarrow>
          (case mget (db_users db) userId of
             None \<Rightarrow> (Inl ErrRecordNotFound, db)
           | Some r \<Rightarrow>
               (Inr (), db\<lparr>db_users :=
                  mput userId ((setColumn r)\<lparr>ur_modified_at := now\<rparr>) (db_users db)\<rparr>)))"

definition db_UpdateUserStatus ::
    "fault \<Rightarrow> gotime \<Rightarrow> string \<Rightarrow> status \<Rightarrow> database \<Rightarrow> unit res \<times> database" where
  "db_UpdateUserStatus fault now userId status db =
     updateUserColumn fault now userId (\<lambda>r. r\<lparr>ur_status := status_value status\<rparr>) db"

definition db_UpdateUserScreenshot ::
    "fault \<Rightarrow> gotime \<Rightarrow> string \<Rightarrow> byte list \<Rightarrow> database \<Rightarrow> unit res \<times> database" where
  "db_UpdateUserScreenshot fault now userId screenshot db =
     updateUserColumn fault now userId (\<lambda>r. r\<lparr>ur_screenshot := Some screenshot\<rparr>) db"

definition db_PutUser ::
    "fault \<Rightarrow> gotime \<Rightarrow> string \<Rightarrow> (user \<Rightarrow> user res) \<Rightarrow> database \<Rightarrow> user res \<times> database" where
  "db_PutUser fault now userId modifier db =
     (case fault of
        Some e \<Rightarrow> (Inl e, db)
      | None \<Rightarrow>
          (let found = mget (db_users db) userId;
               create = (found = None)
           in case modifier (case found of None \<Rightarrow> zero_user | Some r \<Rightarrow> load_user True True r) of
                Inl e \<Rightarrow> (Inl e, db)
              | Inr m \<Rightarrow>
                  (let m1 = m\<lparr>us_ID := userId\<rparr>;
                       m2 = (if create then m1\<lparr>us_CreatedAt := now\<rparr> else m1);
                       m3 = m2\<lparr>us_ModifiedAt := now\<rparr>
                   in (Inr m3, db\<lparr>db_users := mput userId (save_user m3) (db_users db)\<rparr>))))"

section \<open>Nodes\<close>

definition db_ListNodes :: "fault \<Rightarrow> database \<Rightarrow> node list res" where
  "db_ListNodes fault db = (case fault of Some e \<Rightarrow> Inl e | None \<Rightarrow> Inr (map snd (db_nodes db)))"

definition db_GetNode :: "fault \<Rightarrow> string \<Rightarrow> database \<Rightarrow> node option res" where
  "db_GetNode fault nodeId db =
     (case fault of Some e \<Rightarrow> Inl e | None \<Rightarrow> Inr (mget (db_nodes db) nodeId))"

definition db_PutNode ::
    "fault \<Rightarrow> gotime \<Rightarrow> string \<Rightarrow> (node \<Rightarrow> node res) \<Rightarrow> database \<Rightarrow> node res \<times> database" where
  "db_PutNode fault now nodeId modifier db =
     (case fault of
        Some e \<Rightarrow> (Inl e, db)
      | None \<Rightarrow>
          (let found = mget (db_nodes db) nodeId;
               create = (found = None)
           in case modifier (case found of None \<Rightarrow> zero_node | Some n \<Rightarrow> n) of
                Inl e \<Rightarrow> (Inl e, db)
              | Inr m \<Rightarrow>
                  (let m1 = m\<lparr>nd_ID := nodeId\<rparr>;
                       m2 = (if create then m1\<lparr>nd_CreatedAt := now\<rparr> else m1);
                       m3 = m2\<lparr>nd_ModifiedAt := now\<rparr>
                   in (Inr m3, db\<lparr>db_nodes := mput nodeId m3 (db_nodes db)\<rparr>))))"

section \<open>Well-formed tables\<close>

definition db_wf :: "database \<Rightarrow> bool" where
  "db_wf db \<longleftrightarrow> mwf (db_users db) \<and> (\<forall>(k, r) \<in> set (db_users db). ur_id r = k)
     \<and> mwf (db_nodes db) \<and> (\<forall>(k, n) \<in> set (db_nodes db). nd_ID n = k)"

definition user_row_of :: "database \<Rightarrow> string \<Rightarrow> user_row option" where
  "user_row_of db u = mget (db_users db) u"

lemma set_mput: "set (mput k v m) \<subseteq> insert (k, v) (set m)"
  by (induction m) (auto simp: mput_def)

lemma db_wf_empty: "db_wf empty_database"
  by (simp add: db_wf_def empty_database_def gomap_simps)

lemma db_wf_user_id: "db_wf db \<Longrightarrow> mget (db_users db) u = Some r \<Longrightarrow> ur_id r = u"
  by (auto simp: db_wf_def dest: mget_Some_in)

lemma db_wf_put_user: "db_wf db \<Longrightarrow> ur_id r = u \<Longrightarrow> db_wf (db\<lparr>db_users := mput u r (db_users db)\<rparr>)"
  using set_mput [of u r "db_users db"] by (auto simp: db_wf_def gomap_simps)

lemma db_wf_put_node: "db_wf db \<Longrightarrow> nd_ID n = k \<Longrightarrow> db_wf (db\<lparr>db_nodes := mput k n (db_nodes db)\<rparr>)"
  using set_mput [of k n "db_nodes db"] by (auto simp: db_wf_def gomap_simps)

lemma map_of_map_row: "map_of (map (\<lambda>(k, r). (k, f r)) m) u = map_option f (map_of m u)"
  by (induction m) auto

lemma update_users_row:
  "mget (db_users (update_users cond f db)) u =
     map_option (\<lambda>r. if cond r then f r else r) (mget (db_users db) u)"
  by (simp add: update_users_def map_of_map_row)

lemma update_users_nodes [simp]: "db_nodes (update_users cond f db) = db_nodes db"
  by (simp add: update_users_def)

lemma db_wf_update_users: "db_wf db \<Longrightarrow> (\<And>r. ur_id (f r) = ur_id r) \<Longrightarrow> db_wf (update_users cond f db)"
  by (auto simp: db_wf_def update_users_def mwf_def comp_def case_prod_unfold)

text \<open>Every operation keeps the tables well formed.\<close>

lemma db_wf_ops:
  assumes "db_wf db"
  shows "db_wf (snd (db_MarkUsersOnline fault now ids n stale db))"
    and "db_wf (snd (db_ClearUserNodeID fault now u n db))"
    and "db_wf (snd (db_UpsertUserOnConnect fault now u ip loc n db))"
    and "db_wf (snd (db_UpdateUserStatus fault now u st db))"
    and "db_wf (snd (db_UpdateUserScreenshot fault now u sc db))"
    and "db_wf (snd (db_PutUser fault now u md db))"
    and "db_wf (snd (db_PutNode fault now n nmd db))"
proof -
  show "db_wf (snd (db_MarkUsersOnline fault now ids n stale db))"
    using assms by (auto simp: db_MarkUsersOnline_def Let_def split: option.splits intro!: db_wf_update_users)
  show "db_wf (snd (db_ClearUserNodeID fault now u n db))"
    using assms by (auto simp: db_ClearUserNodeID_def split: option.splits intro!: db_wf_update_users)
  show "db_wf (snd (db_UpsertUserOnConnect fault now u ip loc n db))"
    using assms by (auto simp: db_UpsertUserOnConnect_def Let_def connect_conflict_def connect_model_def
        save_user_def db_wf_user_id split: option.splits intro!: db_wf_put_user)
  show "db_wf (snd (db_UpdateUserStatus fault now u st db))"
    using assms by (auto simp: db_UpdateUserStatus_def updateUserColumn_def db_wf_user_id
        split: option.splits intro!: db_wf_put_user)
  show "db_wf (snd (db_UpdateUserScreenshot fault now u sc db))"
    using assms by (auto simp: db_UpdateUserScreenshot_def updateUserColumn_def db_wf_user_id
        split: option.splits intro!: db_wf_put_user)
  show "db_wf (snd (db_PutUser fault now u md db))"
    using assms by (auto simp: db_PutUser_def Let_def save_user_def
        split: option.splits sum.splits intro!: db_wf_put_user)
  show "db_wf (snd (db_PutNode fault now n nmd db))"
    using assms by (auto simp: db_PutNode_def Let_def split: option.splits sum.splits intro!: db_wf_put_node)
qed

section \<open>The presence interface\<close>

text \<open>
  What the heartbeat and the routing code rely on: which node a known user is on, which
  nodes count as live, and how a heartbeat (\<open>mark\<close>) and a release (\<open>clear\<close>) change that.
\<close>

locale presence_store =
  fixes invar :: "'db \<Rightarrow> bool"
    and node_of :: "'db \<Rightarrow> string \<Rightarrow> string option"
    and live :: "gotime \<Rightarrow> 'db \<Rightarrow> string \<Rightarrow> bool"
    and mark :: "gotime \<Rightarrow> string list \<Rightarrow> string \<Rightarrow> duration \<Rightarrow> 'db \<Rightarrow> 'db"
    and clear :: "gotime \<Rightarrow> string \<Rightarrow> string \<Rightarrow> 'db \<Rightarrow> 'db"
  assumes invar_mark: "invar db \<Longrightarrow> invar (mark now ids n stale db)"
    and invar_clear: "invar db \<Longrightarrow> invar (clear now u n db)"
    and mark_node: "invar db \<Longrightarrow> n \<noteq> [] \<Longrightarrow> node_of (mark now ids n stale db) u =
        map_option (\<lambda>m. if u \<in> set ids \<and> \<not> live (now - stale) db m then n else m) (node_of db u)"
    and mark_live: "live sb (mark now ids n stale db) m = live sb db m"
    and clear_node: "invar db \<Longrightarrow> n \<noteq> [] \<Longrightarrow> node_of (clear now u n db) u' =
        (if u' = u \<and> node_of db u = Some n then Some [] else node_of db u')"
    and clear_live: "live sb (clear now u n db) m = live sb db m"
    and live_nonempty: "\<not> live sb db []"
begin

lemma release_all:
  assumes "invar db" and "n \<noteq> []"
  shows "invar (fold (\<lambda>u. clear now u n) us db)
    \<and> node_of (fold (\<lambda>u. clear now u n) us db) u =
        (if u \<in> set us \<and> node_of db u = Some n then Some [] else node_of db u)"
  using assms
proof (induction us arbitrary: db)
  case Nil
  then show ?case by simp
next
  case (Cons w us)
  have "invar (clear now w n db)" using Cons.prems(1) by (rule invar_clear)
  from Cons.IH [OF this] Cons.prems show ?case by (auto simp: clear_node)
qed

text \<open>A heartbeat of the node \<open>n\<close> and the release of those who left meanwhile.\<close>

lemma beat_and_release:
  assumes "invar db" and "n \<noteq> []" and "node_of db u = Some m"
  shows "node_of (fold (\<lambda>u. clear now' u n) gone (mark now ids n stale db)) u =
     Some (if u \<in> set ids \<and> \<not> live (now - stale) db m then (if u \<in> set gone then [] else n)
           else if u \<in> set gone \<and> m = n then [] else m)"
  using assms release_all [OF invar_mark [OF assms(1)] assms(2)]
  by (auto simp: mark_node)

text \<open>Heartbeats of any nodes leave a user on the node they are on while that node is live.\<close>

lemma live_node_stable:
  assumes "invar db" and "node_of db u = Some m"
    and "\<forall>(now, ids, n, stale) \<in> set beats. n \<noteq> [] \<and> live (now - stale) db m"
  shows "node_of (fold (\<lambda>(now, ids, n, stale). mark now ids n stale) beats db) u = Some m"
  using assms
proof (induction beats arbitrary: db)
  case Nil
  then show ?case by simp
next
  case (Cons b beats)
  obtain now ids n stale where b: "b = (now, ids, n, stale)" by (metis surj_pair)
  have "invar (mark now ids n stale db)" using Cons.prems(1) by (rule invar_mark)
  moreover have "node_of (mark now ids n stale db) u = Some m"
    using Cons.prems b by (simp add: mark_node)
  ultimately show ?case
    using Cons b by (simp add: mark_live case_prod_unfold)
qed

end

definition user_node :: "database \<Rightarrow> string \<Rightarrow> string option" where
  "user_node db u = map_option (\<lambda>r. nullable [] (ur_node_id r)) (mget (db_users db) u)"

definition node_live :: "gotime \<Rightarrow> database \<Rightarrow> string \<Rightarrow> bool" where
  "node_live staleBefore db n \<longleftrightarrow> n \<noteq> [] \<and> n \<in> set (liveNodeIds staleBefore db)"

lemma userNodeGone_live: "userNodeGone sb db r \<longleftrightarrow> \<not> node_live sb db (nullable [] (ur_node_id r))"
  by (auto simp: userNodeGone_def node_live_def split: option.splits)

lemma liveNodeIds_nodes: "db_nodes db' = db_nodes db \<Longrightarrow> liveNodeIds sb db' = liveNodeIds sb db"
  by (simp add: liveNodeIds_def)

lemma db_ops_nodes:
  "db_nodes (snd (db_MarkUsersOnline fault now ids n stale db)) = db_nodes db"
  "db_nodes (snd (db_ClearUserNodeID fault now u n db)) = db_nodes db"
  "db_nodes (snd (db_UpsertUserOnConnect fault now u ip loc n db)) = db_nodes db"
  by (auto simp: db_MarkUsersOnline_def db_ClearUserNodeID_def db_UpsertUserOnConnect_def Let_def
      split: option.splits)

lemma mark_user_node:
  assumes "db_wf db" and "n \<noteq> []"
  shows "user_node (snd (db_MarkUsersOnline None now ids n stale db)) u =
     map_option (\<lambda>m. if u \<in> set ids \<and> \<not> node_live (now - stale) db m then n else m) (user_node db u)"
proof (cases "mget (db_users db) u")
  case None
  then show ?thesis
    by (simp add: user_node_def db_MarkUsersOnline_def Let_def update_users_row)
next
  case (Some r)
  with assms(1) have "ur_id r = u" by (rule db_wf_user_id)
  with Some assms(2) show ?thesis
    by (auto simp: user_node_def db_MarkUsersOnline_def Let_def update_users_row userNodeGone_live)
qed

lemma clear_user_node:
  assumes "db_wf db" and "n \<noteq> []"
  shows "user_node (snd (db_ClearUserNodeID None now u n db)) u' =
     (if u' = u \<and> user_node db u = Some n then Some [] else user_node db u')"
proof (cases "mget (db_users db) u'")
  case None
  then show ?thesis
    by (auto simp: user_node_def db_ClearUserNodeID_def update_users_row)
next
  case (Some r)
  with assms(1) have "ur_id r = u'" by (rule db_wf_user_id)
  with Some assms(2) show ?thesis
    by (auto simp: user_node_def db_ClearUserNodeID_def update_users_row nullable_def split: option.splits)
qed

interpretation presence: presence_store db_wf user_node node_live
  "\<lambda>now ids n stale db. snd (db_MarkUsersOnline None now ids n stale db)"
  "\<lambda>now u n db. snd (db_ClearUserNodeID None now u n db)"
  by unfold_locales
     (auto simp: db_wf_ops mark_user_node clear_user_node node_live_def db_ops_nodes
       liveNodeIds_nodes [OF db_ops_nodes(1)] liveNodeIds_nodes [OF db_ops_nodes(2)])

end
