(* ===== verification/Auth.thy ===== *)
theory Auth
  imports Cert Database TtlCache
begin

text \<open>
  \<^verbatim>\<open>auth/auth.go\<close>: who may log in and with which extensions. \<open>authenticate\<close> is the whole
  callback, the peer branch included; the state is the cache of login flags together with
  the shared database. A login that is decided from cached flags is recorded by a
  goroutine, which is a step of its own (\<open>recordLoginWrite\<close>, then \<open>recordLoginCache\<close>), so
  that other operations can run before and between its two halves.

  Parameters: \<open>verify\<close> (signature of a certificate), \<open>geoip\<close> (the location database: None
  when it cannot be opened, and a reader that may fail for an address). The clock is read
  several times in one call; \<open>clk i\<close> is the i-th reading.
\<close>

definition PeerUser :: string where
  "PeerUser = ''peer''"

record authSettings =
  as_CAPublicKeys :: "byte list list"
  as_PeerCAPublicKeys :: "byte list list"
  as_NodeID :: string

definition userFlagsTimeToLive :: duration where
  "userFlagsTimeToLive = 60 * second"

definition userFlagsMaxEntries :: nat where
  "userFlagsMaxEntries = 4096"

record userFlags =
  uf_administrator :: bool
  uf_disabled :: bool
  uf_expiresAt :: gotime

type_synonym flagsCache = "(string, userFlags) gomap"

record authState =
  au_userFlags :: flagsCache
  au_database :: database

section \<open>The cache of login flags\<close>

definition getUserFlags :: "gotime \<Rightarrow> string \<Rightarrow> flagsCache \<Rightarrow> userFlags option \<times> flagsCache" where
  "getUserFlags now userId cache =
     (case mget cache userId of
        None \<Rightarrow> (None, cache)
      | Some flags \<Rightarrow>
          if timeAfter now (uf_expiresAt flags) then (None, mdel userId cache)
          else (Some flags, cache))"

definition putUserFlags :: "gotime \<Rightarrow> gotime \<Rightarrow> string \<Rightarrow> user \<Rightarrow> flagsCache \<Rightarrow> flagsCache" where
  "putUserFlags now now' userId user cache =
     (let cache1 = (if msize cache \<ge> userFlagsMaxEntries
                    then (let c = mpurge (\<lambda>f. timeAfter now (uf_expiresAt f)) cache
                          in if msize c \<ge> userFlagsMaxEntries then [] else c)
                    else cache)
      in mput userId \<lparr>uf_administrator = us_Administrator user, uf_disabled = us_Disabled user,
                      uf_expiresAt = now' + userFlagsTimeToLive\<rparr> cache1)"

definition revokeUserFlags :: "string \<Rightarrow> flagsCache \<Rightarrow> flagsCache" where
  "revokeUserFlags userId cache = mdel userId cache"

section \<open>Authentication\<close>

record geoRecord =
  gr_ISOCode :: string
  gr_Latitude :: "u64 option"
  gr_Longitude :: "u64 option"
  gr_CityName :: string
  gr_TimeZone :: string

definition lookupLocation :: "(string \<Rightarrow> geoRecord option) option \<Rightarrow> string \<Rightarrow> location" where
  "lookupLocation geoip ip =
     (case geoip of
        None \<Rightarrow> zero_location
      | Some city \<Rightarrow>
          (case city ip of
             None \<Rightarrow> zero_location
           | Some r \<Rightarrow>
               zero_location\<lparr>loc_Country := gr_ISOCode r,
                 loc_Latitude := nullable 0 (gr_Latitude r),
                 loc_Longitude := nullable 0 (gr_Longitude r),
                 loc_City := gr_CityName r, loc_TimeZone := gr_TimeZone r\<rparr>))"

record connMeta =
  cm_User :: string
  cm_RemoteIP :: string

definition isAuthority :: "byte list list \<Rightarrow> byte list \<Rightarrow> bool" where
  "isAuthority cas key \<longleftrightarrow> list_ex (\<lambda>ca. ca = key) cas"

definition authenticatePeer ::
    "(certificate \<Rightarrow> bool) \<Rightarrow> authSettings \<Rightarrow> gotime \<Rightarrow> connMeta \<Rightarrow> publicKey \<Rightarrow> permissions res" where
  "authenticatePeer verify settings now meta key =
     (if as_PeerCAPublicKeys settings = [] then Inl ErrInvalidCredentials
      else case certAuthenticate verify (isAuthority (as_PeerCAPublicKeys settings)) now (cm_User meta) key of
        Inl e \<Rightarrow> Inl e
      | Inr _ \<Rightarrow>
          (case key of
             PlainKey _ \<Rightarrow> Inl ErrInvalidCredentials
           | CertKey certificate \<Rightarrow>
               if ct_KeyId certificate = [] then Inl ErrInvalidCredentials
               else Inr \<lparr>pm_CriticalOptions = [],
                         pm_Extensions = [(''peer'', []), (''identity'', ct_KeyId certificate)]\<rparr>))"

definition grantedPermissions :: "bool \<Rightarrow> permissions \<Rightarrow> permissions" where
  "grantedPermissions administrator permissions =
     (let exts = mdel ''identity'' (mdel ''peer'' (pm_Extensions permissions))
      in permissions\<lparr>pm_Extensions :=
           (if administrator then mput ''administrator'' [] exts else exts)\<rparr>)"

text \<open>The result, the state after the call, and whether the login is recorded by a goroutine.\<close>

definition authenticate ::
    "(certificate \<Rightarrow> bool) \<Rightarrow> (string \<Rightarrow> geoRecord option) option \<Rightarrow> authSettings \<Rightarrow> fault \<Rightarrow>
     (nat \<Rightarrow> gotime) \<Rightarrow> connMeta \<Rightarrow> publicKey \<Rightarrow> authState \<Rightarrow> permissions res \<times> authState \<times> bool" where
  "authenticate verify geoip settings fault clk meta key st =
     (if cm_User meta = PeerUser
      then (authenticatePeer verify settings (clk 0) meta key, st, False)
      else
        let loc = lookupLocation geoip (cm_RemoteIP meta);
            userId = cm_User meta
        in case certAuthenticate verify (isAuthority (as_CAPublicKeys settings)) (clk 0) userId key of
             Inl e \<Rightarrow> (Inl e, st, False)
           | Inr permissions \<Rightarrow>
               (case getUserFlags (clk 1) userId (au_userFlags st) of
                  (Some flags, cache) \<Rightarrow>
                    if uf_disabled flags
                    then (Inl ErrInvalidCredentials, st\<lparr>au_userFlags := cache\<rparr>, False)
                    else (Inr (grantedPermissions (uf_administrator flags) permissions),
                          st\<lparr>au_userFlags := cache\<rparr>, True)
                | (None, cache) \<Rightarrow>
                    (case db_UpsertUserOnConnect fault (clk 2) userId (cm_RemoteIP meta) loc
                            (as_NodeID settings) (au_database st) of
                       (Inl e, db) \<Rightarrow> (Inl e, st\<lparr>au_userFlags := cache, au_database := db\<rparr>, False)
                     | (Inr user, db) \<Rightarrow>
                         let st' = st\<lparr>au_userFlags := putUserFlags (clk 3) (clk 4) userId user cache,
                                      au_database := db\<rparr>
                         in if us_Disabled user then (Inl ErrInvalidCredentials, st', False)
                            else (Inr (grantedPermissions (us_Administrator user) permissions), st', False))))"

text \<open>The goroutine that records a login decided from cached flags, in its two atomic halves.\<close>

definition recordLoginWrite ::
    "(string \<Rightarrow> geoRecord option) option \<Rightarrow> authSettings \<Rightarrow> fault \<Rightarrow> gotime \<Rightarrow> connMeta \<Rightarrow>
     authState \<Rightarrow> user res \<times> authState" where
  "recordLoginWrite geoip settings fault now meta st =
     (let (r, db) = db_UpsertUserOnConnect fault now (cm_User meta) (cm_RemoteIP meta)
                      (lookupLocation geoip (cm_RemoteIP meta)) (as_NodeID settings) (au_database st)
      in (r, st\<lparr>au_database := db\<rparr>))"

definition recordLoginCache :: "gotime \<Rightarrow> gotime \<Rightarrow> string \<Rightarrow> user res \<Rightarrow> authState \<Rightarrow> authState" where
  "recordLoginCache now now' userId r st =
     (case r of
        Inl e \<Rightarrow> st
      | Inr user \<Rightarrow> st\<lparr>au_userFlags := putUserFlags now now' userId user (au_userFlags st)\<rparr>)"

text \<open>The callback as the server calls it, without the goroutine.\<close>

definition publicKeyCallback ::
    "(certificate \<Rightarrow> bool) \<Rightarrow> (string \<Rightarrow> geoRecord option) option \<Rightarrow> authSettings \<Rightarrow> fault \<Rightarrow>
     (nat \<Rightarrow> gotime) \<Rightarrow> connMeta \<Rightarrow> publicKey \<Rightarrow> authState \<Rightarrow> permissions res \<times> authState" where
  "publicKeyCallback verify geoip settings fault clk meta key st =
     (case authenticate verify geoip settings fault clk meta key st of (r, st', _) \<Rightarrow> (r, st'))"

section \<open>The flags cache keeps the cache contract\<close>

definition uf_entry :: "flagsCache \<Rightarrow> string \<Rightarrow> ((bool \<times> bool) \<times> gotime) option" where
  "uf_entry c k = map_option (\<lambda>f. ((uf_administrator f, uf_disabled f), uf_expiresAt f)) (mget c k)"

definition flagsUser :: "bool \<times> bool \<Rightarrow> user" where
  "flagsUser v = zero_user\<lparr>us_Administrator := fst v, us_Disabled := snd v\<rparr>"

definition getFlags :: "gotime \<Rightarrow> string \<Rightarrow> flagsCache \<Rightarrow> (bool \<times> bool) option \<times> flagsCache" where
  "getFlags now k c =
     (map_option (\<lambda>f. (uf_administrator f, uf_disabled f)) (fst (getUserFlags now k c)),
      snd (getUserFlags now k c))"

definition putFlags :: "gotime \<Rightarrow> gotime \<Rightarrow> string \<Rightarrow> bool \<times> bool \<Rightarrow> flagsCache \<Rightarrow> flagsCache" where
  "putFlags now now' k v c = putUserFlags now now' k (flagsUser v) c"

lemma putUserFlags_putFlags:
  "putUserFlags now now' k user c = putFlags now now' k (us_Administrator user, us_Disabled user) c"
  by (simp add: putFlags_def putUserFlags_def flagsUser_def)

lemma putUserFlags_size: "msize (putUserFlags t t' k u c) \<le> userFlagsMaxEntries"
proof -
  have "msize (mput k x es) \<le> userFlagsMaxEntries" if "msize es < userFlagsMaxEntries" for x es
    using msize_mput_le [of k x es] that by simp
  moreover have "msize ([] :: flagsCache) < userFlagsMaxEntries"
    by (simp add: msize_def userFlagsMaxEntries_def)
  ultimately show ?thesis
    by (auto simp: putUserFlags_def Let_def not_le)
qed

lemma putUserFlags_entry:
  "mwf c \<Longrightarrow> uf_entry (putUserFlags t t' k u c) k =
     Some ((us_Administrator u, us_Disabled u), t' + userFlagsTimeToLive)"
  "mwf c \<Longrightarrow> k' \<noteq> k \<Longrightarrow> uf_entry (putUserFlags t t' k u c) k' = Some x \<Longrightarrow> uf_entry c k' = Some x"
  by (auto simp: putUserFlags_def uf_entry_def Let_def gomap_simps split: if_splits option.splits)

lemma putUserFlags_wf: "mwf c \<Longrightarrow> mwf (putUserFlags t t' k u c)"
  by (auto simp: putUserFlags_def Let_def intro!: mwf_mput mwf_mpurge mwf_empty)

lemma getUserFlags_laws:
  "fst (getFlags now k c) =
     (case uf_entry c k of None \<Rightarrow> None | Some (v, e) \<Rightarrow> if timeAfter now e then None else Some v)"
  "mwf c \<Longrightarrow> mwf (snd (getFlags now k c))"
  "msize (snd (getFlags now k c)) \<le> msize c"
  "uf_entry (snd (getFlags now k c)) k' = Some x \<Longrightarrow> uf_entry c k' = Some x"
  by (auto simp: getFlags_def getUserFlags_def uf_entry_def gomap_simps split: option.splits if_splits)

interpretation flags_cache: ttl_cache uf_entry msize mwf "[]"
  getFlags putFlags revokeUserFlags userFlagsTimeToLive userFlagsMaxEntries
  by unfold_locales
     (auto simp: getUserFlags_laws(1-3) putFlags_def putUserFlags_entry(1) putUserFlags_wf putUserFlags_size
       flagsUser_def revokeUserFlags_def uf_entry_def [of "[]"] gomap_simps
       dest: getUserFlags_laws(4) putUserFlags_entry(2),
      auto simp: uf_entry_def gomap_simps)

section \<open>Who is let in\<close>

lemma isAuthority_iff: "isAuthority cas key \<longleftrightarrow> key \<in> set cas"
  by (auto simp: isAuthority_def list_ex_iff)

lemma granted_simps:
  "mget (pm_Extensions (grantedPermissions a p)) ''peer'' = None"
  "mget (pm_Extensions (grantedPermissions a p)) ''identity'' = None"
  "mget (pm_Extensions (grantedPermissions a p)) ''administrator'' =
     (if a then Some [] else mget (pm_Extensions p) ''administrator'')"
  "x \<notin> {''peer'', ''identity'', ''administrator''} \<Longrightarrow>
     mget (pm_Extensions (grantedPermissions a p)) x = mget (pm_Extensions p) x"
  "pm_CriticalOptions (grantedPermissions a p) = pm_CriticalOptions p"
  by (auto simp: grantedPermissions_def Let_def gomap_simps)

text \<open>The ways a user login is accepted: from the cache or from the row the login wrote.\<close>

lemma authenticate_accepted_cases:
  assumes "authenticate verify geoip s fault clk meta key st = (Inr perms, st', bg)"
    and "cm_User meta \<noteq> PeerUser"
  obtains (cached) p flags where
      "certAuthenticate verify (isAuthority (as_CAPublicKeys s)) (clk 0) (cm_User meta) key = Inr p"
      "fst (getUserFlags (clk 1) (cm_User meta) (au_userFlags st)) = Some flags" "\<not> uf_disabled flags"
      "perms = grantedPermissions (uf_administrator flags) p" "bg" "au_database st' = au_database st"
  | (fetched) p user db where
      "certAuthenticate verify (isAuthority (as_CAPublicKeys s)) (clk 0) (cm_User meta) key = Inr p"
      "fst (getUserFlags (clk 1) (cm_User meta) (au_userFlags st)) = None"
      "db_UpsertUserOnConnect fault (clk 2) (cm_User meta) (cm_RemoteIP meta)
         (lookupLocation geoip (cm_RemoteIP meta)) (as_NodeID s) (au_database st) = (Inr user, db)"
      "\<not> us_Disabled user" "perms = grantedPermissions (us_Administrator user) p" "\<not> bg"
      "au_database st' = db"
  using assms
  by (auto simp: authenticate_def Let_def split: sum.splits prod.splits option.splits if_splits)

lemma authenticate_certified:
  assumes "authenticate verify geoip s fault clk meta key st = (Inr perms, st', bg)"
    and "cm_User meta \<noteq> PeerUser"
  obtains cert a where "key = CertKey cert" "ct_SignatureKey cert \<in> set (as_CAPublicKeys s)"
    "cert_valid_for verify (clk 0) (cm_User meta) cert"
    "perms = grantedPermissions a (ct_Permissions cert)"
  using assms
  by (elim authenticate_accepted_cases) (auto simp: certAuthenticate_iff isAuthority_iff)

text \<open>C2: A user login that is accepted presents a certificate that is valid now for that user
  name and signed by one of the configured user authorities, and the permissions it gets
  are those of the certificate without the extensions peer and identity: no user
  certificate can make its connection a peer connection, whatever its extensions say.
  Every other extension except administrator is exactly the certificate's.\<close>

theorem authenticate_user_sound:
  assumes "authenticate verify geoip s fault clk meta key st = (Inr perms, st', bg)"
    and "cm_User meta \<noteq> PeerUser"
  shows "\<exists>cert. key = CertKey cert \<and> ct_SignatureKey cert \<in> set (as_CAPublicKeys s)
    \<and> cert_valid_for verify (clk 0) (cm_User meta) cert
    \<and> mget (pm_Extensions perms) ''peer'' = None \<and> mget (pm_Extensions perms) ''identity'' = None
    \<and> pm_CriticalOptions perms = pm_CriticalOptions (ct_Permissions cert)
    \<and> (\<forall>x. x \<noteq> ''peer'' \<and> x \<noteq> ''identity'' \<and> x \<noteq> ''administrator'' \<longrightarrow>
          mget (pm_Extensions perms) x = mget (pm_Extensions (ct_Permissions cert)) x)"
  by (rule authenticate_certified [OF assms]) (auto simp: granted_simps)

text \<open>Sample data for the witnesses: a certificate for alice and a login that presents it.\<close>

definition sample_cert :: "(string, string) gomap \<Rightarrow> certificate" where
  "sample_cert exts =
     \<lparr>ct_Key = [1], ct_Serial = 7, ct_CertType = 1, ct_KeyId = ''node-a'', ct_ValidPrincipals = [],
      ct_ValidAfter = 0, ct_ValidBefore = -1,
      ct_Permissions = \<lparr>pm_CriticalOptions = [(''source-address'', ''10.0.0.0/8'')],
                        pm_Extensions = exts\<rparr>,
      ct_SignatureKey = [9], ct_Signature = []\<rparr>"

definition sample_settings :: authSettings where
  "sample_settings = \<lparr>as_CAPublicKeys = [[9]], as_PeerCAPublicKeys = [[9]], as_NodeID = ''node-a''\<rparr>"

definition sample_clock :: "nat \<Rightarrow> gotime" where
  "sample_clock i = 63000000000 * second"

definition sample_state :: authState where
  "sample_state = \<lparr>au_userFlags = [], au_database = empty_database\<rparr>"

definition sample_meta :: "string \<Rightarrow> connMeta" where
  "sample_meta u = \<lparr>cm_User = u, cm_RemoteIP = ''10.1.2.3''\<rparr>"

lemmas sample_defs = sample_cert_def sample_settings_def sample_clock_def sample_state_def sample_meta_def

lemma sample_certAuthenticate:
  "certAuthenticate (\<lambda>_. True) (isAuthority [[9]]) (sample_clock i) u (CertKey (sample_cert exts)) =
     Inr (ct_Permissions (sample_cert exts))"
  by (simp add: certAuthenticate_iff cert_valid_for_def sample_defs isAuthority_def UserCert_def
      CertTimeInfinity_def sourceAddressCriticalOption_def unixSeconds_def second_def)

lemma sample_login:
  "authenticate (\<lambda>_. True) None sample_settings None sample_clock (sample_meta ''alice'')
     (CertKey (sample_cert exts)) sample_state =
   (Inr (grantedPermissions False (ct_Permissions (sample_cert exts))),
    \<lparr>au_userFlags = putUserFlags (sample_clock 3) (sample_clock 4) ''alice'' zero_user [],
     au_database = \<lparr>db_users = [(''alice'', save_user (connect_model (sample_clock 2) ''alice''
       ''10.1.2.3'' zero_location ''node-a''))], db_nodes = []\<rparr>\<rparr>, False)"
  using sample_certAuthenticate [of 0 "''alice''" exts]
  by (simp add: authenticate_def PeerUser_def sample_meta_def sample_settings_def sample_state_def
      getUserFlags_def db_UpsertUserOnConnect_def empty_database_def lookupLocation_def load_user_def
      save_user_def connect_model_def zero_user_def putUserFlags_def mput_def Let_def msize_def
      userFlagsMaxEntries_def)

theorem authenticate_user_sound_witness:
  "\<exists>cert. CertKey (sample_cert [(''peer'', [])]) = CertKey cert
     \<and> ct_SignatureKey cert \<in> set (as_CAPublicKeys sample_settings)
     \<and> cert_valid_for (\<lambda>_. True) (sample_clock 0) ''alice'' cert"
  using authenticate_user_sound [OF sample_login [of "[(''peer'', [])]"]]
  by (simp add: sample_meta_def PeerUser_def)

lemma authenticatePeer_iff:
  "authenticatePeer verify s now meta key = Inr perms \<longleftrightarrow>
     (\<exists>cert. key = CertKey cert \<and> ct_SignatureKey cert \<in> set (as_PeerCAPublicKeys s)
        \<and> cert_valid_for verify now (cm_User meta) cert \<and> ct_KeyId cert \<noteq> []
        \<and> perms = \<lparr>pm_CriticalOptions = [],
                   pm_Extensions = [(''peer'', []), (''identity'', ct_KeyId cert)]\<rparr>)"
proof -
  have checked: "(case r of Inl e \<Rightarrow> Inl e | Inr _ \<Rightarrow> f) = Inr perms \<longleftrightarrow> (\<exists>p. r = Inr p) \<and> f = Inr perms"
    for r :: "permissions res" and f :: "permissions res"
    by (cases r) auto
  show ?thesis
    by (cases key) (auto simp: authenticatePeer_def checked certAuthenticate_iff isAuthority_iff)
qed



section \<open>Which flags decide a login\<close>

text \<open>C19: Whatever operations the flags cache has been through, an accepted user login was
  decided either by the database row written by this very login, which is not disabled,
  or by flags that were stored from a database row that was not disabled at most one
  minute before, and that no kick has revoked since.\<close>

theorem login_flags_fresh:
  assumes "authenticate verify geoip s fault clk meta key st = (Inr perms, st', bg)"
    and "cm_User meta \<noteq> PeerUser"
    and "au_userFlags st = cache_run getFlags putFlags revokeUserFlags ops []"
  shows "(\<exists>user db. db_UpsertUserOnConnect fault (clk 2) (cm_User meta) (cm_RemoteIP meta)
            (lookupLocation geoip (cm_RemoteIP meta)) (as_NodeID s) (au_database st) = (Inr user, db)
            \<and> \<not> us_Disabled user \<and> au_database st' = db)
       \<or> (\<exists>admin t'. last_store (cm_User meta) ops = Some ((admin, False), t')
            \<and> clk 1 \<le> t' + userFlagsTimeToLive)"
proof (rule authenticate_accepted_cases [OF assms(1,2)])
  fix p flags
  assume "fst (getUserFlags (clk 1) (cm_User meta) (au_userFlags st)) = Some flags" "\<not> uf_disabled flags"
  then have "fst (getFlags (clk 1) (cm_User meta) (cache_run getFlags putFlags revokeUserFlags ops []))
      = Some (uf_administrator flags, False)"
    by (simp add: getFlags_def assms(3))
  from flags_cache.lookup_run [OF this] show ?thesis by blast
qed blast

theorem login_flags_fresh_witness:
  "(\<exists>user db. db_UpsertUserOnConnect None (sample_clock 2) ''alice'' ''10.1.2.3'' zero_location ''node-a''
      empty_database = (Inr user, db) \<and> \<not> us_Disabled user)
   \<or> (\<exists>admin t'. last_store ''alice'' ([] :: (bool \<times> bool) cache_op list) = Some ((admin, False), t'))"
  using login_flags_fresh [OF sample_login [of "[]"], of "[]"]
  by (auto simp: sample_meta_def PeerUser_def sample_state_def lookupLocation_def sample_settings_def)

lemma upsert_disabled:
  assumes "mget (db_users db) u = Some r" and "ur_disabled r = Some True"
  shows "db_UpsertUserOnConnect None now u ip loc n db =
     (Inr (load_user False False (connect_conflict now ip loc n r)),
      db\<lparr>db_users := mput u (connect_conflict now ip loc n r) (db_users db)\<rparr>)"
  using assms by (simp add: db_UpsertUserOnConnect_def Let_def)


definition sample_disabled_state :: authState where
  "sample_disabled_state = \<lparr>au_userFlags = [], au_database =
     \<lparr>db_users = [(''alice'', (save_user (zero_user\<lparr>us_ID := ''alice'', us_Disabled := True\<rparr>)))], db_nodes = []\<rparr>\<rparr>"


section \<open>Where the callback and its comments disagree\<close>

text \<open>The callback runs before the client has proved that it holds the private key. A request
  that only asks whether a certificate would do, or whose signature is wrong, is not
  accepted, but for a user who is not in the flags cache and not disabled it already
  records the user as online on this node.\<close>

theorem presence_without_proof:
  assumes "cm_User meta \<noteq> PeerUser"
    and "certAuthenticate verify (isAuthority (as_CAPublicKeys s)) (clk 0) (cm_User meta) (pk_key req) = Inr p"
    and "fst (getUserFlags (clk 1) (cm_User meta) (au_userFlags st)) = None"
    and "case mget (db_users (au_database st)) (cm_User meta) of
           None \<Rightarrow> True | Some r \<Rightarrow> ur_disabled r \<noteq> Some True"
    and "pk_isQuery req \<or> \<not> pk_signatureOk req"
  shows "\<exists>out st' r. publickeyAuth (publicKeyCallback verify geoip s None clk meta) check req st = (out, st')
     \<and> (\<forall>perms. out \<noteq> AuthAccepted perms)
     \<and> mget (db_users (au_database st')) (cm_User meta) = Some r
     \<and> ur_node_id r = Some (as_NodeID s) \<and> ur_online_at r = Some (clk 2)"
proof -
  obtain c where c: "getUserFlags (clk 1) (cm_User meta) (au_userFlags st) = (None, c)"
    using assms(3) by (metis prod.collapse)
  obtain out st' where o: "publickeyAuth (publicKeyCallback verify geoip s None clk meta) check req st = (out, st')"
    by (metis surj_pair)
  have "\<forall>perms. out \<noteq> AuthAccepted perms"
    using o assms(5) by (auto dest: publickeyAuth_accepted)
  moreover have "st' = snd (publicKeyCallback verify geoip s None clk meta (pk_key req) st)"
    using publickeyAuth_state o by (metis snd_conv)
  then have "\<exists>r. mget (db_users (au_database st')) (cm_User meta) = Some r
      \<and> ur_node_id r = Some (as_NodeID s) \<and> ur_online_at r = Some (clk 2)"
    using assms(1,2,4) c
    by (auto simp: publicKeyCallback_def authenticate_def db_UpsertUserOnConnect_def Let_def gomap_simps
        connect_conflict_def connect_model_def save_user_def split: option.splits)
  ultimately show ?thesis using o by blast
qed

theorem presence_without_proof_witness:
  "\<exists>out st' r. publickeyAuth (publicKeyCallback (\<lambda>_. True) None sample_settings None sample_clock
        (sample_meta ''alice'')) (\<lambda>_. True)
        \<lparr>pk_isQuery = True, pk_signatureOk = False, pk_key = CertKey (sample_cert [])\<rparr> sample_state = (out, st')
     \<and> mget (db_users (au_database st')) ''alice'' = Some r \<and> ur_node_id r = Some ''node-a''"
  using presence_without_proof [of "sample_meta ''alice''" "\<lambda>_. True" sample_settings sample_clock
      "\<lparr>pk_isQuery = True, pk_signatureOk = False, pk_key = CertKey (sample_cert [])\<rparr>"
      "ct_Permissions (sample_cert [])" sample_state None "\<lambda>_. True"]
    sample_certAuthenticate [of 0 "''alice''" "[]"]
  by (force simp: sample_meta_def PeerUser_def sample_settings_def sample_state_def getUserFlags_def
      empty_database_def)

text \<open>The source address restriction of a peer certificate is not enforced. The library leaves it
  to the server's check of the permissions the callback returns, and the permissions of a
  peer are built without the certificate's critical options: a peer whose certificate is
  restricted to addresses that exclude the client is accepted all the same.\<close>

theorem peer_source_address_ignored:
  assumes "cm_User meta = PeerUser" and "\<not> pk_isQuery req" and "pk_signatureOk req"
    and "pk_key req = CertKey cert" and "ct_SignatureKey cert \<in> set (as_PeerCAPublicKeys s)"
    and "cert_valid_for verify (clk 0) PeerUser cert" and "ct_KeyId cert \<noteq> []"
    and "\<not> sourceAddressOk check (ct_Permissions cert)"
  shows "\<exists>perms st'. publickeyAuth (publicKeyCallback verify geoip s fault clk meta) check req st
     = (AuthAccepted perms, st')"
proof -
  have "authenticatePeer verify s (clk 0) meta (CertKey cert) = Inr \<lparr>pm_CriticalOptions = [],
      pm_Extensions = [(''peer'', []), (''identity'', ct_KeyId cert)]\<rparr>"
    using assms by (simp add: authenticatePeer_iff)
  then show ?thesis
    using assms by (simp add: publickeyAuth_def publicKeyCallback_def authenticate_def sourceAddressOk_def)
qed

theorem peer_source_address_ignored_witness:
  "\<exists>perms st'. publickeyAuth (publicKeyCallback (\<lambda>_. True) None sample_settings None sample_clock
      (sample_meta ''peer'')) (\<lambda>_. False)
      \<lparr>pk_isQuery = False, pk_signatureOk = True, pk_key = CertKey (sample_cert [])\<rparr> sample_state
     = (AuthAccepted perms, st')"
  using peer_source_address_ignored [of "sample_meta ''peer''"
      "\<lparr>pk_isQuery = False, pk_signatureOk = True, pk_key = CertKey (sample_cert [])\<rparr>" "sample_cert []"
      sample_settings "\<lambda>_. True" sample_clock "\<lambda>_. False"]
  by (simp add: PeerUser_def cert_valid_for_def sample_defs UserCert_def sourceAddressOk_def
      CertTimeInfinity_def sourceAddressCriticalOption_def unixSeconds_def second_def)

text \<open>The administrator extension of a user certificate is kept: a user whose database row does
  not mark them as an administrator is one for the gateway if the certificate says so.\<close>

theorem administrator_from_certificate:
  assumes "authenticate verify geoip s fault clk meta key st = (Inr perms, st', bg)"
    and "cm_User meta \<noteq> PeerUser" and "key = CertKey cert"
    and "mget (pm_Extensions (ct_Permissions cert)) ''administrator'' \<noteq> None"
  shows "mget (pm_Extensions perms) ''administrator'' \<noteq> None"
  using assms(3,4) by (auto intro: authenticate_certified [OF assms(1,2)] simp: granted_simps)

theorem administrator_from_certificate_witness:
  "\<exists>perms st'. authenticate (\<lambda>_. True) None sample_settings None sample_clock (sample_meta ''alice'')
     (CertKey (sample_cert [(''administrator'', [])])) sample_state = (Inr perms, st', False)
   \<and> mget (pm_Extensions perms) ''administrator'' \<noteq> None
   \<and> map_option ur_administrator (mget (db_users (au_database st')) ''alice'') = Some (Some False)"
  using sample_login [of "[(''administrator'', [])]"]
    administrator_from_certificate [OF sample_login [of "[(''administrator'', [])]"] _ refl]
  by (simp add: sample_meta_def PeerUser_def sample_cert_def connect_model_def save_user_def zero_user_def)

text \<open>A kick does not always force the next login to re-read the database. If the goroutine that
  records a login has read the row before the account is disabled, and stores the flags it
  read after the kick has revoked them, the disabled and kicked user is accepted again for
  up to a minute.\<close>

theorem kick_race_keeps_login:
  assumes "cm_User meta \<noteq> PeerUser"
    and "certAuthenticate verify (isAuthority (as_CAPublicKeys s)) (clk 0) (cm_User meta) key = Inr p"
    and "recordLoginWrite geoip s None now meta st = (Inr user, st1)" and "\<not> us_Disabled user"
    and "db_PutUser None now2 (cm_User meta) (\<lambda>u. Inr (u\<lparr>us_Disabled := True\<rparr>)) (au_database st1) = (Inr u2, db2)"
    and "st3 = st1\<lparr>au_database := db2, au_userFlags := revokeUserFlags (cm_User meta) (au_userFlags st1)\<rparr>"
    and "clk 1 \<le> t' + userFlagsTimeToLive"
  shows "\<exists>perms st5 r. authenticate verify geoip s fault clk meta key
       (recordLoginCache t t' (cm_User meta) (Inr user) st3) = (Inr perms, st5, True)
     \<and> mget (db_users (au_database st5)) (cm_User meta) = Some r \<and> ur_disabled r = Some True"
proof -
  have row: "\<exists>r. mget (db_users db2) (cm_User meta) = Some r \<and> ur_disabled r = Some True"
    using assms(5) by (auto simp: db_PutUser_def Let_def gomap_simps save_user_def)
  have "fst (getUserFlags (clk 1) (cm_User meta)
      (putUserFlags t t' (cm_User meta) user (revokeUserFlags (cm_User meta) (au_userFlags st1))))
      = Some \<lparr>uf_administrator = us_Administrator user, uf_disabled = False,
              uf_expiresAt = t' + userFlagsTimeToLive\<rparr>"
    using assms(4,7) by (simp add: getUserFlags_def putUserFlags_def Let_def gomap_simps timeAfter_def)
  then show ?thesis
    using assms(1,2) row
    by (auto simp: authenticate_def recordLoginCache_def assms(6) Let_def split: prod.splits)
qed

theorem kick_race_keeps_login_witness:
  "\<exists>perms st5. authenticate (\<lambda>_. True) None sample_settings None sample_clock (sample_meta ''alice'')
     (CertKey (sample_cert []))
     (recordLoginCache 0 (sample_clock 0) ''alice''
        (fst (recordLoginWrite None sample_settings None 0 (sample_meta ''alice'') sample_state))
        ((snd (recordLoginWrite None sample_settings None 0 (sample_meta ''alice'') sample_state))
           \<lparr>au_database := snd (db_PutUser None 0 ''alice'' (\<lambda>u. Inr (u\<lparr>us_Disabled := True\<rparr>))
              (au_database (snd (recordLoginWrite None sample_settings None 0 (sample_meta ''alice'') sample_state)))),
            au_userFlags := revokeUserFlags ''alice'' []\<rparr>)) = (Inr perms, st5, True)"
proof -
  obtain user st1 where w: "recordLoginWrite None sample_settings None 0 (sample_meta ''alice'') sample_state = (Inr user, st1)"
    and u: "\<not> us_Disabled user" and f: "au_userFlags st1 = []"
    by (simp add: recordLoginWrite_def db_UpsertUserOnConnect_def sample_state_def empty_database_def
        load_user_def save_user_def connect_model_def zero_user_def)
  obtain u2 db2 where d: "db_PutUser None 0 ''alice'' (\<lambda>u. Inr (u\<lparr>us_Disabled := True\<rparr>)) (au_database st1) = (Inr u2, db2)"
    by (simp add: db_PutUser_def Let_def)
  have "\<exists>perms st5 r. authenticate (\<lambda>_. True) None sample_settings None sample_clock (sample_meta ''alice'')
     (CertKey (sample_cert [])) (recordLoginCache 0 (sample_clock 0) (cm_User (sample_meta ''alice'')) (Inr user)
        (st1\<lparr>au_database := db2, au_userFlags := revokeUserFlags (cm_User (sample_meta ''alice'')) (au_userFlags st1)\<rparr>))
      = (Inr perms, st5, True)
     \<and> mget (db_users (au_database st5)) (cm_User (sample_meta ''alice'')) = Some r \<and> ur_disabled r = Some True"
    using w u d sample_certAuthenticate [of 0 "''alice''" "[]"]
    by (intro kick_race_keeps_login)
       (auto simp: sample_meta_def PeerUser_def sample_settings_def sample_clock_def userFlagsTimeToLive_def second_def)
  then show ?thesis
    using w d f by (auto simp: sample_meta_def)
qed

end
