(* ===== verification/Gateway.thy ===== *)
theory Gateway
  imports Connection RouteCache Auth GoStrings
begin

text \<open>
  \<^verbatim>\<open>gateway/gateway.go\<close>, the state of one node and its registry of connections. Connections,
  tunnels and outbound peers are objects shared by pointer: each has a \<open>ref\<close> and lives in
  a store of the gateway, and \<open>gw_nextRef\<close> is the next one to hand out. The registry keeps
  the connections twice, as the code does: a list, newest first, and an index by user.
  The database and the cache of login flags are components of the state because the
  gateway's handlers write them.
\<close>

record gwSettings =
  gs_Version :: string
  gs_NodeID :: string
  gs_NodeAddress :: string
  gs_HostPublicKey :: "publicKey option"
  gs_NodeSigner :: "signer option"
  gs_PostgresAddress :: string
  gs_PeerDiscoveryInterval :: duration
  gs_RevokeLoginFlags :: "(string \<Rightarrow> flagsCache \<Rightarrow> flagsCache) option"

record peer =
  pe_nodeId :: string
  pe_closed :: bool

record gateway =
  gw_settings :: gwSettings
  gw_database :: database
  gw_loginFlags :: flagsCache
  gw_connectionsIndex :: "(string, ref list) gomap"
  gw_connectionsList :: "ref list"
  gw_peers :: "(string, ref) gomap"
  gw_routes :: routeCache
  gw_done :: bool
  gw_connection :: "ref \<Rightarrow> connection"
  gw_tunnel :: "ref \<Rightarrow> tunnel"
  gw_peer :: "ref \<Rightarrow> peer"
  gw_nextRef :: ref

definition modify_connection :: "ref \<Rightarrow> (connection \<Rightarrow> connection) \<Rightarrow> gateway \<Rightarrow> gateway" where
  "modify_connection r f g = g\<lparr>gw_connection := (gw_connection g)(r := f (gw_connection g r))\<rparr>"

definition modify_tunnel :: "ref \<Rightarrow> (tunnel \<Rightarrow> tunnel) \<Rightarrow> gateway \<Rightarrow> gateway" where
  "modify_tunnel r f g = g\<lparr>gw_tunnel := (gw_tunnel g)(r := f (gw_tunnel g r))\<rparr>"

text \<open>The state \<^verbatim>\<open>Open\<close> builds, before it registers the node and starts its loops.\<close>

definition zero_connection :: connection where
  "zero_connection = newConnection [] \<lparr>pm_CriticalOptions = [], pm_Extensions = []\<rparr> [] [] (newUsage 0)"

definition newGateway :: "database \<Rightarrow> flagsCache \<Rightarrow> gwSettings \<Rightarrow> gateway" where
  "newGateway db flags settings =
     \<lparr>gw_settings = settings, gw_database = db, gw_loginFlags = flags, gw_connectionsIndex = [],
      gw_connectionsList = [], gw_peers = [], gw_routes = newRouteCache, gw_done = False,
      gw_connection = (\<lambda>_. zero_connection),
      gw_tunnel = (\<lambda>_. make_tunnel None 0 [] [] (MObject [])),
      gw_peer = (\<lambda>_. \<lparr>pe_nodeId = [], pe_closed = True\<rparr>), gw_nextRef = 0\<rparr>"

section \<open>The registry\<close>

definition indexed :: "gateway \<Rightarrow> string \<Rightarrow> ref list" where
  "indexed g user = nullable [] (mget (gw_connectionsIndex g) user)"

definition addConnection :: "ref \<Rightarrow> gateway \<Rightarrow> gateway" where
  "addConnection r g =
     (let user = cn_user (gw_connection g r)
      in g\<lparr>gw_connectionsIndex := mput user (r # indexed g user) (gw_connectionsIndex g),
           gw_connectionsList := r # gw_connectionsList g\<rparr>)"

definition deleteConnection :: "ref \<Rightarrow> gateway \<Rightarrow> gateway" where
  "deleteConnection r g =
     (let user = cn_user (gw_connection g r)
      in g\<lparr>gw_connectionsIndex := mput user (filter (\<lambda>x. x \<noteq> r) (indexed g user)) (gw_connectionsIndex g),
           gw_connectionsList := filter (\<lambda>x. x \<noteq> r) (gw_connectionsList g)\<rparr>)"

definition listConnections :: "gateway \<Rightarrow> ref list" where
  "listConnections g = gw_connectionsList g"

text \<open>\<^verbatim>\<open>handleConnection\<close> up to the start of its loop: allocate the connection and register it.\<close>

definition acceptConnection ::
    "string \<Rightarrow> permissions \<Rightarrow> string \<Rightarrow> string \<Rightarrow> usageStats \<Rightarrow> gateway \<Rightarrow> ref \<times> gateway" where
  "acceptConnection ident perms user remote usage g =
     (let r = gw_nextRef g
      in (r, addConnection r
               (g\<lparr>gw_connection := (gw_connection g)(r := newConnection ident perms user remote usage),
                  gw_nextRef := r + 1\<rparr>)))"

section \<open>Finding a service\<close>

text \<open>
  The names a host stands for, in the order of the loop over the parts: before the dot the
  host of a service, after it the user; the whole name is tried as a user first.
\<close>

definition hostCandidates :: "string \<Rightarrow> (string \<times> string) list" where
  "hostCandidates host =
     (let parts = splitOn CHR ''.'' host
      in map (\<lambda>index. (joinWith ''.'' (take index parts), joinWith ''.'' (drop index parts)))
           [0..<length parts])"

fun lookupCandidates :: "gateway \<Rightarrow> u16 \<Rightarrow> (string \<times> string) list \<Rightarrow> (ref \<times> string \<times> u16) option" where
  "lookupCandidates g port [] = None"
| "lookupCandidates g port ((host, user) # cs) =
     (case find (\<lambda>r. lookupService host port (gw_connection g r)) (indexed g user) of
        Some r \<Rightarrow> Some (r, host, port)
      | None \<Rightarrow> lookupCandidates g port cs)"

definition lookupConnectionService :: "string \<Rightarrow> u16 \<Rightarrow> gateway \<Rightarrow> (ref \<times> string \<times> u16) option" where
  "lookupConnectionService host port g = lookupCandidates g port (hostCandidates host)"

text \<open>The status of the i-th connection reads the clock twice.\<close>

definition statusList :: "(duration \<Rightarrow> u64) \<Rightarrow> (nat \<Rightarrow> gotime) \<Rightarrow> ref list \<Rightarrow> gateway \<Rightarrow> connectionStatus list" where
  "statusList seconds clk rs g =
     map (\<lambda>(i, r). conn_gatherStatus seconds (clk (2 * i)) (clk (2 * i + 1)) (gw_tunnel g) (gw_connection g r))
       (enumerate 0 rs)"

definition gw_gatherStatus ::
    "(duration \<Rightarrow> u64) \<Rightarrow> (nat \<Rightarrow> gotime) \<Rightarrow> string \<Rightarrow> gateway \<Rightarrow> connectionStatus list" where
  "gw_gatherStatus seconds clk user g =
     statusList seconds clk
       (filter (\<lambda>r. user = [] \<or> cn_user (gw_connection g r) = user) (gw_connectionsList g)) g"

definition connectedUserIds :: "gateway \<Rightarrow> string list" where
  "connectedUserIds g =
     map fst (filter (\<lambda>(userId, connections). \<not> (userId = [] \<or> connections = [])) (gw_connectionsIndex g))"

section \<open>The registry invariant\<close>

text \<open>
  The index is the list, filtered by user; every registered connection has been allocated,
  once; and the maps have distinct keys.
\<close>

definition registry_ok :: "gateway \<Rightarrow> bool" where
  "registry_ok g \<longleftrightarrow>
     (\<forall>user. indexed g user = filter (\<lambda>r. cn_user (gw_connection g r) = user) (gw_connectionsList g))
     \<and> distinct (gw_connectionsList g) \<and> (\<forall>r \<in> set (gw_connectionsList g). r < gw_nextRef g)
     \<and> mwf (gw_connectionsIndex g)"

lemma registry_okI:
  assumes "\<And>user. indexed g user = filter (\<lambda>r. cn_user (gw_connection g r) = user) (gw_connectionsList g)"
    and "distinct (gw_connectionsList g)" and "\<And>r. r \<in> set (gw_connectionsList g) \<Longrightarrow> r < gw_nextRef g"
    and "mwf (gw_connectionsIndex g)"
  shows "registry_ok g"
  using assms by (simp add: registry_ok_def)

lemma registry_okD:
  assumes "registry_ok g"
  shows "indexed g user = filter (\<lambda>r. cn_user (gw_connection g r) = user) (gw_connectionsList g)"
    and "distinct (gw_connectionsList g)" and "r \<in> set (gw_connectionsList g) \<Longrightarrow> r < gw_nextRef g"
    and "mwf (gw_connectionsIndex g)"
  using assms by (auto simp: registry_ok_def)

lemma set_indexed:
  "registry_ok g \<Longrightarrow> set (indexed g user) = {r \<in> set (gw_connectionsList g). cn_user (gw_connection g r) = user}"
  by (simp add: registry_okD(1))

lemma indexed_mput:
  "indexed (g\<lparr>gw_connectionsIndex := mput user rs (gw_connectionsIndex g), gw_connectionsList := l\<rparr>) u =
     (if u = user then rs else indexed g u)"
  by (simp add: indexed_def gomap_simps)

lemma registry_ok_deleteConnection: "registry_ok g \<Longrightarrow> registry_ok (deleteConnection r g)"
  by (intro registry_okI)
     (auto simp: deleteConnection_def Let_def indexed_mput registry_okD gomap_simps
       intro!: mwf_mput filter_cong)

lemma registry_ok_addConnection:
  "registry_ok g \<Longrightarrow> r \<notin> set (gw_connectionsList g) \<Longrightarrow> r < gw_nextRef g \<Longrightarrow> registry_ok (addConnection r g)"
  by (intro registry_okI)
     (auto simp: addConnection_def Let_def indexed_mput registry_okD intro: mwf_mput)

lemma registry_ok_allocate:
  assumes "registry_ok g"
  shows "registry_ok (g\<lparr>gw_connection := (gw_connection g)(gw_nextRef g := c), gw_nextRef := gw_nextRef g + 1\<rparr>)"
proof (rule registry_okI)
  fix user
  have "gw_nextRef g \<notin> set (gw_connectionsList g)"
    using registry_okD(3) [OF assms] by blast
  then have "filter (\<lambda>r. cn_user (((gw_connection g)(gw_nextRef g := c)) r) = user) (gw_connectionsList g) =
      filter (\<lambda>r. cn_user (gw_connection g r) = user) (gw_connectionsList g)"
    by (intro filter_cong) auto
  then show "indexed (g\<lparr>gw_connection := (gw_connection g)(gw_nextRef g := c), gw_nextRef := gw_nextRef g + 1\<rparr>) user =
      filter (\<lambda>r. cn_user (gw_connection (g\<lparr>gw_connection := (gw_connection g)(gw_nextRef g := c),
          gw_nextRef := gw_nextRef g + 1\<rparr>) r) = user)
        (gw_connectionsList (g\<lparr>gw_connection := (gw_connection g)(gw_nextRef g := c), gw_nextRef := gw_nextRef g + 1\<rparr>))"
    using registry_okD(1) [OF assms, of user] by (simp add: indexed_def)
qed (use registry_okD [OF assms] in \<open>auto intro: less_SucI\<close>)

lemma registry_ok_acceptConnection:
  assumes "registry_ok g"
  shows "registry_ok (snd (acceptConnection ident perms user remote usage g))"
  using registry_ok_allocate [OF assms] registry_okD(3) [OF assms, of "gw_nextRef g"]
  by (auto simp: acceptConnection_def Let_def intro!: registry_ok_addConnection)

lemma registry_ok_modify_connection:
  assumes "registry_ok g" and "\<And>c. cn_user (f c) = cn_user c"
  shows "registry_ok (modify_connection r f g)"
proof (rule registry_okI)
  fix user
  have "cn_user (gw_connection (modify_connection r f g) x) = cn_user (gw_connection g x)" for x
    by (simp add: modify_connection_def assms(2))
  then show "indexed (modify_connection r f g) user =
      filter (\<lambda>x. cn_user (gw_connection (modify_connection r f g) x) = user)
        (gw_connectionsList (modify_connection r f g))"
    using registry_okD(1) [OF assms(1)] by (simp add: indexed_def modify_connection_def)
qed (use assms(1) in \<open>auto simp: modify_connection_def dest: registry_okD\<close>)

section \<open>What a lookup finds\<close>

text \<open>A host names the service \<open>h\<close> of user \<open>u\<close> when it is the user's name alone, or the two joined by a dot.\<close>

definition host_names :: "string \<Rightarrow> string \<Rightarrow> string \<Rightarrow> bool" where
  "host_names host h u \<longleftrightarrow> h = [] \<and> u = host \<or> host = h @ CHR ''.'' # u"

lemma hostCandidates_nth:
  assumes "i < length (hostCandidates host)"
  shows "hostCandidates host ! i =
    (joinWith ''.'' (take i (splitOn CHR ''.'' host)), joinWith ''.'' (drop i (splitOn CHR ''.'' host)))"
  using assms by (simp add: hostCandidates_def Let_def del: length_splitOn)

lemma length_hostCandidates: "length (hostCandidates host) = length (splitOn CHR ''.'' host)"
  by (simp add: hostCandidates_def Let_def)

lemma hostCandidates_nth_names:
  assumes "i < length (hostCandidates host)"
  shows "host_names host (fst (hostCandidates host ! i)) (snd (hostCandidates host ! i))"
proof (cases "i = 0")
  case True
  then show ?thesis using assms by (simp add: hostCandidates_nth host_names_def join_splitOn)
next
  case False
  then show ?thesis
    using join_split_at [of i "CHR ''.''" host] assms
    by (simp add: hostCandidates_nth length_hostCandidates host_names_def del: length_splitOn)
qed

lemma set_hostCandidates: "(h, u) \<in> set (hostCandidates host) \<longleftrightarrow> host_names host h u"
proof
  assume "(h, u) \<in> set (hostCandidates host)"
  then show "host_names host h u"
    using hostCandidates_nth_names by (metis fst_conv in_set_conv_nth snd_conv)
next
  assume "host_names host h u"
  then consider "h = []" "u = host" | "host = h @ CHR ''.'' # u" by (auto simp: host_names_def)
  then show "(h, u) \<in> set (hostCandidates host)"
  proof cases
    case 1
    then have "hostCandidates host ! 0 = (h, u)" by (simp add: hostCandidates_nth length_hostCandidates join_splitOn)
    then show ?thesis by (metis length_hostCandidates length_greater_0_conv nth_mem splitOn_nonempty)
  next
    case 2
    let ?i = "length (splitOn CHR ''.'' h)"
    have parts: "splitOn CHR ''.'' host = splitOn CHR ''.'' h @ splitOn CHR ''.'' u"
      using 2 by (simp add: splitOn_append)
    then have i: "?i < length (hostCandidates host)" by (simp add: length_hostCandidates)
    then have "hostCandidates host ! ?i = (h, u)"
      using parts by (simp add: hostCandidates_nth join_splitOn del: length_splitOn)
    then show ?thesis using i by (metis nth_mem)
  qed
qed

lemma joinWith_drop_less:
  "0 < length sep \<Longrightarrow> Suc i < length ps \<Longrightarrow> length (joinWith sep (drop (Suc i) ps)) < length (joinWith sep (drop i ps))"
  by (subst (2) Cons_nth_drop_Suc [symmetric]) (simp_all add: joinWith_Cons)

lemma hostCandidates_user_decreases:
  assumes "i < j" and "j < length (hostCandidates host)"
  shows "length (snd (hostCandidates host ! j)) < length (snd (hostCandidates host ! i))"
  using assms
proof (induction j)
  case (Suc j)
  have step: "length (snd (hostCandidates host ! Suc j)) < length (snd (hostCandidates host ! j))"
    using Suc.prems joinWith_drop_less [of "''.''" j "splitOn CHR ''.'' host"]
    by (simp add: hostCandidates_nth length_hostCandidates del: length_splitOn)
  show ?case
    using Suc step by (cases "i = j") (simp_all add: less_Suc_eq)
qed simp

lemma lookupCandidates_None:
  "lookupCandidates g port cs = None \<longleftrightarrow>
     (\<forall>h u. (h, u) \<in> set cs \<longrightarrow> (\<forall>r \<in> set (indexed g u). \<not> lookupService h port (gw_connection g r)))"
proof (induction cs)
  case (Cons c cs)
  obtain h u where c: "c = (h, u)" by (cases c)
  show ?case
  proof (cases "find (\<lambda>r. lookupService h port (gw_connection g r)) (indexed g u)")
    case None
    then have "\<forall>r \<in> set (indexed g u). \<not> lookupService h port (gw_connection g r)"
      by (auto simp: find_None_iff)
    with None Cons c show ?thesis by auto
  next
    case (Some r)
    then have "r \<in> set (indexed g u)" and "lookupService h port (gw_connection g r)"
      by (auto simp: find_Some_iff)
    then show ?thesis using Some c by auto
  qed
qed simp

lemma lookupCandidates_Some:
  assumes "lookupCandidates g port cs = Some (r, h, p)"
  obtains i u where "i < length cs" "cs ! i = (h, u)" "p = port"
    "find (\<lambda>r. lookupService h port (gw_connection g r)) (indexed g u) = Some r"
    "lookupCandidates g port (take i cs) = None"
  using assms
proof (induction cs arbitrary: thesis)
  case (Cons c cs)
  obtain h' u' where c: "c = (h', u')" by (cases c)
  show ?case
  proof (cases "find (\<lambda>r. lookupService h' port (gw_connection g r)) (indexed g u')")
    case None
    with Cons.prems(2) c have "lookupCandidates g port cs = Some (r, h, p)" by simp
    from Cons.IH [OF _ this] obtain i u where *: "i < length cs" "cs ! i = (h, u)" "p = port"
      "find (\<lambda>r. lookupService h port (gw_connection g r)) (indexed g u) = Some r"
      "lookupCandidates g port (take i cs) = None" by blast
    with None c show ?thesis by (intro Cons.prems(1) [of "Suc i" u]) simp_all
  next
    case (Some x)
    with Cons.prems(2) c show ?thesis by (intro Cons.prems(1) [of 0 u']) simp_all
  qed
qed simp

lemma find_filter: "find P (filter Q xs) = find (\<lambda>x. Q x \<and> P x) xs"
  by (induction xs) auto

lemma find_takeWhile:
  assumes "find P xs = Some x" and "y \<in> set (takeWhile (\<lambda>z. z \<noteq> x) xs)"
  shows "\<not> P y"
  using assms
proof (induction xs)
  case (Cons z zs)
  then show ?case by (cases "P z"; cases "z = x") (simp_all, blast)
qed simp

definition provides :: "gateway \<Rightarrow> u16 \<Rightarrow> string \<Rightarrow> string \<Rightarrow> ref \<Rightarrow> bool" where
  "provides g port host h r \<longleftrightarrow>
     lookupService h port (gw_connection g r) \<and> host_names host h (cn_user (gw_connection g r))"

text \<open>A user name that provides the service is no longer than the first candidate that does.\<close>

lemma longest_candidate:
  assumes "registry_ok g" and "lookupCandidates g port (take i (hostCandidates host)) = None"
    and "i < length (hostCandidates host)" and "hostCandidates host ! i = (h, u)"
    and "r' \<in> set (gw_connectionsList g)" and "provides g port host h' r'"
  shows "length (cn_user (gw_connection g r')) \<le> length u"
proof -
  from assms(6) obtain j where j: "j < length (hostCandidates host)"
      "hostCandidates host ! j = (h', cn_user (gw_connection g r'))"
    by (metis in_set_conv_nth provides_def set_hostCandidates)
  have "\<not> j < i"
  proof
    assume "j < i"
    then have "(h', cn_user (gw_connection g r')) \<in> set (take i (hostCandidates host))"
      using j assms(3) by (metis in_set_conv_nth length_take min.absorb2 nat_less_le nth_take)
    then show False
      using assms(2,5,6) by (auto simp: lookupCandidates_None set_indexed [OF assms(1)] provides_def)
  qed
  then show ?thesis
    using hostCandidates_user_decreases [of i j host] assms(3,4) j by (cases "i = j") auto
qed

text \<open>C23: A lookup finds a service exactly when a registered connection advertises it under a name the
  host stands for. What it returns is such a connection, with the host the service was
  registered under; no other choice has a longer user name, and among the connections
  of that user it is the newest one that advertises the service.\<close>

theorem lookup_finds_service:
  assumes "registry_ok g"
  shows "(lookupConnectionService host port g = None \<longleftrightarrow>
            (\<forall>r \<in> set (gw_connectionsList g). \<forall>h. \<not> provides g port host h r))
    \<and> (\<forall>r h p. lookupConnectionService host port g = Some (r, h, p) \<longrightarrow>
          p = port \<and> r \<in> set (gw_connectionsList g) \<and> provides g port host h r
          \<and> (\<forall>r' \<in> set (gw_connectionsList g). \<forall>h'. provides g port host h' r' \<longrightarrow>
               length (cn_user (gw_connection g r')) \<le> length (cn_user (gw_connection g r)))
          \<and> (\<forall>r' \<in> set (takeWhile (\<lambda>x. x \<noteq> r) (gw_connectionsList g)).
               cn_user (gw_connection g r') = cn_user (gw_connection g r) \<longrightarrow> \<not> provides g port host h r'))"
proof (intro conjI allI impI)
  show "lookupConnectionService host port g = None \<longleftrightarrow>
      (\<forall>r \<in> set (gw_connectionsList g). \<forall>h. \<not> provides g port host h r)"
    by (auto simp: lookupConnectionService_def lookupCandidates_None set_hostCandidates provides_def
        set_indexed [OF assms])
next
  fix r h p
  assume "lookupConnectionService host port g = Some (r, h, p)"
  then obtain i u where i: "i < length (hostCandidates host)" "hostCandidates host ! i = (h, u)" "p = port"
    and f: "find (\<lambda>r. lookupService h port (gw_connection g r)) (indexed g u) = Some r"
    and before: "lookupCandidates g port (take i (hostCandidates host)) = None"
    unfolding lookupConnectionService_def by (rule lookupCandidates_Some)
  have found: "find (\<lambda>r. cn_user (gw_connection g r) = u \<and> lookupService h port (gw_connection g r))
      (gw_connectionsList g) = Some r"
    using f by (simp add: registry_okD(1) [OF assms] find_filter)
  then have r: "r \<in> set (gw_connectionsList g)" "cn_user (gw_connection g r) = u"
      "lookupService h port (gw_connection g r)"
    by (auto simp: find_Some_iff)
  show "p = port" by (fact i(3))
  show "r \<in> set (gw_connectionsList g)" by (fact r(1))
  show "provides g port host h r"
    using hostCandidates_nth_names [OF i(1)] i(2) r by (simp add: provides_def)
  show "\<forall>r' \<in> set (gw_connectionsList g). \<forall>h'. provides g port host h' r' \<longrightarrow>
      length (cn_user (gw_connection g r')) \<le> length (cn_user (gw_connection g r))"
    using longest_candidate [OF assms before i(1,2)] r(2) by blast
  show "\<forall>r' \<in> set (takeWhile (\<lambda>x. x \<noteq> r) (gw_connectionsList g)).
      cn_user (gw_connection g r') = cn_user (gw_connection g r) \<longrightarrow> \<not> provides g port host h r'"
    using find_takeWhile [OF found] r(2) by (auto simp: provides_def)
qed

text \<open>A node with one connection of alice, which advertises port 80 under the host web.\<close>

definition sample_gwSettings :: gwSettings where
  "sample_gwSettings = \<lparr>gs_Version = ''1.0'', gs_NodeID = ''node-a'', gs_NodeAddress = ''a:22'',
     gs_HostPublicKey = None, gs_NodeSigner = Some \<lparr>sg_key = [1], sg_certificate = None\<rparr>, gs_PostgresAddress = [],
     gs_PeerDiscoveryInterval = 0, gs_RevokeLoginFlags = Some revokeUserFlags\<rparr>"

definition sample_permissions :: permissions where
  "sample_permissions = \<lparr>pm_CriticalOptions = [], pm_Extensions = [(''permit-port-forwarding'', [])]\<rparr>"

definition sample_gateway :: gateway where
  "sample_gateway = modify_connection 0 (\<lambda>c. snd (registerService ''web'' 80 c))
     (snd (acceptConnection ''k0'' sample_permissions ''alice'' ''10.1.2.3:40000'' (newUsage 0)
        (newGateway empty_database [] sample_gwSettings)))"

lemma registry_ok_newGateway: "registry_ok (newGateway db flags settings)"
  by (rule registry_okI) (simp_all add: newGateway_def indexed_def gomap_simps)

lemma cn_user_registerService [simp]: "cn_user (snd (registerService h p c)) = cn_user c"
  by (simp add: registerService_def Let_def split: option.splits if_splits)

lemma sample_gateway_ok: "registry_ok sample_gateway"
  by (simp add: sample_gateway_def registry_ok_modify_connection registry_ok_acceptConnection registry_ok_newGateway)

lemma sample_gateway_list: "gw_connectionsList sample_gateway = [0]"
  by (simp add: sample_gateway_def modify_connection_def acceptConnection_def addConnection_def newGateway_def
      Let_def)

lemma sample_gateway_conn:
  "cn_user (gw_connection sample_gateway 0) = ''alice''"
  "lookupService ''web'' 80 (gw_connection sample_gateway 0)"
  by (simp_all add: sample_gateway_def modify_connection_def acceptConnection_def addConnection_def
      newGateway_def newConnection_def sample_permissions_def lookup_register Let_def)

theorem lookup_finds_service_witness:
  "lookupConnectionService ''web.alice'' 80 sample_gateway \<noteq> None"
  using lookup_finds_service [OF sample_gateway_ok, of "''web.alice''" 80]
  by (auto simp: sample_gateway_list provides_def sample_gateway_conn host_names_def intro!: exI [of _ "''web''"])

end
