(* ===== verification/Routing.thy ===== *)
theory Routing
  imports Gateway
begin

text \<open>
  Where a tunnel goes: the outbound peers of \<^verbatim>\<open>gateway/peer.go\<close>, opening a tunnel through a
  connection or a peer (the interface \<^verbatim>\<open>tunnelOpener\<close> of \<^verbatim>\<open>gateway/tunnel.go\<close>), and the
  routing of \<^verbatim>\<open>gateway/gateway.go\<close>: a local service first, then the peer of the node
  the user is on. What the other side answers to the opening of a channel is a parameter.
\<close>

section \<open>The table of peers\<close>

definition getPeer :: "string \<Rightarrow> gateway \<Rightarrow> ref option" where
  "getPeer nodeId g = mget (gw_peers g) nodeId"

definition listPeers :: "gateway \<Rightarrow> ref list" where
  "listPeers g = map snd (gw_peers g)"

definition addPeer :: "ref \<Rightarrow> gateway \<Rightarrow> bool \<times> gateway" where
  "addPeer p g =
     (case mget (gw_peers g) (pe_nodeId (gw_peer g p)) of
        Some _ \<Rightarrow> (False, g)
      | None \<Rightarrow> (True, g\<lparr>gw_peers := mput (pe_nodeId (gw_peer g p)) p (gw_peers g)\<rparr>))"

definition removePeer :: "ref \<Rightarrow> gateway \<Rightarrow> gateway" where
  "removePeer p g =
     (if mget (gw_peers g) (pe_nodeId (gw_peer g p)) = Some p
      then g\<lparr>gw_peers := mdel (pe_nodeId (gw_peer g p)) (gw_peers g)\<rparr> else g)"

definition peer_close :: "ref \<Rightarrow> gateway \<Rightarrow> gateway" where
  "peer_close p g = g\<lparr>gw_peer := (gw_peer g)(p := (gw_peer g p)\<lparr>pe_closed := True\<rparr>)\<rparr>"

section \<open>Opening tunnels\<close>

definition newTunnel :: "ref option \<Rightarrow> ref \<Rightarrow> string \<Rightarrow> byte list \<Rightarrow> metadata \<Rightarrow> gateway \<Rightarrow> ref \<times> gateway" where
  "newTunnel conn channel channelType extraData metadata g =
     (let t = gw_nextRef g;
          g1 = g\<lparr>gw_tunnel := (gw_tunnel g)(t := make_tunnel conn channel channelType extraData metadata),
                 gw_nextRef := t + 1\<rparr>
      in (t, case conn of None \<Rightarrow> g1 | Some r \<Rightarrow> modify_connection r (addTunnel t) g1))"

text \<open>\<open>answer\<close> is what \<^verbatim>\<open>OpenChannel\<close> returns: an error, or the channel.\<close>

definition connection_openTunnel ::
    "ref res \<Rightarrow> ref \<Rightarrow> string \<Rightarrow> byte list \<Rightarrow> metadata \<Rightarrow> gateway \<Rightarrow> ref res \<times> gateway" where
  "connection_openTunnel answer r channelType extraData metadata g =
     (case answer of
        Inl e \<Rightarrow> (Inl e, g)
      | Inr channel \<Rightarrow>
          (case newTunnel (Some r) channel channelType extraData metadata g of (t, g') \<Rightarrow> (Inr t, g')))"

definition peer_openTunnel ::
    "ref res \<Rightarrow> ref \<Rightarrow> string \<Rightarrow> byte list \<Rightarrow> metadata \<Rightarrow> gateway \<Rightarrow> ref res \<times> gateway" where
  "peer_openTunnel answer p channelType extraData metadata g =
     (case answer of
        Inl e \<Rightarrow> (Inl e, g)
      | Inr channel \<Rightarrow>
          (case newTunnel None channel channelType extraData metadata g of (t, g') \<Rightarrow> (Inr t, g')))"

section \<open>Routing across the mesh\<close>

definition useRoute :: "gotime \<Rightarrow> gotime \<Rightarrow> string \<Rightarrow> string \<Rightarrow> bool \<Rightarrow> gateway \<Rightarrow> ref option \<times> gateway" where
  "useRoute now now' user nodeId cached g =
     (if nodeId = [] \<or> nodeId = gs_NodeID (gw_settings g) then (None, g)
      else case getPeer nodeId g of
             Some p \<Rightarrow> (Some p, if cached then g else g\<lparr>gw_routes := rc_put now now' user nodeId (gw_routes g)\<rparr>)
           | None \<Rightarrow> (None, if cached then g\<lparr>gw_routes := rc_invalidate user (gw_routes g)\<rparr> else g))"

text \<open>
  The loop over the user names a host stands for. Its i-th round reads the clock at most
  three times, and \<open>faults i\<close> is what the database answers in that round.
\<close>

fun lookupRemoteUsers ::
    "(nat \<Rightarrow> gotime) \<Rightarrow> (nat \<Rightarrow> fault) \<Rightarrow> nat \<Rightarrow> string list \<Rightarrow> gateway \<Rightarrow> ref option \<times> gateway" where
  "lookupRemoteUsers clk faults i [] g = (None, g)"
| "lookupRemoteUsers clk faults i (user # users) g =
     (if user = [] then lookupRemoteUsers clk faults (Suc i) users g
      else
        let step = (case rc_get (clk (3 * i)) user (gw_routes g) of
                      Some nodeId \<Rightarrow> useRoute (clk (3 * i + 1)) (clk (3 * i + 2)) user nodeId True g
                    | None \<Rightarrow>
                        (case db_GetUserNodeID (faults i) user (gw_database g) of
                           Inl e \<Rightarrow> (None, g)
                         | Inr nodeId \<Rightarrow> useRoute (clk (3 * i + 1)) (clk (3 * i + 2)) user nodeId False g))
        in case step of
             (Some p, g') \<Rightarrow> (Some p, g')
           | (None, g') \<Rightarrow> lookupRemoteUsers clk faults (Suc i) users g')"

definition lookupRemotePeer ::
    "(nat \<Rightarrow> gotime) \<Rightarrow> (nat \<Rightarrow> fault) \<Rightarrow> string \<Rightarrow> gateway \<Rightarrow> ref option \<times> gateway" where
  "lookupRemotePeer clk faults host g =
     (if gs_NodeID (gw_settings g) = [] then (None, g)
      else lookupRemoteUsers clk faults 0 (map snd (hostCandidates host)) g)"

definition invalidateRoutes :: "string \<Rightarrow> gateway \<Rightarrow> gateway" where
  "invalidateRoutes host g =
     g\<lparr>gw_routes := fold rc_invalidate (filter (\<lambda>user. user \<noteq> []) (map snd (hostCandidates host))) (gw_routes g)\<rparr>"

definition serviceMetadata :: "string \<Rightarrow> nat \<Rightarrow> string \<Rightarrow> metadata" where
  "serviceMetadata host port originAddress =
     MObject [(''origin'', MString originAddress),
              (''service'', MObject [(''host'', MString host), (''port'', MPort port)])]"

definition openServiceTunnel ::
    "(nat \<Rightarrow> gotime) \<Rightarrow> (nat \<Rightarrow> fault) \<Rightarrow> ref res \<Rightarrow> string \<Rightarrow> u16 \<Rightarrow> string \<Rightarrow> u32 \<Rightarrow> gateway \<Rightarrow> ref res \<times> gateway" where
  "openServiceTunnel clk faults answer host port originAddress originPort g =
     (let metadata = serviceMetadata host (unat port) originAddress
      in case lookupConnectionService host port g of
           Some (r, serviceHost, servicePort) \<Rightarrow>
             connection_openTunnel answer r ''forwarded-tcpip''
               (marshalTunnelData \<lparr>td_Host = serviceHost, td_Port = ucast servicePort,
                  td_OriginAddress = originAddress, td_OriginPort = originPort\<rparr>) metadata g
         | None \<Rightarrow>
             (case lookupRemotePeer clk faults host g of
                (Some p, g1) \<Rightarrow>
                  (case peer_openTunnel answer p ''direct-tcpip''
                          (marshalTunnelData \<lparr>td_Host = host, td_Port = ucast port,
                             td_OriginAddress = originAddress, td_OriginPort = originPort\<rparr>) metadata g1 of
                     (Inl e, g2) \<Rightarrow> (Inl e, invalidateRoutes host g2)
                   | (Inr t, g2) \<Rightarrow> (Inr t, g2))
              | (None, g1) \<Rightarrow> (Inl ErrServiceNotFound, g1)))"

section \<open>The interface of tunnel openers\<close>

text \<open>What of a connection the opening of a tunnel leaves alone: everything but its tunnels.\<close>

definition same_but_tunnels :: "connection \<Rightarrow> connection \<Rightarrow> bool" where
  "same_but_tunnels c c' \<longleftrightarrow>
     c' = c\<lparr>cn_tunnels := cn_tunnels c', cn_tunnelsOpened := cn_tunnelsOpened c', cn_tunnelsClosed := cn_tunnelsClosed c'\<rparr>"

definition same_but_objects :: "gateway \<Rightarrow> gateway \<Rightarrow> bool" where
  "same_but_objects g g' \<longleftrightarrow>
     g' = g\<lparr>gw_connection := gw_connection g', gw_tunnel := gw_tunnel g', gw_nextRef := gw_nextRef g'\<rparr>
     \<and> (\<forall>r. same_but_tunnels (gw_connection g r) (gw_connection g' r))"

lemma same_but_tunnels_fields:
  assumes "same_but_tunnels c c'"
  shows "cn_user c' = cn_user c" "cn_nodeId c' = cn_nodeId c" "cn_services c' = cn_services c"
    "cn_done c' = cn_done c" "cn_permitPortForwarding c' = cn_permitPortForwarding c"
    "cn_administrator c' = cn_administrator c"
  using assms unfolding same_but_tunnels_def by (metis connection.select_convs connection.surjective
      connection.update_convs(5,6,7))+

lemma same_but_objects_fields:
  assumes "same_but_objects g g'"
  shows "gw_settings g' = gw_settings g" "gw_database g' = gw_database g" "gw_loginFlags g' = gw_loginFlags g"
    "gw_connectionsIndex g' = gw_connectionsIndex g" "gw_connectionsList g' = gw_connectionsList g"
    "gw_peers g' = gw_peers g" "gw_routes g' = gw_routes g" "gw_done g' = gw_done g" "gw_peer g' = gw_peer g"
  using assms unfolding same_but_objects_def by (metis gateway.select_convs gateway.surjective
      gateway.update_convs(9,10,12))+

lemma lookupService_services: "cn_services c' = cn_services c \<Longrightarrow> lookupService h p c' = lookupService h p c"
  by (simp add: lookupService_def)

lemma lookupCandidates_cong:
  assumes "\<And>u. indexed g' u = indexed g u"
    and "\<And>r. cn_services (gw_connection g' r) = cn_services (gw_connection g r)"
  shows "lookupCandidates g' port cs = lookupCandidates g port cs"
proof (induction cs)
  case (Cons c cs)
  then show ?case
    by (cases c) (simp add: assms(1) lookupService_services [OF assms(2)] split: option.split)
qed simp

lemma same_but_objects_connection:
  assumes "same_but_objects g g'"
  shows "cn_user (gw_connection g' r) = cn_user (gw_connection g r)"
    and "cn_services (gw_connection g' r) = cn_services (gw_connection g r)"
    and "indexed g' u = indexed g u"
proof -
  have "same_but_tunnels (gw_connection g r) (gw_connection g' r)"
    using assms by (simp add: same_but_objects_def)
  from same_but_tunnels_fields(1,3) [OF this]
  show "cn_user (gw_connection g' r) = cn_user (gw_connection g r)"
    and "cn_services (gw_connection g' r) = cn_services (gw_connection g r)" .
  show "indexed g' u = indexed g u"
    by (simp add: indexed_def same_but_objects_fields(4) [OF assms])
qed

lemma lookup_same_but_objects:
  "same_but_objects g g' \<Longrightarrow> lookupConnectionService host port g' = lookupConnectionService host port g"
  unfolding lookupConnectionService_def
  by (rule lookupCandidates_cong) (erule same_but_objects_connection)+

lemma registry_ok_same_but_objects:
  assumes "registry_ok g" and "same_but_objects g g'" and "gw_nextRef g \<le> gw_nextRef g'"
  shows "registry_ok g'"
proof (rule registry_okI)
  note same = same_but_objects_connection [OF assms(2)] same_but_objects_fields [OF assms(2)]
  show "indexed g' user = filter (\<lambda>r. cn_user (gw_connection g' r) = user) (gw_connectionsList g')" for user
    using registry_okD(1) [OF assms(1), of user] by (simp add: same)
  show "distinct (gw_connectionsList g')" and "mwf (gw_connectionsIndex g')"
    using registry_okD(2,4) [OF assms(1)] by (simp_all add: same)
  show "r < gw_nextRef g'" if "r \<in> set (gw_connectionsList g')" for r
    using registry_okD(3) [OF assms(1), of r] that assms(3) by (simp add: same)
qed

locale tunnel_opener =
  fixes open_tunnel :: "ref res \<Rightarrow> ref \<Rightarrow> string \<Rightarrow> byte list \<Rightarrow> metadata \<Rightarrow> gateway \<Rightarrow> ref res \<times> gateway"
    and owner :: "ref \<Rightarrow> ref option"
  assumes open_error: "open_tunnel (Inl e) x ty d m g = (Inl e, g)"
    and open_result: "fst (open_tunnel (Inr ch) x ty d m g) = Inr (gw_nextRef g)"
    and open_store: "gw_tunnel (snd (open_tunnel (Inr ch) x ty d m g)) =
      (gw_tunnel g)(gw_nextRef g := make_tunnel (owner x) ch ty d m)"
    and open_next: "gw_nextRef (snd (open_tunnel (Inr ch) x ty d m g)) = Suc (gw_nextRef g)"
    and open_frame: "same_but_objects g (snd (open_tunnel a x ty d m g))"
begin

lemma open_failed_iff: "(\<exists>e. fst (open_tunnel a x ty d m g) = Inl e) \<longleftrightarrow> (\<exists>e. a = Inl e)"
  by (cases a) (simp_all add: open_error open_result)

lemma open_keeps_registry: "registry_ok g \<Longrightarrow> registry_ok (snd (open_tunnel a x ty d m g))"
  by (cases a) (simp_all add: open_error registry_ok_same_but_objects [OF _ open_frame] open_next)

lemma open_keeps_services:
  "lookupConnectionService host port (snd (open_tunnel a x ty d m g)) = lookupConnectionService host port g"
  by (rule lookup_same_but_objects [OF open_frame])

lemma open_fresh:
  assumes "open_tunnel a x ty d m g = (Inr t, g')"
  shows "t = gw_nextRef g" and "gw_tunnel g' t = make_tunnel (owner x) (projr a) ty d m"
    and "t' \<noteq> t \<Longrightarrow> gw_tunnel g' t' = gw_tunnel g t'"
proof -
  obtain ch where a: "a = Inr ch"
    using assms open_error by (cases a) auto
  then show t: "t = gw_nextRef g" using assms open_result by (metis fst_conv sum.inject(2))
  show "gw_tunnel g' t = make_tunnel (owner x) (projr a) ty d m"
    and "t' \<noteq> t \<Longrightarrow> gw_tunnel g' t' = gw_tunnel g t'"
    using open_store [of ch x ty d m g] a t assms by simp_all
qed

lemma open_fresh_next:
  assumes "open_tunnel a x ty d m g = (Inr t, g')"
  shows "gw_nextRef g' = Suc (gw_nextRef g)"
  using assms open_next [of "projr a" x ty d m g] open_error by (cases a) auto

text \<open>The payload a tunnel was opened with decodes to the data it was made from.\<close>

lemma open_payload:
  assumes "open_tunnel a x ty (marshalTunnelData td) m g = (Inr t, g')"
    and "tunnelDataAdmissible td" and "length (marshalTunnelData td) < 2 ^ 32"
  shows "unmarshalTunnelData (tn_extraData (gw_tunnel g' t)) = Inr td"
  using open_fresh(2) [OF assms(1)] tunnel_payload.dec_enc [OF assms(2,3)] by (simp add: make_tunnel_def)

end

lemma same_but_tunnels_refl [simp]: "same_but_tunnels c c" "same_but_tunnels c (addTunnel t c)"
  by (simp_all add: same_but_tunnels_def addTunnel_def)

lemma newTunnel_frame: "same_but_objects g (snd (newTunnel conn ch ty d m g))"
  by (auto simp: newTunnel_def same_but_objects_def Let_def modify_connection_def split: option.splits)

lemma newTunnel_store:
  "fst (newTunnel conn ch ty d m g) = gw_nextRef g"
  "gw_tunnel (snd (newTunnel conn ch ty d m g)) = (gw_tunnel g)(gw_nextRef g := make_tunnel conn ch ty d m)"
  "gw_nextRef (snd (newTunnel conn ch ty d m g)) = Suc (gw_nextRef g)"
  by (simp_all add: newTunnel_def Let_def modify_connection_def split: option.splits)

lemma same_but_objects_refl [simp]: "same_but_objects g g"
  by (simp add: same_but_objects_def)

interpretation connection_tunnels: tunnel_opener connection_openTunnel Some
  by unfold_locales
     (auto simp: connection_openTunnel_def newTunnel_store case_prod_beta newTunnel_frame
       split: sum.splits)

interpretation peer_tunnels: tunnel_opener peer_openTunnel "\<lambda>_. None"
  by unfold_locales
     (auto simp: peer_openTunnel_def newTunnel_store case_prod_beta newTunnel_frame split: sum.splits)

section \<open>Which peer a host is routed to\<close>

fun firstSome :: "('a \<Rightarrow> 'b option) \<Rightarrow> 'a list \<Rightarrow> 'b option" where
  "firstSome f [] = None"
| "firstSome f (x # xs) = (case f x of None \<Rightarrow> firstSome f xs | Some y \<Rightarrow> Some y)"

text \<open>The node a user is on, as far as round \<open>i\<close> knows: the cached route, or the database.\<close>

definition known_node :: "(nat \<Rightarrow> gotime) \<Rightarrow> (nat \<Rightarrow> fault) \<Rightarrow> gateway \<Rightarrow> nat \<Rightarrow> string \<Rightarrow> string" where
  "known_node clk faults g i user =
     (case rc_get (clk (3 * i)) user (gw_routes g) of
        Some nodeId \<Rightarrow> nodeId
      | None \<Rightarrow> (case db_GetUserNodeID (faults i) user (gw_database g) of Inl e \<Rightarrow> [] | Inr nodeId \<Rightarrow> nodeId))"

definition usable_peer :: "(nat \<Rightarrow> gotime) \<Rightarrow> (nat \<Rightarrow> fault) \<Rightarrow> gateway \<Rightarrow> nat \<times> string \<Rightarrow> ref option" where
  "usable_peer clk faults g iu =
     (case iu of (i, user) \<Rightarrow>
        let nodeId = known_node clk faults g i user
        in if user = [] \<or> nodeId = [] \<or> nodeId = gs_NodeID (gw_settings g) then None else getPeer nodeId g)"

lemma firstSome_cong: "(\<And>x. x \<in> set xs \<Longrightarrow> f x = f' x) \<Longrightarrow> firstSome f xs = firstSome f' xs"
  by (induction xs) (auto split: option.split)

lemma rc_get_invalidate: "rc_get t u (rc_invalidate k c) = (if u = k then None else rc_get t u c)"
  by (simp add: rc_get_entry rc_invalidate_laws)

lemma usable_peer_invalidate:
  "snd iu \<noteq> user \<Longrightarrow>
   usable_peer clk faults (g\<lparr>gw_routes := rc_invalidate user (gw_routes g)\<rparr>) iu = usable_peer clk faults g iu"
  by (cases iu) (simp add: usable_peer_def known_node_def rc_get_invalidate getPeer_def Let_def split: option.split)

text \<open>One round of the loop.\<close>

definition remoteRound :: "(nat \<Rightarrow> gotime) \<Rightarrow> (nat \<Rightarrow> fault) \<Rightarrow> nat \<Rightarrow> string \<Rightarrow> gateway \<Rightarrow> ref option \<times> gateway" where
  "remoteRound clk faults i user g =
     (case rc_get (clk (3 * i)) user (gw_routes g) of
        Some nodeId \<Rightarrow> useRoute (clk (3 * i + 1)) (clk (3 * i + 2)) user nodeId True g
      | None \<Rightarrow>
          (case db_GetUserNodeID (faults i) user (gw_database g) of
             Inl e \<Rightarrow> (None, g)
           | Inr nodeId \<Rightarrow> useRoute (clk (3 * i + 1)) (clk (3 * i + 2)) user nodeId False g))"

lemma remoteRound_result: "user \<noteq> [] \<Longrightarrow> fst (remoteRound clk faults i user g) = usable_peer clk faults g (i, user)"
  by (auto simp: remoteRound_def usable_peer_def known_node_def useRoute_def Let_def
      split: option.splits sum.splits)

lemma remoteRound_None:
  assumes "remoteRound clk faults i user g = (None, g')"
  shows "g' = g \<or> g' = g\<lparr>gw_routes := rc_invalidate user (gw_routes g)\<rparr>"
  using assms by (auto simp: remoteRound_def useRoute_def split: option.splits sum.splits if_splits)

definition same_but_routes :: "gateway \<Rightarrow> gateway \<Rightarrow> bool" where
  "same_but_routes g g' \<longleftrightarrow> (\<exists>routes. g' = g\<lparr>gw_routes := routes\<rparr>)"

lemma same_but_routes_intros [simp]: "same_but_routes g g" "same_but_routes g (g\<lparr>gw_routes := c\<rparr>)"
  unfolding same_but_routes_def by (rule exI [of _ "gw_routes g"], simp) blast

lemma same_but_routes_trans: "same_but_routes g g1 \<Longrightarrow> same_but_routes g1 g2 \<Longrightarrow> same_but_routes g g2"
  by (auto simp: same_but_routes_def)

lemma remoteRound_frame: "same_but_routes g (snd (remoteRound clk faults i user g))"
  by (auto simp: remoteRound_def useRoute_def split: option.splits sum.splits)

lemma lookupRemoteUsers_Cons:
  "lookupRemoteUsers clk faults i (user # users) g =
     (if user = [] then lookupRemoteUsers clk faults (Suc i) users g
      else case remoteRound clk faults i user g of
             (Some p, g') \<Rightarrow> (Some p, g')
           | (None, g') \<Rightarrow> lookupRemoteUsers clk faults (Suc i) users g')"
  by (simp add: remoteRound_def Let_def)

lemma lookupRemoteUsers_first:
  "distinct users \<Longrightarrow>
   fst (lookupRemoteUsers clk faults i users g) = firstSome (usable_peer clk faults g) (enumerate i users)"
proof (induction users arbitrary: i g)
  case (Cons user users)
  obtain res g' where step: "remoteRound clk faults i user g = (res, g')" by (metis surj_pair)
  show ?case
  proof (cases "user = []")
    case True
    then show ?thesis using Cons by (simp add: usable_peer_def)
  next
    case False
    with step have res: "usable_peer clk faults g (i, user) = res"
      using remoteRound_result [OF False, of clk faults i g] by simp
    show ?thesis
    proof (cases res)
      case None
      have "usable_peer clk faults g' iu = usable_peer clk faults g iu" if "iu \<in> set (enumerate (Suc i) users)" for iu
      proof -
        have "snd iu \<in> set users" using that by (metis imageI map_snd_enumerate set_map)
        then have "snd iu \<noteq> user" using Cons.prems by auto
        then show ?thesis using remoteRound_None [OF step [unfolded None]] usable_peer_invalidate by metis
      qed
      then have "firstSome (usable_peer clk faults g') (enumerate (Suc i) users) =
          firstSome (usable_peer clk faults g) (enumerate (Suc i) users)"
        by (rule firstSome_cong)
      then show ?thesis using None False step res Cons by (simp add: lookupRemoteUsers_Cons del: lookupRemoteUsers.simps)
    next
      case (Some p)
      then show ?thesis using False step res by (simp add: lookupRemoteUsers_Cons del: lookupRemoteUsers.simps)
    qed
  qed
qed simp

lemma lookupRemoteUsers_frame: "same_but_routes g (snd (lookupRemoteUsers clk faults i users g))"
proof (induction users arbitrary: i g)
  case (Cons user users)
  obtain res g' where step: "remoteRound clk faults i user g = (res, g')" by (metis surj_pair)
  then have "same_but_routes g g'" using remoteRound_frame [of g clk faults i user] by simp
  then show ?case
    using Cons [of g "Suc i"] same_but_routes_trans [OF _ Cons [of g' "Suc i"]] step
    by (cases res) (simp_all add: lookupRemoteUsers_Cons del: lookupRemoteUsers.simps)
qed simp

lemma distinct_candidate_users: "distinct (map snd (hostCandidates host))"
proof (rule distinct_conv_nth [THEN iffD2], intro allI impI)
  fix i j
  assume "i < length (map snd (hostCandidates host))" "j < length (map snd (hostCandidates host))" "i \<noteq> j"
  then show "map snd (hostCandidates host) ! i \<noteq> map snd (hostCandidates host) ! j"
    using hostCandidates_user_decreases [of i j host] hostCandidates_user_decreases [of j i host]
    by (cases "i < j") auto
qed

text \<open>C16: A host that is not served locally is routed to the peer of the first user name it stands
  for, longest first, whose node is another node with a live peer; the node is the cached
  one or, without a cache entry, the one in the database. A failing database query skips
  one name and does not end the search. The search changes nothing but the route cache,
  and without a node id there is no peer at all.\<close>

theorem remote_peer_first_usable:
  "fst (lookupRemotePeer clk faults host g) =
     (if gs_NodeID (gw_settings g) = [] then None
      else firstSome (usable_peer clk faults g) (enumerate 0 (map snd (hostCandidates host))))
   \<and> same_but_routes g (snd (lookupRemotePeer clk faults host g))"
  by (simp add: lookupRemotePeer_def lookupRemoteUsers_first distinct_candidate_users lookupRemoteUsers_frame)

lemma fold_rc_invalidate:
  "rc_get t u (fold rc_invalidate us c) = (if u \<in> set us then None else rc_get t u c)"
  by (induction us arbitrary: c) (auto simp: rc_get_invalidate)

lemma invalidateRoutes_forgets:
  "host_names host h u \<Longrightarrow> u \<noteq> [] \<Longrightarrow> rc_get t u (gw_routes (invalidateRoutes host g)) = None"
  by (force simp: invalidateRoutes_def fold_rc_invalidate set_hostCandidates [symmetric])

text \<open>C29: When a peer refuses the tunnel for a host, the proxy client gets that error, and every cached
  route the host could be looked up under is gone, so that the next attempt asks the
  database again. Nothing else of the gateway changes.\<close>

theorem refused_tunnel_forgets_routes:
  assumes "lookupConnectionService host port g = None" and "fst (lookupRemotePeer clk faults host g) = Some p"
  shows "\<exists>g'. openServiceTunnel clk faults (Inl e) host port origin originPort g = (Inl e, g')
    \<and> same_but_routes g g'
    \<and> (\<forall>h u t. host_names host h u \<and> u \<noteq> [] \<longrightarrow> rc_get t u (gw_routes g') = None)"
proof -
  obtain g1 where g1: "lookupRemotePeer clk faults host g = (Some p, g1)"
    using assms(2) by (metis prod.collapse)
  then have frame: "same_but_routes g g1"
    using lookupRemoteUsers_frame [of g clk faults 0 "map snd (hostCandidates host)"]
    by (auto simp: lookupRemotePeer_def split: if_splits)
  have "openServiceTunnel clk faults (Inl e) host port origin originPort g = (Inl e, invalidateRoutes host g1)"
    using assms(1) g1 by (simp add: openServiceTunnel_def Let_def peer_tunnels.open_error)
  moreover have "same_but_routes g (invalidateRoutes host g1)"
    using frame by (rule same_but_routes_trans) (simp add: invalidateRoutes_def)
  ultimately show ?thesis using invalidateRoutes_forgets by blast
qed

lemma lookup_result_names:
  assumes "lookupConnectionService host port g = Some (r, h, p)"
  shows "p = port" and "length h \<le> length host"
proof -
  obtain i u where i: "i < length (hostCandidates host)" "hostCandidates host ! i = (h, u)" and "p = port"
    using assms unfolding lookupConnectionService_def by (rule lookupCandidates_Some)
  then show "p = port" by simp
  show "length h \<le> length host"
    using hostCandidates_nth_names [OF i(1)] i(2) by (auto simp: host_names_def)
qed

lemma lookupRemotePeer_frame: "same_but_routes g (snd (lookupRemotePeer clk faults host g))"
  by (simp add: lookupRemotePeer_def lookupRemoteUsers_frame)

lemma openServiceTunnel_cases:
  assumes "openServiceTunnel clk faults answer host port origin originPort g = (Inr t, g')"
  obtains (local) r h where "lookupConnectionService host port g = Some (r, h, port)"
      "connection_openTunnel answer r ''forwarded-tcpip'' (marshalTunnelData \<lparr>td_Host = h, td_Port = ucast port,
         td_OriginAddress = origin, td_OriginPort = originPort\<rparr>) (serviceMetadata host (unat port) origin) g = (Inr t, g')"
  | (remote) q g1 where "lookupConnectionService host port g = None"
      "lookupRemotePeer clk faults host g = (Some q, g1)"
      "peer_openTunnel answer q ''direct-tcpip'' (marshalTunnelData \<lparr>td_Host = host, td_Port = ucast port,
         td_OriginAddress = origin, td_OriginPort = originPort\<rparr>) (serviceMetadata host (unat port) origin) g1 = (Inr t, g')"
  using assms
  by (auto simp: openServiceTunnel_def Let_def dest: lookup_result_names(1)
      split: option.splits prod.splits sum.splits)


text \<open>The sample node with a peer, on whose node the user bob is.\<close>

definition sample_mesh_gateway :: gateway where
  "sample_mesh_gateway = sample_gateway\<lparr>gw_peers := [(''node-b'', 7)], gw_peer := (\<lambda>_. \<lparr>pe_nodeId = ''node-b'', pe_closed = False\<rparr>),
     gw_nextRef := 8, gw_database := \<lparr>db_users = [(''bob'', save_user (zero_user\<lparr>us_ID := ''bob'', us_NodeID := ''node-b''\<rparr>))],
       db_nodes = []\<rparr>\<rparr>"

lemmas sample_gateway_defs = sample_gateway_def modify_connection_def acceptConnection_def addConnection_def
  newGateway_def newConnection_def sample_permissions_def sample_gwSettings_def registerService_def

lemma sample_lookup:
  "lookupConnectionService ''web.alice'' 80 sample_gateway = Some (0, ''web'', 80)"
  "lookupConnectionService ''ssh.bob'' 22 sample_mesh_gateway = None"
  by (simp_all add: lookupConnectionService_def hostCandidates_def indexed_def sample_mesh_gateway_def
      sample_gateway_defs lookupService_def Let_def upt_rec numeral_eq_Suc mput_def)

lemma sample_remote:
  "lookupRemotePeer (\<lambda>_. 0) (\<lambda>_. None) ''ssh.bob'' sample_mesh_gateway =
     (Some 7, sample_mesh_gateway\<lparr>gw_routes := rc_put 0 0 ''bob'' ''node-b'' newRouteCache\<rparr>)"
  by (simp add: lookupRemotePeer_def hostCandidates_def sample_mesh_gateway_def sample_gateway_defs Let_def
      upt_rec numeral_eq_Suc rc_get_def newRouteCache_def db_GetUserNodeID_def useRoute_def getPeer_def save_user_def)

theorem refused_tunnel_forgets_routes_witness:
  "\<exists>g'. openServiceTunnel (\<lambda>_. 0) (\<lambda>_. None) (Inl ErrEOF) ''ssh.bob'' 22 ''10.0.0.1'' 5000 sample_mesh_gateway
      = (Inl ErrEOF, g') \<and> rc_get 0 ''bob'' (gw_routes g') = None"
  using refused_tunnel_forgets_routes [of "''ssh.bob''" 22 sample_mesh_gateway "\<lambda>_. 0" "\<lambda>_. None" 7 ErrEOF
      "''10.0.0.1''" 5000] sample_lookup(2) sample_remote
  by (force simp: host_names_def)


end
