(* ===== verification/Channels.thy ===== *)
theory Channels
  imports Routing
begin

text \<open>
  \<^verbatim>\<open>gateway/connection.go\<close>, the channels a client opens: who may open a session, a tunnel or
  the bridge to the database, and where a tunnel goes. A handler's goroutines are values
  (\<open>task\<close>): the handler returns the tasks it started, and \<open>startTunnel\<close> and
  \<open>finishTunnel\<close> are what the goroutines of a tunnel do to the state. What the ssh
  library answers to \<^verbatim>\<open>Accept\<close>, \<^verbatim>\<open>Close\<close> and \<^verbatim>\<open>OpenChannel\<close> is a parameter.
\<close>

datatype rejectionReason = Prohibited | ConnectionFailed | UnknownChannelType

record newChannel =
  nc_ChannelType :: string
  nc_ExtraData :: "byte list"

datatype target = PeerTarget ref | ConnectionTarget ref string u16

record tunnelTask =
  tk_connection :: ref
  tk_channel :: ref
  tk_newChannel :: newChannel
  tk_data :: tunnelData
  tk_target :: target

datatype task =
    RunSession ref ref
  | RunTunnel tunnelTask
  | BridgePostgres ref ref string
  | DiscardRequests ref ref

text \<open>\<^verbatim>\<open>(bool, ssh.RejectionReason, string, error)\<close>; the zero reason is None.\<close>

record channelResult =
  cr_ok :: bool
  cr_rejection :: "rejectionReason option"
  cr_message :: string
  cr_err :: "goerror option"

definition accepted :: channelResult where
  "accepted = \<lparr>cr_ok = True, cr_rejection = None, cr_message = [], cr_err = None\<rparr>"

definition acceptFailed :: "goerror \<Rightarrow> channelResult" where
  "acceptFailed e = \<lparr>cr_ok = True, cr_rejection = None, cr_message = [], cr_err = Some e\<rparr>"

definition rejected :: "rejectionReason \<Rightarrow> string \<Rightarrow> goerror option \<Rightarrow> channelResult" where
  "rejected reason message err =
     \<lparr>cr_ok = False, cr_rejection = Some reason, cr_message = message, cr_err = err\<rparr>"

definition handleSessionChannel :: "ref res \<Rightarrow> ref \<Rightarrow> newChannel \<Rightarrow> channelResult \<times> task list" where
  "handleSessionChannel accept r nc =
     (if nc_ExtraData nc \<noteq> [] then (rejected Prohibited ''extra data not allowed'' (Some ErrExtraDataNotAllowed), [])
      else case accept of
             Inl e \<Rightarrow> (acceptFailed e, [])
           | Inr channel \<Rightarrow> (accepted, [RunSession r channel]))"

definition handlePostgresChannel :: "ref res \<Rightarrow> ref \<Rightarrow> gateway \<Rightarrow> channelResult \<times> task list" where
  "handlePostgresChannel accept r g =
     (if cn_nodeId (gw_connection g r) = []
      then (rejected Prohibited ''permission denied'' (Some ErrPermissionDenied), [])
      else if gs_PostgresAddress (gw_settings g) = []
      then (rejected Prohibited ''permission denied'' (Some ErrPermissionDenied), [])
      else case accept of
             Inl e \<Rightarrow> (acceptFailed e, [])
           | Inr channel \<Rightarrow>
               (accepted, [DiscardRequests r channel, BridgePostgres r channel (gs_PostgresAddress (gw_settings g))]))"

definition handleTunnelChannel ::
    "(nat \<Rightarrow> gotime) \<Rightarrow> (nat \<Rightarrow> fault) \<Rightarrow> ref res \<Rightarrow> ref \<Rightarrow> newChannel \<Rightarrow> gateway \<Rightarrow>
     channelResult \<times> task list \<times> gateway" where
  "handleTunnelChannel clk faults accept r nc g =
     (let self = gw_connection g r
      in case unmarshalTunnelData (nc_ExtraData nc) of
           Inl e \<Rightarrow> (rejected UnknownChannelType ''failed to decode extra data'' (Some e), [], g)
         | Inr data \<Rightarrow>
             if cn_nodeId self \<noteq> [] \<and> td_Host data = ''postgres'' \<and> td_Port data = 5432
             then (case handlePostgresChannel accept r g of (res, tasks) \<Rightarrow> (res, tasks, g))
             else if \<not> cn_permitPortForwarding self \<and> cn_nodeId self = []
             then (rejected Prohibited ''permission denied'' (Some ErrPermissionDenied), [], g)
             else if td_Port data > 65535
             then (rejected ConnectionFailed ''port is out of range'' None, [], g)
             else
               let found = lookupConnectionService (td_Host data) (ucast (td_Port data)) g;
                   (remote, g1) = (if found = None \<and> cn_nodeId self = []
                                   then lookupRemotePeer clk faults (td_Host data) g else (None, g))
               in case (remote, found) of
                    (None, None) \<Rightarrow> (rejected ConnectionFailed ''service not found or not online'' None, [], g1)
                  | _ \<Rightarrow>
                      (case accept of
                         Inl e \<Rightarrow> (acceptFailed e, [], g1)
                       | Inr channel \<Rightarrow>
                           (accepted,
                            [RunTunnel \<lparr>tk_connection = r, tk_channel = channel, tk_newChannel = nc, tk_data = data,
                               tk_target = (case remote of
                                              Some p \<Rightarrow> PeerTarget p
                                            | None \<Rightarrow> (case the found of (c, host, port) \<Rightarrow> ConnectionTarget c host port))\<rparr>],
                            g1)))"

text \<open>
  The result of \<open>handleChannel\<close> is the error it returns, which ends the connection, and whether
  the channel was accepted only to be closed, which is how a channel is refused. \<open>closeFault\<close>
  is what closing such a channel returns.
\<close>

definition handleChannel ::
    "(nat \<Rightarrow> gotime) \<Rightarrow> (nat \<Rightarrow> fault) \<Rightarrow> ref res \<Rightarrow> fault \<Rightarrow> ref \<Rightarrow> newChannel \<Rightarrow> gateway \<Rightarrow>
     goerror option \<times> bool \<times> task list \<times> gateway" where
  "handleChannel clk faults accept closeFault r nc g =
     (let (res, tasks, g1) =
        (if nc_ChannelType nc = ''session'' then
           (if cn_nodeId (gw_connection g r) \<noteq> []
            then (rejected Prohibited ''sessions not allowed on peer connections'' None, [], g)
            else (case handleSessionChannel accept r nc of (res, tasks) \<Rightarrow> (res, tasks, g)))
         else if nc_ChannelType nc = ''direct-tcpip'' then handleTunnelChannel clk faults accept r nc g
         else (rejected UnknownChannelType ''unknown channel type'' (Some ErrUnknownChannelType), [], g))
      in case cr_err res of
           Some e \<Rightarrow> (Some e, False, tasks, g1)
         | None \<Rightarrow>
             if cr_ok res then (None, False, tasks, g1)
             else (case accept of
                     Inl e \<Rightarrow> (Some e, False, tasks, g1)
                   | Inr channel \<Rightarrow> (closeFault, True, tasks @ [DiscardRequests r channel], g1)))"

section \<open>The goroutines of a tunnel\<close>

definition targetMetadata :: "target \<Rightarrow> gateway \<Rightarrow> metadata" where
  "targetMetadata tgt g =
     (case tgt of
        PeerTarget p \<Rightarrow> MObject [(''nodeId'', MString (pe_nodeId (gw_peer g p)))]
      | ConnectionTarget r host port \<Rightarrow>
          MObject [(''user'', MString (cn_user (gw_connection g r))),
                   (''address'', MString (cn_remoteAddress (gw_connection g r)))])"

definition serviceObject :: "tunnelData \<Rightarrow> metadata" where
  "serviceObject data = MObject [(''host'', MString (td_Host data)), (''port'', MPort (unat (td_Port data)))]"

definition targetData :: "target \<Rightarrow> tunnelData \<Rightarrow> byte list" where
  "targetData tgt data =
     (case tgt of
        PeerTarget p \<Rightarrow> marshalTunnelData data
      | ConnectionTarget r host port \<Rightarrow>
          marshalTunnelData \<lparr>td_Host = host, td_Port = ucast port,
            td_OriginAddress = td_OriginAddress data, td_OriginPort = td_OriginPort data\<rparr>)"

definition thisMetadata :: "tunnelTask \<Rightarrow> gateway \<Rightarrow> metadata" where
  "thisMetadata tk g =
     MObject [(''origin'', MString (td_OriginAddress (tk_data tk))), (''to'', targetMetadata (tk_target tk) g),
              (''service'', serviceObject (tk_data tk))]"

definition otherMetadata :: "tunnelTask \<Rightarrow> gateway \<Rightarrow> metadata" where
  "otherMetadata tk g =
     MObject [(''origin'', MString (td_OriginAddress (tk_data tk))),
              (''from'', MObject [(''address'', MString (cn_remoteAddress (gw_connection g (tk_connection tk)))),
                                  (''user'', MString (cn_user (gw_connection g (tk_connection tk))))]),
              (''service'', serviceObject (tk_data tk))]"

definition openTarget :: "ref res \<Rightarrow> tunnelTask \<Rightarrow> metadata \<Rightarrow> gateway \<Rightarrow> ref res \<times> gateway" where
  "openTarget answer tk metadata g =
     (case tk_target tk of
        PeerTarget p \<Rightarrow>
          peer_openTunnel answer p ''direct-tcpip'' (targetData (tk_target tk) (tk_data tk)) metadata g
      | ConnectionTarget r host port \<Rightarrow>
          connection_openTunnel answer r ''forwarded-tcpip'' (targetData (tk_target tk) (tk_data tk)) metadata g)"

text \<open>
  Track the accepted channel, then open the channel to the target. The result is the tunnel
  of the accepted channel and, when the target agreed, the tunnel to it; when it refused,
  the first tunnel is closed and a stale route is forgotten.
\<close>

definition startTunnel :: "ref res \<Rightarrow> tunnelTask \<Rightarrow> gateway \<Rightarrow> ref \<times> ref option \<times> gateway" where
  "startTunnel answer tk g =
     (let (this, g1) = newTunnel (Some (tk_connection tk)) (tk_channel tk) (nc_ChannelType (tk_newChannel tk))
             (nc_ExtraData (tk_newChannel tk)) (thisMetadata tk g) g
      in case openTarget answer tk (otherMetadata tk g1) g1 of
           (Inr other, g2) \<Rightarrow> (this, Some other, g2)
         | (Inl e, g2) \<Rightarrow>
             (this, None, modify_tunnel this tunnel_close
                (case tk_target tk of PeerTarget p \<Rightarrow> invalidateRoutes (td_Host (tk_data tk)) g2 | _ \<Rightarrow> g2)))"

text \<open>The deferred part of a tunnel's request loop.\<close>

definition finishTunnel :: "ref \<Rightarrow> gateway \<Rightarrow> gateway" where
  "finishTunnel t g =
     (case tn_connection (gw_tunnel g t) of
        None \<Rightarrow> g
      | Some r \<Rightarrow> modify_connection r (deleteTunnel t) g)"

section \<open>Which tasks a channel may start\<close>

lemmas result_defs = accepted_def acceptFailed_def rejected_def

lemma handleTunnelChannel_tasks:
  assumes "handleTunnelChannel clk faults accept r nc g = (res, tasks, g')"
  obtains (none) "tasks = []"
  | (postgres) channel data where "accept = Inr channel" "unmarshalTunnelData (nc_ExtraData nc) = Inr data"
      "td_Host data = ''postgres''" "td_Port data = 5432" "cn_nodeId (gw_connection g r) \<noteq> []"
      "gs_PostgresAddress (gw_settings g) \<noteq> []"
      "tasks = [DiscardRequests r channel, BridgePostgres r channel (gs_PostgresAddress (gw_settings g))]"
  | (remote) channel data p where "accept = Inr channel" "unmarshalTunnelData (nc_ExtraData nc) = Inr data"
      "cn_nodeId (gw_connection g r) = []" "cn_permitPortForwarding (gw_connection g r)"
      "lookupConnectionService (td_Host data) (ucast (td_Port data)) g = None"
      "fst (lookupRemotePeer clk faults (td_Host data) g) = Some p"
      "tasks = [RunTunnel \<lparr>tk_connection = r, tk_channel = channel, tk_newChannel = nc, tk_data = data,
         tk_target = PeerTarget p\<rparr>]"
  | (local) channel data c h p where "accept = Inr channel" "unmarshalTunnelData (nc_ExtraData nc) = Inr data"
      "cn_nodeId (gw_connection g r) \<noteq> [] \<or> cn_permitPortForwarding (gw_connection g r)"
      "\<not> (cn_nodeId (gw_connection g r) \<noteq> [] \<and> td_Host data = ''postgres'' \<and> td_Port data = 5432)"
      "lookupConnectionService (td_Host data) (ucast (td_Port data)) g = Some (c, h, p)"
      "tasks = [RunTunnel \<lparr>tk_connection = r, tk_channel = channel, tk_newChannel = nc, tk_data = data,
         tk_target = ConnectionTarget c h p\<rparr>]"
  using assms
  by (auto simp: handleTunnelChannel_def handlePostgresChannel_def Let_def
      split: sum.splits if_splits option.splits prod.splits)

lemma handleChannel_tunnel:
  assumes "handleChannel clk faults accept closeFault r nc g = (err, refused, tasks, g')"
    and "task \<in> set tasks" and "\<And>c ch. task \<noteq> DiscardRequests c ch" and "\<And>c ch. task \<noteq> RunSession c ch"
  obtains res tasks' where "nc_ChannelType nc = ''direct-tcpip''"
    "handleTunnelChannel clk faults accept r nc g = (res, tasks', g')" "task \<in> set tasks'"
  using assms
  by (auto simp: handleChannel_def handleSessionChannel_def Let_def
      split: sum.splits if_splits option.splits prod.splits)

text \<open>C4: A tunnel is opened for a client only with the permission to forward ports, or for a peer
  node. It goes to the local connection the lookup finds for the requested host and port;
  to a peer it goes only when no local connection has the service and the request did
  not itself come from a peer, so that no request crosses the mesh twice.\<close>

theorem tunnel_authorised:
  assumes "handleChannel clk faults accept closeFault r nc g = (err, refused, tasks, g')"
    and "RunTunnel tk \<in> set tasks"
  shows "nc_ChannelType nc = ''direct-tcpip'' \<and> tk_connection tk = r \<and> accept = Inr (tk_channel tk)
    \<and> unmarshalTunnelData (nc_ExtraData nc) = Inr (tk_data tk)
    \<and> (cn_permitPortForwarding (gw_connection g r) \<or> cn_nodeId (gw_connection g r) \<noteq> [])
    \<and> (case tk_target tk of
         ConnectionTarget c h p \<Rightarrow>
           lookupConnectionService (td_Host (tk_data tk)) (ucast (td_Port (tk_data tk))) g = Some (c, h, p)
       | PeerTarget p \<Rightarrow>
           cn_nodeId (gw_connection g r) = []
           \<and> lookupConnectionService (td_Host (tk_data tk)) (ucast (td_Port (tk_data tk))) g = None
           \<and> fst (lookupRemotePeer clk faults (td_Host (tk_data tk)) g) = Some p)"
proof -
  obtain res tasks' where t: "nc_ChannelType nc = ''direct-tcpip''"
      "handleTunnelChannel clk faults accept r nc g = (res, tasks', g')" "RunTunnel tk \<in> set tasks'"
    by (rule handleChannel_tunnel [OF assms]) auto
  from t(2) show ?thesis
    by (cases rule: handleTunnelChannel_tasks) (use t in auto)
qed

text \<open>C10: The local database is bridged to a channel exactly when the connection is that of a peer
  node, the channel is a tunnel to the host postgres and port 5432, a database address is
  configured and the channel could be accepted; the bridge goes to that address. No user
  connection, whatever its permissions, reaches the database.\<close>

theorem postgres_bridge_iff:
  "(\<exists>err refused tasks g'. handleChannel clk faults accept closeFault r nc g = (err, refused, tasks, g')
      \<and> BridgePostgres r channel address \<in> set tasks) \<longleftrightarrow>
   cn_nodeId (gw_connection g r) \<noteq> [] \<and> nc_ChannelType nc = ''direct-tcpip''
   \<and> (\<exists>data. unmarshalTunnelData (nc_ExtraData nc) = Inr data \<and> td_Host data = ''postgres'' \<and> td_Port data = 5432)
   \<and> address = gs_PostgresAddress (gw_settings g) \<and> address \<noteq> [] \<and> accept = Inr channel"
  (is "?lhs \<longleftrightarrow> ?rhs")
proof
  assume ?lhs
  then obtain err refused tasks g' where h: "handleChannel clk faults accept closeFault r nc g = (err, refused, tasks, g')"
      "BridgePostgres r channel address \<in> set tasks" by blast
  obtain res tasks' where t: "nc_ChannelType nc = ''direct-tcpip''"
      "handleTunnelChannel clk faults accept r nc g = (res, tasks', g')" "BridgePostgres r channel address \<in> set tasks'"
    by (rule handleChannel_tunnel [OF h]) auto
  from t(2) show ?rhs by (cases rule: handleTunnelChannel_tasks) (use t in auto)
next
  assume ?rhs
  then show ?lhs
    by (auto simp: handleChannel_def handleTunnelChannel_def handlePostgresChannel_def result_defs Let_def)
qed

text \<open>A session is started exactly for a user connection that asks for one without extra data;
  a peer node that asks for one is refused and keeps its connection.\<close>

theorem session_iff:
  "((\<exists>err refused tasks g'. handleChannel clk faults accept closeFault r nc g = (err, refused, tasks, g')
      \<and> RunSession r channel \<in> set tasks) \<longleftrightarrow>
    cn_nodeId (gw_connection g r) = [] \<and> nc_ChannelType nc = ''session'' \<and> nc_ExtraData nc = []
    \<and> accept = Inr channel)
   \<and> (cn_nodeId (gw_connection g r) \<noteq> [] \<and> nc_ChannelType nc = ''session'' \<longrightarrow>
        handleChannel clk faults (Inr channel) None r nc g = (None, True, [DiscardRequests r channel], g))"
  by (auto simp: handleChannel_def handleSessionChannel_def result_defs Let_def
      split: sum.splits if_splits option.splits prod.splits elim!: handleTunnelChannel_tasks)

section \<open>What the target is asked for\<close>

lemma startTunnel_opened:
  assumes "startTunnel answer tk g = (this, Some other, g')"
  obtains g1 m where "openTarget answer tk m g1 = (Inr other, g')"
  using assms by (auto simp: startTunnel_def Let_def split: prod.splits sum.splits)


text \<open>Alice asks for a tunnel to the service web of her own connection.\<close>

definition sample_data :: tunnelData where
  "sample_data = \<lparr>td_Host = ''web.alice'', td_Port = 80, td_OriginAddress = ''10.0.0.1'', td_OriginPort = 5000\<rparr>"

definition sample_newChannel :: newChannel where
  "sample_newChannel = \<lparr>nc_ChannelType = ''direct-tcpip'', nc_ExtraData = marshalTunnelData sample_data\<rparr>"

definition sample_task :: tunnelTask where
  "sample_task = \<lparr>tk_connection = 0, tk_channel = 5, tk_newChannel = sample_newChannel, tk_data = sample_data,
     tk_target = ConnectionTarget 0 ''web'' 80\<rparr>"

lemma sample_payload:
  "length (marshalTunnelData sample_data) < 2 ^ 32" "unmarshalTunnelData (marshalTunnelData sample_data) = Inr sample_data"
proof -
  show l: "length (marshalTunnelData sample_data) < 2 ^ 32"
    by (simp add: length_marshalTunnelData sample_data_def)
  show "unmarshalTunnelData (marshalTunnelData sample_data) = Inr sample_data"
    using l by (intro tunnel_payload.dec_enc) (simp_all add: tunnelDataAdmissible_def sample_data_def)
qed

lemma sample_handleChannel:
  "handleChannel (\<lambda>_. 0) (\<lambda>_. None) (Inr 5) None 0 sample_newChannel sample_gateway =
     (None, False, [RunTunnel sample_task], sample_gateway)"
proof -
  have "cn_permitPortForwarding (gw_connection sample_gateway 0)" "cn_nodeId (gw_connection sample_gateway 0) = []"
    by (simp_all add: sample_gateway_defs Let_def)
  moreover have "td_Host sample_data = ''web.alice''" "td_Port sample_data = 80" by (simp_all add: sample_data_def)
  ultimately show ?thesis
    using sample_payload(2) sample_lookup(1)
    by (simp add: handleChannel_def handleTunnelChannel_def sample_newChannel_def sample_task_def result_defs Let_def)
qed

theorem tunnel_authorised_witness:
  "unmarshalTunnelData (nc_ExtraData sample_newChannel) = Inr sample_data
   \<and> lookupConnectionService ''web.alice'' 80 sample_gateway = Some (0, ''web'', 80)"
  using tunnel_authorised [OF sample_handleChannel, of sample_task] by (simp add: sample_task_def sample_data_def)

theorem session_iff_witness:
  "handleChannel (\<lambda>_. 0) (\<lambda>_. None) (Inr 5) None 0 \<lparr>nc_ChannelType = ''session'', nc_ExtraData = []\<rparr>
     (modify_connection 0 (\<lambda>c. c\<lparr>cn_nodeId := ''node-b''\<rparr>) sample_gateway) =
   (None, True, [DiscardRequests 0 5], modify_connection 0 (\<lambda>c. c\<lparr>cn_nodeId := ''node-b''\<rparr>) sample_gateway)"
  using session_iff [of "\<lambda>_. 0" "\<lambda>_. None" "Inr 5" None 0 "\<lparr>nc_ChannelType = ''session'', nc_ExtraData = []\<rparr>"
      "modify_connection 0 (\<lambda>c. c\<lparr>cn_nodeId := ''node-b''\<rparr>) sample_gateway" 5]
  by (simp add: modify_connection_def)


end
