(* ===== verification/Presence.thy ===== *)
theory Presence
  imports Routing
begin

text \<open>
  \<^verbatim>\<open>gateway/gateway.go\<close>, who is online: closing and kicking connections, the heartbeat that
  refreshes the presence of connected users, the release of a user's node after the last
  connection closed, and the user listings. The heartbeat and the releases run
  concurrently with logins and disconnects; \<open>presence_step\<close> interleaves their atomic
  parts, and the convergence of the recorded nodes is proved about every interleaving.
\<close>

definition onlineHeartbeatInterval :: duration where
  "onlineHeartbeatInterval = 30 * second"

definition onlineStaleThreshold :: duration where
  "onlineStaleThreshold = 90 * second"

section \<open>Closing connections\<close>

definition closeConnection :: "ref \<Rightarrow> gateway \<Rightarrow> gateway" where
  "closeConnection r g = modify_connection r connection_close g"

text \<open>The i-th connection of the snapshot is compared with the i-th reading of the clock.\<close>

fun scavengeLoop :: "(nat \<Rightarrow> gotime) \<Rightarrow> duration \<Rightarrow> nat \<Rightarrow> ref list \<Rightarrow> gateway \<Rightarrow> gateway" where
  "scavengeLoop clk timeout i [] g = g"
| "scavengeLoop clk timeout i (r # rs) g =
     scavengeLoop clk timeout (Suc i) rs
       (if timeSub (clk i) (conn_getUsedAt (gw_connection g r)) > timeout then closeConnection r g else g)"

definition ScavengeConnections :: "(nat \<Rightarrow> gotime) \<Rightarrow> duration \<Rightarrow> gateway \<Rightarrow> gateway" where
  "ScavengeConnections clk timeout g = scavengeLoop clk timeout 0 (listConnections g) g"

text \<open>
  \<^verbatim>\<open>close\<close> waits for every goroutine of the connection. A goroutine that belongs to the
  connection itself, such as the session that runs a kick, then waits for itself: the
  call does not return. \<open>caller\<close> is the connection the calling goroutine belongs to, and
  the result says whether the loop came to its end.
\<close>

fun kickLoop :: "ref option \<Rightarrow> string \<Rightarrow> ref list \<Rightarrow> gateway \<Rightarrow> bool \<times> gateway" where
  "kickLoop caller user [] g = (True, g)"
| "kickLoop caller user (r # rs) g =
     (if cn_user (gw_connection g r) = user
      then (if caller = Some r then (False, closeConnection r g)
            else kickLoop caller user rs (closeConnection r g))
      else kickLoop caller user rs g)"

definition kickUser :: "ref option \<Rightarrow> string \<Rightarrow> gateway \<Rightarrow> bool \<times> gateway" where
  "kickUser caller user g =
     (let g1 = (case gs_RevokeLoginFlags (gw_settings g) of
                  None \<Rightarrow> g
                | Some revoke \<Rightarrow> g\<lparr>gw_loginFlags := revoke user (gw_loginFlags g)\<rparr>)
      in kickLoop caller user (listConnections g1) g1)"

section \<open>Presence\<close>

definition isHeartbeatFresh :: "gotime \<Rightarrow> gotime \<Rightarrow> bool" where
  "isHeartbeatFresh now onlineAt \<longleftrightarrow> \<not> timeIsZero onlineAt \<and> timeSub now onlineAt < onlineStaleThreshold"

definition isUserOnline :: "gotime \<Rightarrow> user \<Rightarrow> bool" where
  "isUserOnline now user = isHeartbeatFresh now (us_OnlineAt user)"

text \<open>\<^verbatim>\<open>releaseUserNode\<close> in its two atomic parts, and the two in sequence.\<close>

definition releaseCheck :: "string \<Rightarrow> gateway \<Rightarrow> bool" where
  "releaseCheck userId g \<longleftrightarrow>
     \<not> (gs_NodeID (gw_settings g) = [] \<or> userId = []) \<and> \<not> length (indexed g userId) > 0"

definition releaseClear :: "fault \<Rightarrow> gotime \<Rightarrow> string \<Rightarrow> gateway \<Rightarrow> gateway" where
  "releaseClear fault now userId g =
     g\<lparr>gw_database := snd (db_ClearUserNodeID fault now userId (gs_NodeID (gw_settings g)) (gw_database g))\<rparr>"

definition releaseUserNode :: "fault \<Rightarrow> gotime \<Rightarrow> string \<Rightarrow> gateway \<Rightarrow> gateway" where
  "releaseUserNode fault now userId g =
     (if releaseCheck userId g then releaseClear fault now userId g else g)"

text \<open>The deferred part of a connection's loop.\<close>

definition endConnection :: "fault \<Rightarrow> gotime \<Rightarrow> ref \<Rightarrow> gateway \<Rightarrow> gateway" where
  "endConnection fault now r g =
     releaseUserNode fault now (cn_user (gw_connection g r)) (deleteConnection r g)"

definition markOnline :: "fault \<Rightarrow> gotime \<Rightarrow> string list \<Rightarrow> gateway \<Rightarrow> unit res \<times> gateway" where
  "markOnline fault now userIds g =
     (let (r, db) = db_MarkUsersOnline fault now userIds (gs_NodeID (gw_settings g)) onlineStaleThreshold (gw_database g)
      in (r, g\<lparr>gw_database := db\<rparr>))"

definition departed :: "string list \<Rightarrow> gateway \<Rightarrow> string list" where
  "departed userIds g = filter (\<lambda>userId. userId \<notin> set (connectedUserIds g)) userIds"

text \<open>One round of \<^verbatim>\<open>runOnlineHeartbeat\<close>, without interference from other goroutines.\<close>

definition onlineBeat :: "fault \<Rightarrow> (string \<Rightarrow> fault) \<Rightarrow> gotime \<Rightarrow> gotime \<Rightarrow> gateway \<Rightarrow> gateway" where
  "onlineBeat fault releaseFault now now' g =
     (let userIds = connectedUserIds g
      in if userIds = [] then g
         else case markOnline fault now userIds g of
                (Inl e, g1) \<Rightarrow> g1
              | (Inr _, g1) \<Rightarrow>
                  fold (\<lambda>userId. releaseUserNode (releaseFault userId) now' userId) (departed userIds g1) g1)"

section \<open>Listings\<close>

text \<open>A response is its list of users and their number.\<close>

definition userListResponse :: "user list \<Rightarrow> user list \<times> nat" where
  "userListResponse users = (users, length users)"

definition onlineUserListResponse :: "user list \<Rightarrow> user list \<times> nat" where
  "onlineUserListResponse users =
     userListResponse (map (\<lambda>u. u\<lparr>us_Status := [], us_Online := True\<rparr>) users)"

text \<open>The clock is read once for each user.\<close>

definition gw_ListUsers :: "fault \<Rightarrow> (nat \<Rightarrow> gotime) \<Rightarrow> gateway \<Rightarrow> (user list \<times> nat) res" where
  "gw_ListUsers fault clk g =
     (case db_ListUsers fault (gw_database g) of
        Inl e \<Rightarrow> Inl e
      | Inr users \<Rightarrow>
          Inr (userListResponse (map (\<lambda>(i, u). u\<lparr>us_Status := [],
             us_Online := (us_ID u \<in> set (connectedUserIds g) \<or> isUserOnline (clk i) u)\<rparr>) (enumerate 0 users))))"

definition gw_ListOnlineUsers :: "fault \<Rightarrow> gotime \<Rightarrow> gateway \<Rightarrow> (user list \<times> nat) res" where
  "gw_ListOnlineUsers fault now g =
     (case db_ListOnlineUsers fault (now - onlineStaleThreshold) (gw_database g) of
        Inl e \<Rightarrow> Inl e
      | Inr users \<Rightarrow> Inr (onlineUserListResponse users))"

definition gw_ListLocalOnlineUsers :: "fault \<Rightarrow> gateway \<Rightarrow> (user list \<times> nat) res" where
  "gw_ListLocalOnlineUsers fault g =
     (case db_GetUsers fault (connectedUserIds g) (gw_database g) of
        Inl e \<Rightarrow> Inl e
      | Inr users \<Rightarrow> Inr (onlineUserListResponse users))"

definition gw_GetUser ::
    "(duration \<Rightarrow> u64) \<Rightarrow> fault \<Rightarrow> (nat \<Rightarrow> gotime) \<Rightarrow> gotime \<Rightarrow> string \<Rightarrow> gateway \<Rightarrow>
     (user \<times> connectionStatus list) option res" where
  "gw_GetUser seconds fault clk now userId g =
     (case db_GetUser fault userId (gw_database g) of
        Inl e \<Rightarrow> Inl e
      | Inr None \<Rightarrow> Inr None
      | Inr (Some user) \<Rightarrow>
          let connections = statusList seconds clk
                (filter (\<lambda>r. cn_user (gw_connection g r) = us_ID user) (gw_connectionsList g)) g
          in Inr (Some (user\<lparr>us_Online := (length connections > 0 \<or> isUserOnline now user)\<rparr>, connections)))"

definition gw_GetUserScreenshot :: "fault \<Rightarrow> string \<Rightarrow> gateway \<Rightarrow> byte list res" where
  "gw_GetUserScreenshot fault userId g = db_GetUserScreenshot fault userId (gw_database g)"

section \<open>Kicking and scavenging\<close>

lemma closeConnection_store:
  "gw_connection (closeConnection r g) r' = (if r' = r then connection_close (gw_connection g r) else gw_connection g r')"
  "gw_connectionsList (closeConnection r g) = gw_connectionsList g"
  "gw_loginFlags (closeConnection r g) = gw_loginFlags g"
  by (simp_all add: closeConnection_def modify_connection_def)

lemma connection_close_fields [simp]:
  "cn_done (connection_close c)" "cn_user (connection_close c) = cn_user c"
  "connection_close (connection_close c) = connection_close c"
  "cn_usage (connection_close c) = cn_usage c"
  by (simp_all add: connection_close_def)

lemma kickLoop_result:
  assumes "case caller of None \<Rightarrow> True | Some c \<Rightarrow> c \<notin> set rs \<or> cn_user (gw_connection g c) \<noteq> user"
  shows "fst (kickLoop caller user rs g)
    \<and> gw_connection (snd (kickLoop caller user rs g)) r =
        (if r \<in> set rs \<and> cn_user (gw_connection g r) = user then connection_close (gw_connection g r)
         else gw_connection g r)
    \<and> gw_connectionsList (snd (kickLoop caller user rs g)) = gw_connectionsList g
    \<and> gw_loginFlags (snd (kickLoop caller user rs g)) = gw_loginFlags g"
  using assms
proof (induction rs arbitrary: g)
  case (Cons x rs)
  show ?case
  proof (cases "cn_user (gw_connection g x) = user")
    case True
    then have "caller \<noteq> Some x" using Cons.prems by auto
    moreover have "case caller of None \<Rightarrow> True | Some c \<Rightarrow>
        c \<notin> set rs \<or> cn_user (gw_connection (closeConnection x g) c) \<noteq> user"
      using Cons.prems by (auto simp: closeConnection_store split: option.splits)
    from Cons.IH [OF this] show ?thesis
      using True \<open>caller \<noteq> Some x\<close> by (auto simp: closeConnection_store)
  next
    case False
    moreover have "case caller of None \<Rightarrow> True | Some c \<Rightarrow> c \<notin> set rs \<or> cn_user (gw_connection g c) \<noteq> user"
      using Cons.prems by (auto split: option.splits)
    ultimately show ?thesis using Cons.IH [of g] by auto
  qed
qed simp

lemma kickLoop_own:
  assumes "cn_user (gw_connection g c) = user" and "c \<notin> set pre"
  shows "\<not> fst (kickLoop (Some c) user (pre @ c # post) g)
    \<and> (\<forall>r. r \<notin> set pre \<and> r \<noteq> c \<longrightarrow>
         gw_connection (snd (kickLoop (Some c) user (pre @ c # post) g)) r = gw_connection g r)"
  using assms
proof (induction pre arbitrary: g)
  case (Cons x pre)
  have "cn_user (gw_connection (closeConnection x g) c) = user"
    using Cons.prems by (simp add: closeConnection_store)
  from Cons.IH [OF this] Cons.IH [OF Cons.prems(1)] Cons.prems show ?case
    by (auto simp: closeConnection_store)
qed (simp add: closeConnection_store)



text \<open>An administrator who kicks their own name from a session never gets an answer: the call
  waits for the session that made it. The connections of that user that are older than
  the session's own are not closed at all.\<close>

theorem kick_self_blocks:
  assumes "gw_connectionsList g = newer @ c # older" and "distinct (gw_connectionsList g)"
  shows "\<not> fst (kickUser (Some c) (cn_user (gw_connection g c)) g)
    \<and> (\<forall>r \<in> set older.
         gw_connection (snd (kickUser (Some c) (cn_user (gw_connection g c)) g)) r = gw_connection g r)"
proof -
  let ?g = "case gs_RevokeLoginFlags (gw_settings g) of None \<Rightarrow> g
      | Some revoke \<Rightarrow> g\<lparr>gw_loginFlags := revoke (cn_user (gw_connection g c)) (gw_loginFlags g)\<rparr>"
  have same: "gw_connection ?g = gw_connection g" "gw_connectionsList ?g = gw_connectionsList g"
    by (simp_all split: option.splits)
  have "c \<notin> set newer" and dist: "r \<in> set older \<Longrightarrow> r \<notin> set newer \<and> r \<noteq> c" for r
    using assms by auto
  from kickLoop_own [of ?g c "cn_user (gw_connection g c)" newer older] this show ?thesis
    using same assms(1) by (simp add: kickUser_def listConnections_def Let_def)
qed

theorem kick_self_blocks_witness: "\<not> fst (kickUser (Some 0) ''alice'' sample_gateway)"
  using kick_self_blocks [of sample_gateway "[]" 0 "[]"] sample_gateway_list sample_gateway_conn(1) by simp

lemma scavengeLoop_other:
  "r \<notin> set rs \<Longrightarrow> gw_connection (scavengeLoop clk timeout i rs g) r = gw_connection g r"
  by (induction rs arbitrary: i g) (simp_all add: closeConnection_store)

lemma scavengeLoop_nth:
  assumes "distinct rs" and "j < length rs"
  shows "gw_connection (scavengeLoop clk timeout i rs g) (rs ! j) =
     (if timeSub (clk (i + j)) (conn_getUsedAt (gw_connection g (rs ! j))) > timeout
      then connection_close (gw_connection g (rs ! j)) else gw_connection g (rs ! j))"
  using assms
proof (induction rs arbitrary: i j g)
  case (Cons x rs)
  show ?case
  proof (cases j)
    case 0
    then show ?thesis using Cons.prems by (simp add: scavengeLoop_other closeConnection_store)
  next
    case (Suc k)
    with Cons.prems have "rs ! k \<noteq> x" by (auto simp: in_set_conv_nth)
    with Suc Cons.IH [of k "Suc i"] Cons.prems show ?thesis by (simp add: closeConnection_store)
  qed
qed simp

text \<open>Scavenging closes exactly the registered connections whose last use is further back than
  the timeout, each measured when its turn comes, and leaves every other connection alone.\<close>

theorem scavenge_closes_idle:
  assumes "distinct (gw_connectionsList g)" and "i < length (gw_connectionsList g)"
    and "0 \<le> timeout" and "timeout < maxDuration"
  shows "gw_connection (ScavengeConnections clk timeout g) (gw_connectionsList g ! i) =
     (if clk i - conn_getUsedAt (gw_connection g (gw_connectionsList g ! i)) > timeout
      then connection_close (gw_connection g (gw_connectionsList g ! i))
      else gw_connection g (gw_connectionsList g ! i))
    \<and> (r \<notin> set (gw_connectionsList g) \<longrightarrow> gw_connection (ScavengeConnections clk timeout g) r = gw_connection g r)"
  using scavengeLoop_nth [OF assms(1,2), of clk timeout 0 g] timeSub_greater [OF assms(3,4)]
  by (simp add: ScavengeConnections_def listConnections_def scavengeLoop_other)

theorem scavenge_closes_idle_witness:
  "cn_done (gw_connection (ScavengeConnections (\<lambda>_. timeUnix0 (unixNano 0) + 100) 50 sample_gateway) 0)"
proof -
  have "conn_getUsedAt (gw_connection sample_gateway 0) = timeUnix0 (unixNano 0)"
    by (simp add: sample_gateway_defs Let_def conn_getUsedAt_def usage_getUsedAt_def newUsage_def)
  then show ?thesis
    using scavenge_closes_idle [of sample_gateway 0 50 "\<lambda>_. timeUnix0 (unixNano 0) + 100"] sample_gateway_list
    by (simp add: maxDuration_def)
qed

section \<open>The listings agree\<close>

lemma isHeartbeatFresh_iff:
  "isHeartbeatFresh now t \<longleftrightarrow> t \<noteq> 0 \<and> t > now - onlineStaleThreshold"
  using timeSub_less [of onlineStaleThreshold now t]
  by (auto simp: isHeartbeatFresh_def timeIsZero_def onlineStaleThreshold_def maxDuration_def second_def)

lemma load_user_simps [simp]:
  "us_ID (load_user a b r) = ur_id r" "us_OnlineAt (load_user a b r) = nullable 0 (ur_online_at r)"
  by (simp_all add: load_user_def)

lemma online_row_iff:
  "now \<ge> onlineStaleThreshold \<Longrightarrow>
   isUserOnline now (load_user a b r) \<longleftrightarrow> (case ur_online_at r of None \<Rightarrow> False | Some t \<Rightarrow> t > now - onlineStaleThreshold)"
  by (auto simp: isUserOnline_def isHeartbeatFresh_iff split: option.splits)

lemma map_enumerate: "map (\<lambda>(i, u). f u) (enumerate i us) = map f us"
  by (induction us arbitrary: i) simp_all

lemma ids_onlineUserListResponse: "us_ID ` set (fst (onlineUserListResponse us)) = us_ID ` set us"
  by (simp add: onlineUserListResponse_def userListResponse_def image_image)

lemma set_GetUsers: "db_GetUsers None ids db = Inr us \<Longrightarrow>
    us_ID ` set us = {u. u \<in> set ids \<and> (\<exists>k r. (k, r) \<in> set (db_users db) \<and> ur_id r = u)}"
  by (force simp: db_GetUsers_def listUsers_def split: if_splits)

text \<open>The three listings agree. Of all users in the database, the full listing marks as online
  exactly those that the listing of online users returns together with those that the
  listing of the users of this node returns, when the clock reads the same in all three.\<close>

theorem listings_agree:
  assumes "gw_ListUsers None (\<lambda>_. now) g = Inr (users, n)" and "gw_ListOnlineUsers None now g = Inr (online, m)"
    and "gw_ListLocalOnlineUsers None g = Inr (locals, k)" and "now \<ge> onlineStaleThreshold"
  shows "us_ID ` {u \<in> set users. us_Online u} = us_ID ` set online \<union> us_ID ` set locals"
proof -
  have "us_ID ` {u \<in> set users. us_Online u} =
      {u. \<exists>k r. (k, r) \<in> set (db_users (gw_database g)) \<and> ur_id r = u
         \<and> (u \<in> set (connectedUserIds g) \<or> isUserOnline now (load_user False False r))}"
    using assms(1)
    by (force simp: gw_ListUsers_def db_ListUsers_def listUsers_def userListResponse_def map_enumerate)
  moreover have "us_ID ` set online = {u. \<exists>k r. (k, r) \<in> set (db_users (gw_database g)) \<and> ur_id r = u
      \<and> isUserOnline now (load_user False False r)}"
    using assms(2)
    by (force simp: gw_ListOnlineUsers_def db_ListOnlineUsers_def listUsers_def onlineUserListResponse_def
        userListResponse_def online_row_iff [OF assms(4)])
  moreover have "us_ID ` set locals = {u. u \<in> set (connectedUserIds g)
      \<and> (\<exists>k r. (k, r) \<in> set (db_users (gw_database g)) \<and> ur_id r = u)}"
    using assms(3) set_GetUsers [of "connectedUserIds g" "gw_database g"]
    by (simp add: gw_ListLocalOnlineUsers_def split: sum.splits)
       (metis (no_types, lifting) fst_conv ids_onlineUserListResponse)
  ultimately show ?thesis by (simp only: set_eq_iff Un_iff mem_Collect_eq) blast
qed

definition sample_online_gateway :: gateway where
  "sample_online_gateway = newGateway
     \<lparr>db_users = [(''bob'', save_user (zero_user\<lparr>us_ID := ''bob'', us_OnlineAt := onlineStaleThreshold\<rparr>))], db_nodes = []\<rparr>
     [] sample_gwSettings"

theorem listings_agree_witness:
  "\<exists>users n. gw_ListUsers None (\<lambda>_. onlineStaleThreshold) sample_online_gateway = Inr (users, n)
     \<and> us_ID ` {u \<in> set users. us_Online u} = {''bob''}"
proof -
  obtain users n where l: "gw_ListUsers None (\<lambda>_. onlineStaleThreshold) sample_online_gateway = Inr (users, n)"
    by (simp add: gw_ListUsers_def db_ListUsers_def listUsers_def userListResponse_def)
  obtain online m where o: "gw_ListOnlineUsers None onlineStaleThreshold sample_online_gateway = Inr (online, m)"
      "us_ID ` set online = {''bob''}"
    by (simp add: gw_ListOnlineUsers_def db_ListOnlineUsers_def listUsers_def onlineUserListResponse_def
        userListResponse_def sample_online_gateway_def newGateway_def save_user_def onlineStaleThreshold_def second_def)
  have "gw_ListLocalOnlineUsers None sample_online_gateway = Inr ([], 0)"
    by (simp add: gw_ListLocalOnlineUsers_def db_GetUsers_def userListResponse_def onlineUserListResponse_def
        sample_online_gateway_def newGateway_def connectedUserIds_def)
  from listings_agree [OF l o(1) this order.refl] o(2) l show ?thesis by auto
qed

end
