(* ===== verification/Peering.thy ===== *)
theory Peering
  imports Presence Keys
begin

text \<open>
  \<^verbatim>\<open>gateway/peer.go\<close> and \<^verbatim>\<open>util/sshconfig/sshconfig.go\<close>: how a node registers itself, finds the
  other nodes in the database, dials them with a pinned host key and keeps one peer for
  each; with the opening and closing of the gateway. Parameters: \<open>fmt\<close> is the binary
  encoding of public keys (\<open>Keys\<close>), \<open>dial\<close> is the ssh handshake with an
  address (an error, or nothing), and \<open>ping\<close> the answer of a peer to a keepalive.
\<close>

section \<open>The client configuration of a peer\<close>

record clientConfig =
  cc_User :: string
  cc_Signer :: "signer option"
  cc_HostKeyCallback :: "publicKey \<Rightarrow> unit res"
  cc_Timeout :: duration
  cc_KeyExchanges :: "string list"
  cc_Ciphers :: "string list"
  cc_MACs :: "string list"

definition CheckPinnedHostKey :: "keyFormat \<Rightarrow> publicKey \<Rightarrow> publicKey \<Rightarrow> unit res" where
  "CheckPinnedHostKey fmt pinned key =
     (let raw = (case key of CertKey certificate \<Rightarrow> ct_Key certificate | PlainKey k \<Rightarrow> k)
      in if raw \<noteq> keyMarshal fmt pinned then Inl (ErrText ''sshconfig: host key mismatch for peer'') else Inr ())"

definition ApplySSHCryptoConfig :: "clientConfig \<Rightarrow> clientConfig" where
  "ApplySSHCryptoConfig config = config\<lparr>
     cc_KeyExchanges := [''curve25519-sha256'', ''ecdh-sha2-nistp256'', ''ecdh-sha2-nistp384'',
                         ''ecdh-sha2-nistp521'', ''diffie-hellman-group14-sha256''],
     cc_Ciphers := [''aes128-gcm@openssh.com'', ''aes256-gcm@openssh.com'', ''aes128-ctr'', ''aes192-ctr'', ''aes256-ctr''],
     cc_MACs := [''hmac-sha2-256-etm@openssh.com'', ''hmac-sha2-512-etm@openssh.com'', ''hmac-sha2-256'',
                 ''hmac-sha2-512'', ''hmac-sha1'']\<rparr>"

definition NewPeerClientConfig :: "keyFormat \<Rightarrow> signer option \<Rightarrow> publicKey \<Rightarrow> clientConfig" where
  "NewPeerClientConfig fmt signer pinnedHostKey =
     ApplySSHCryptoConfig
       \<lparr>cc_User = PeerUser, cc_Signer = signer, cc_HostKeyCallback = CheckPinnedHostKey fmt pinnedHostKey,
        cc_Timeout = 10 * second, cc_KeyExchanges = [], cc_Ciphers = [], cc_MACs = []\<rparr>"

section \<open>Registration and discovery\<close>

definition registerNode :: "keyFormat \<Rightarrow> fault \<Rightarrow> gotime \<Rightarrow> gotime \<Rightarrow> bool \<Rightarrow> gateway \<Rightarrow> unit res \<times> gateway" where
  "registerNode fmt fault now now' online g =
     (let s = gw_settings g
      in if gs_NodeID s = [] then (Inr (), g)
         else
           let hostPublicKey = (case gs_HostPublicKey s of None \<Rightarrow> [] | Some k \<Rightarrow> MarshalAuthorizedKey fmt k)
           in case db_PutNode fault now' (gs_NodeID s)
                     (\<lambda>node. Inr (node\<lparr>nd_Address := gs_NodeAddress s, nd_HostPublicKey := hostPublicKey,
                                        nd_Online := online, nd_OnlineAt := now\<rparr>)) (gw_database g) of
                (Inl e, db) \<Rightarrow> (Inl e, g\<lparr>gw_database := db\<rparr>)
              | (Inr _, db) \<Rightarrow> (Inr (), g\<lparr>gw_database := db\<rparr>))"

definition isNodeOnline :: "gotime \<Rightarrow> node \<Rightarrow> bool" where
  "isNodeOnline now node \<longleftrightarrow> nd_Online node \<and> isHeartbeatFresh now (nd_OnlineAt node)"

text \<open>The nodes for which a goroutine is started; the i-th node is judged at the i-th clock reading.\<close>

definition discoverPeers :: "fault \<Rightarrow> (nat \<Rightarrow> gotime) \<Rightarrow> gateway \<Rightarrow> node list res" where
  "discoverPeers fault clk g =
     (if gs_NodeSigner (gw_settings g) = None then Inr []
      else case db_ListNodes fault (gw_database g) of
             Inl e \<Rightarrow> Inl e
           | Inr nodes \<Rightarrow>
               Inr (map snd (filter (\<lambda>(i, node).
                 \<not> (\<not> isNodeOnline (clk i) node \<or> nd_Address node = [] \<or> nd_ID node = gs_NodeID (gw_settings g))
                 \<and> getPeer (nd_ID node) g = None) (enumerate 0 nodes))))"

definition newPeer :: "string \<Rightarrow> gateway \<Rightarrow> ref \<times> gateway" where
  "newPeer nodeId g =
     (gw_nextRef g, g\<lparr>gw_peer := (gw_peer g)(gw_nextRef g := \<lparr>pe_nodeId = nodeId, pe_closed = False\<rparr>),
                      gw_nextRef := gw_nextRef g + 1\<rparr>)"

text \<open>
  \<^verbatim>\<open>connectToPeer\<close> up to the wait for the end of the connection, with the new peer if it was
  added to the table; and what is deferred to that end.
\<close>

definition connectToPeer ::
    "keyFormat \<Rightarrow> (string \<Rightarrow> clientConfig \<Rightarrow> unit res) \<Rightarrow> node \<Rightarrow> gateway \<Rightarrow> ref option \<times> gateway" where
  "connectToPeer fmt dial node g =
     (case ParseAuthorizedKey fmt (nd_HostPublicKey node) of
        Inl e \<Rightarrow> (None, g)
      | Inr (pinnedHostKey, _) \<Rightarrow>
          (case dial (nd_Address node) (NewPeerClientConfig fmt (gs_NodeSigner (gw_settings g)) pinnedHostKey) of
             Inl e \<Rightarrow> (None, g)
           | Inr _ \<Rightarrow>
               (let (p, g1) = newPeer (nd_ID node) g
                in case addPeer p g1 of
                     (False, g2) \<Rightarrow> (None, peer_close p g2)
                   | (True, g2) \<Rightarrow> (Some p, g2))))"

definition endPeer :: "ref \<Rightarrow> gateway \<Rightarrow> gateway" where
  "endPeer p g = removePeer p (peer_close p g)"

fun evictPeers :: "(ref \<Rightarrow> fault) \<Rightarrow> ref list \<Rightarrow> gateway \<Rightarrow> gateway" where
  "evictPeers ping [] g = g"
| "evictPeers ping (p # ps) g =
     evictPeers ping ps (case ping p of None \<Rightarrow> g | Some e \<Rightarrow> peer_close p (removePeer p g))"

definition peerInterval :: "gwSettings \<Rightarrow> duration" where
  "peerInterval s = (if gs_PeerDiscoveryInterval s \<le> 0 then 15 * second else gs_PeerDiscoveryInterval s)"

text \<open>One round of the loop of \<^verbatim>\<open>runPeers\<close>: the nodes to dial, and the state after the evictions.\<close>

definition peerRound ::
    "keyFormat \<Rightarrow> fault \<Rightarrow> fault \<Rightarrow> (nat \<Rightarrow> gotime) \<Rightarrow> gotime \<Rightarrow> gotime \<Rightarrow> (ref \<Rightarrow> fault) \<Rightarrow> gateway \<Rightarrow>
     node list \<times> gateway" where
  "peerRound fmt putFault listFault clk now now' ping g =
     (let g1 = snd (registerNode fmt putFault now now' True g);
          found = (case discoverPeers listFault clk g1 of Inl e \<Rightarrow> [] | Inr nodes \<Rightarrow> nodes)
      in (found, evictPeers ping (listPeers g1) g1))"

text \<open>
  The loop itself, with what its select picks up and what the other goroutines do in
  between; it is None while the loop waits. A round comes with the answers of the database
  and of the peers. The result lists the nodes that were dialled.
\<close>

datatype peersEvent =
    PeersDone
  | PeersInterval fault fault "nat \<Rightarrow> gotime" gotime gotime "ref \<Rightarrow> fault"
  | PeersMeanwhile "gateway \<Rightarrow> gateway"

fun runPeersLoop :: "keyFormat \<Rightarrow> peersEvent list \<Rightarrow> gateway \<Rightarrow> (node list \<times> gateway) option" where
  "runPeersLoop fmt [] g = None"
| "runPeersLoop fmt (PeersDone # es) g = Some ([], g)"
| "runPeersLoop fmt (PeersInterval putFault listFault clk now now' ping # es) g =
     (case peerRound fmt putFault listFault clk now now' ping g of
        (found, g1) \<Rightarrow> map_option (\<lambda>(dialled, g2). (found @ dialled, g2)) (runPeersLoop fmt es g1))"
| "runPeersLoop fmt (PeersMeanwhile f # es) g = runPeersLoop fmt es (f g)"

definition runPeers :: "keyFormat \<Rightarrow> fault \<Rightarrow> (nat \<Rightarrow> gotime) \<Rightarrow> peersEvent list \<Rightarrow> gateway \<Rightarrow> (node list \<times> gateway) option" where
  "runPeers fmt listFault clk es g =
     (let found = (case discoverPeers listFault clk g of Inl e \<Rightarrow> [] | Inr nodes \<Rightarrow> nodes)
      in map_option (\<lambda>(dialled, g'). (found @ dialled, g')) (runPeersLoop fmt es g))"

text \<open>
  The rest of \<^verbatim>\<open>connectToPeer\<close>, once the peer is in the table: it waits for the end of the ssh
  connection, while a second goroutine closes the peer when the gateway is closed.
\<close>

datatype peerEvent = GatewayDone | ClientEnded | PeerMeanwhile "gateway \<Rightarrow> gateway"

fun peerLifetime :: "ref \<Rightarrow> peerEvent list \<Rightarrow> gateway \<Rightarrow> gateway option" where
  "peerLifetime p [] g = None"
| "peerLifetime p (GatewayDone # es) g = peerLifetime p es (peer_close p g)"
| "peerLifetime p (ClientEnded # es) g = Some (endPeer p g)"
| "peerLifetime p (PeerMeanwhile f # es) g = peerLifetime p es (f g)"

section \<open>Opening and closing the gateway\<close>

definition gateway_Open :: "keyFormat \<Rightarrow> fault \<Rightarrow> gotime \<Rightarrow> gotime \<Rightarrow> database \<Rightarrow> flagsCache \<Rightarrow> gwSettings \<Rightarrow> gateway res" where
  "gateway_Open fmt fault now now' db flags settings =
     (let g = newGateway db flags settings
      in if gs_NodeID settings \<noteq> [] then
           (case registerNode fmt fault now now' True g of (Inl e, g1) \<Rightarrow> Inl e | (Inr _, g1) \<Rightarrow> Inr g1)
         else Inr g)"

definition gateway_Close :: "keyFormat \<Rightarrow> fault \<Rightarrow> gotime \<Rightarrow> gotime \<Rightarrow> gateway \<Rightarrow> gateway" where
  "gateway_Close fmt fault now now' g =
     (let g1 = g\<lparr>gw_done := True\<rparr>;
          g2 = fold closeConnection (listConnections g1) g1;
          g3 = fold peer_close (listPeers g2) g2
      in snd (registerNode fmt fault now now' False g3))"

section \<open>The table of peers\<close>

definition peers_ok :: "gateway \<Rightarrow> bool" where
  "peers_ok g \<longleftrightarrow> mwf (gw_peers g)
     \<and> (\<forall>n p. mget (gw_peers g) n = Some p \<longrightarrow> pe_nodeId (gw_peer g p) = n \<and> p < gw_nextRef g)"

lemma peers_okD:
  "peers_ok g \<Longrightarrow> mget (gw_peers g) n = Some p \<Longrightarrow> pe_nodeId (gw_peer g p) = n"
  "peers_ok g \<Longrightarrow> mget (gw_peers g) n = Some p \<Longrightarrow> p < gw_nextRef g"
  "peers_ok g \<Longrightarrow> mwf (gw_peers g)"
  by (simp_all add: peers_ok_def)

lemma peer_close_simps [simp]:
  "gw_peers (peer_close p g) = gw_peers g" "gw_nextRef (peer_close p g) = gw_nextRef g"
  "pe_nodeId (gw_peer (peer_close p g) q) = pe_nodeId (gw_peer g q)"
  "pe_closed (gw_peer (peer_close p g) q) \<longleftrightarrow> q = p \<or> pe_closed (gw_peer g q)"
  "gw_settings (peer_close p g) = gw_settings g" "gw_database (peer_close p g) = gw_database g"
  "gw_connection (peer_close p g) = gw_connection g"
  by (simp_all add: peer_close_def)

lemma peers_ok_close: "peers_ok g \<Longrightarrow> peers_ok (peer_close p g)"
  by (simp add: peers_ok_def)

lemma removePeer_table:
  assumes "peers_ok g"
  shows "mget (gw_peers (removePeer p g)) n = (if mget (gw_peers g) n = Some p then None else mget (gw_peers g) n)"
proof (cases "mget (gw_peers g) n = Some p")
  case True
  then have "pe_nodeId (gw_peer g p) = n" by (rule peers_okD(1) [OF assms])
  with True show ?thesis by (simp add: removePeer_def gomap_simps)
next
  case False
  then show ?thesis by (cases "n = pe_nodeId (gw_peer g p)") (simp_all add: removePeer_def gomap_simps)
qed

lemma peers_okI:
  assumes "mwf (gw_peers g)" and "\<And>n p. mget (gw_peers g) n = Some p \<Longrightarrow> pe_nodeId (gw_peer g p) = n \<and> p < gw_nextRef g"
  shows "peers_ok g"
  using assms by (simp add: peers_ok_def)

lemma removePeer_simps [simp]:
  "gw_peer (removePeer p g) = gw_peer g" "gw_nextRef (removePeer p g) = gw_nextRef g"
  "gw_settings (removePeer p g) = gw_settings g" "gw_database (removePeer p g) = gw_database g"
  by (simp_all add: removePeer_def)

lemma peers_ok_remove:
  assumes "peers_ok g"
  shows "peers_ok (removePeer p g)"
proof (rule peers_okI)
  show "mwf (gw_peers (removePeer p g))" using peers_okD(3) [OF assms] by (simp add: removePeer_def mwf_mdel)
  fix n q
  assume "mget (gw_peers (removePeer p g)) n = Some q"
  then have "mget (gw_peers g) n = Some q"
    unfolding removePeer_table [OF assms] by (simp split: if_split_asm)
  from peers_okD(1,2) [OF assms this]
  show "pe_nodeId (gw_peer (removePeer p g) q) = n \<and> q < gw_nextRef (removePeer p g)" by simp
qed

lemma newPeer_simps [simp]:
  "fst (newPeer n g) = gw_nextRef g" "gw_peers (snd (newPeer n g)) = gw_peers g"
  "gw_nextRef (snd (newPeer n g)) = Suc (gw_nextRef g)"
  "pe_nodeId (gw_peer (snd (newPeer n g)) p) = (if p = gw_nextRef g then n else pe_nodeId (gw_peer g p))"
  by (simp_all add: newPeer_def)

lemma peers_ok_newPeer:
  assumes "peers_ok g"
  shows "peers_ok (snd (newPeer n g))"
proof (rule peers_okI)
  show "mwf (gw_peers (snd (newPeer n g)))" using peers_okD(3) [OF assms] by simp
  fix m q
  assume "mget (gw_peers (snd (newPeer n g))) m = Some q"
  then have "mget (gw_peers g) m = Some q" by simp
  from peers_okD(1,2) [OF assms this]
  show "pe_nodeId (gw_peer (snd (newPeer n g)) q) = m \<and> q < gw_nextRef (snd (newPeer n g))" by simp
qed

lemma addPeer_table:
  assumes "peers_ok g" and "p < gw_nextRef g"
  shows "peers_ok (snd (addPeer p g))"
    and "mget (gw_peers g) n = Some q \<Longrightarrow> mget (gw_peers (snd (addPeer p g))) n = Some q"
    and "fst (addPeer p g) \<Longrightarrow> mget (gw_peers (snd (addPeer p g))) (pe_nodeId (gw_peer g p)) = Some p"
proof -
  let ?n = "pe_nodeId (gw_peer g p)"
  show "peers_ok (snd (addPeer p g))"
  proof (cases "mget (gw_peers g) ?n")
    case None
    show ?thesis
    proof (rule peers_okI)
      show "mwf (gw_peers (snd (addPeer p g)))"
        using None peers_okD(3) [OF assms(1)] by (simp add: addPeer_def mwf_mput)
      fix m q
      assume "mget (gw_peers (snd (addPeer p g))) m = Some q"
      then have q: "mget (mput ?n p (gw_peers g)) m = Some q" using None by (simp add: addPeer_def)
      have same: "gw_peer (snd (addPeer p g)) = gw_peer g" "gw_nextRef (snd (addPeer p g)) = gw_nextRef g"
        using None by (simp_all add: addPeer_def)
      show "pe_nodeId (gw_peer (snd (addPeer p g)) q) = m \<and> q < gw_nextRef (snd (addPeer p g))"
      proof (cases "m = ?n")
        case True
        with q have "q = p" by (simp only: mget_mput if_True simp_thms option.inject)
        with True assms(2) show ?thesis unfolding same by blast
      next
        case False
        with q have "mget (gw_peers g) m = Some q" by (simp only: mget_mput if_False)
        from peers_okD(1,2) [OF assms(1) this] show ?thesis unfolding same by blast
      qed
    qed
  next
    case (Some x)
    then show ?thesis using assms(1) by (simp add: addPeer_def)
  qed
  show "mget (gw_peers (snd (addPeer p g))) n = Some q" if "mget (gw_peers g) n = Some q"
    using that by (cases "n = ?n") (simp_all add: addPeer_def gomap_simps split: option.split)
  show "mget (gw_peers (snd (addPeer p g))) ?n = Some p" if "fst (addPeer p g)"
    using that by (simp add: addPeer_def gomap_simps split: option.splits)
qed

lemma connectToPeer_cases:
  obtains (failed) "connectToPeer fmt dial node g = (None, g)"
  | (taken) "connectToPeer fmt dial node g =
      (None, peer_close (gw_nextRef g) (snd (addPeer (gw_nextRef g) (snd (newPeer (nd_ID node) g)))))"
  | (added) "connectToPeer fmt dial node g =
      (Some (gw_nextRef g), snd (addPeer (gw_nextRef g) (snd (newPeer (nd_ID node) g))))"
      "fst (addPeer (gw_nextRef g) (snd (newPeer (nd_ID node) g)))"
proof -
  obtain g1 where g1: "newPeer (nd_ID node) g = (gw_nextRef g, g1)" by (metis newPeer_simps(1) prod.collapse)
  obtain b g2 where g2: "addPeer (gw_nextRef g) g1 = (b, g2)" by (metis surj_pair)
  let ?config = "\<lambda>k. NewPeerClientConfig fmt (gs_NodeSigner (gw_settings g)) k"
  show thesis
  proof (cases "ParseAuthorizedKey fmt (nd_HostPublicKey node)")
    case (Inl e)
    then show thesis by (intro failed) (simp add: connectToPeer_def)
  next
    case parsed: (Inr key)
    show thesis
    proof (cases "dial (nd_Address node) (?config (fst key))")
      case (Inl e)
      then show thesis using parsed by (intro failed) (simp add: connectToPeer_def case_prod_beta)
    next
      case (Inr u)
      then have "connectToPeer fmt dial node g =
          (if b then (Some (gw_nextRef g), g2) else (None, peer_close (gw_nextRef g) g2))"
        using parsed g1 g2 by (simp add: connectToPeer_def case_prod_beta split: bool.splits)
      then show thesis using taken added g1 g2 by (cases b) simp_all
    qed
  qed
qed

lemma connectToPeer_table:
  assumes "peers_ok g"
  shows "peers_ok (snd (connectToPeer fmt dial node g))"
    and "mget (gw_peers g) n = Some q \<Longrightarrow> mget (gw_peers (snd (connectToPeer fmt dial node g))) n = Some q"
    and "fst (connectToPeer fmt dial node g) = Some p \<Longrightarrow>
      mget (gw_peers (snd (connectToPeer fmt dial node g))) (nd_ID node) = Some p"
proof -
  have "gw_nextRef g < gw_nextRef (snd (newPeer (nd_ID node) g))" by simp
  note t = addPeer_table [OF peers_ok_newPeer [OF assms, of "nd_ID node"] this]
  show "peers_ok (snd (connectToPeer fmt dial node g))"
    by (cases fmt dial node g rule: connectToPeer_cases) (simp_all add: assms t(1) peers_ok_close)
  show "mget (gw_peers (snd (connectToPeer fmt dial node g))) n = Some q" if "mget (gw_peers g) n = Some q"
    using that t(2) [of n q] by (cases fmt dial node g rule: connectToPeer_cases) simp_all
  show "mget (gw_peers (snd (connectToPeer fmt dial node g))) (nd_ID node) = Some p"
    if "fst (connectToPeer fmt dial node g) = Some p"
    using that t(3) by (cases fmt dial node g rule: connectToPeer_cases) simp_all
qed

text \<open>C31: A node has at most one peer for each other node. Connecting to a node never replaces a peer
  that is already in the table, and the end of a peer connection removes its own entry and
  no other: the late end of an old connection does not remove the one that took its place.\<close>

theorem peer_table_sound:
  assumes "peers_ok g"
  shows "peers_ok (snd (connectToPeer fmt dial node g)) \<and> peers_ok (endPeer p g)
    \<and> (\<forall>n q. mget (gw_peers g) n = Some q \<longrightarrow>
          mget (gw_peers (snd (connectToPeer fmt dial node g))) n = Some q)
    \<and> (\<forall>q. fst (connectToPeer fmt dial node g) = Some q \<longrightarrow>
          getPeer (nd_ID node) (snd (connectToPeer fmt dial node g)) = Some q)
    \<and> (\<forall>n. mget (gw_peers (endPeer p g)) n =
          (if mget (gw_peers g) n = Some p then None else mget (gw_peers g) n))"
proof (intro conjI allI impI)
  show "peers_ok (endPeer p g)" by (simp add: endPeer_def peers_ok_remove peers_ok_close assms)
  show "mget (gw_peers (endPeer p g)) n = (if mget (gw_peers g) n = Some p then None else mget (gw_peers g) n)" for n
    by (simp add: endPeer_def removePeer_table [OF peers_ok_close [OF assms]])
qed (auto simp only: getPeer_def intro: connectToPeer_table [OF assms])

section \<open>The loop that keeps the peers\<close>

lemma evictPeers_table:
  "peers_ok g \<Longrightarrow> peers_ok (evictPeers ping ps g)
    \<and> (\<forall>n. mget (gw_peers (evictPeers ping ps g)) n =
          (case mget (gw_peers g) n of None \<Rightarrow> None | Some p \<Rightarrow> if p \<in> set ps \<and> ping p \<noteq> None then None else Some p))
    \<and> (\<forall>p. pe_closed (gw_peer (evictPeers ping ps g) p) \<longleftrightarrow> p \<in> set ps \<and> ping p \<noteq> None \<or> pe_closed (gw_peer g p))"
proof (induction ps arbitrary: g)
  case Nil
  then show ?case by (simp split: option.split)
next
  case (Cons q ps)
  define g1 where "g1 = (case ping q of None \<Rightarrow> g | Some e \<Rightarrow> peer_close q (removePeer q g))"
  have ok: "peers_ok g1"
    using Cons.prems by (simp add: g1_def peers_ok_close peers_ok_remove split: option.split)
  have table: "mget (gw_peers g1) n = (if mget (gw_peers g) n = Some q \<and> ping q \<noteq> None then None else mget (gw_peers g) n)" for n
    using removePeer_table [OF Cons.prems] by (simp add: g1_def split: option.split)
  have closed: "pe_closed (gw_peer g1 p) \<longleftrightarrow> p = q \<and> ping q \<noteq> None \<or> pe_closed (gw_peer g p)" for p
    by (auto simp: g1_def peer_close_def split: option.split)
  have "evictPeers ping (q # ps) g = evictPeers ping ps g1" by (simp add: g1_def)
  then show ?case using Cons.IH [OF ok] by (auto simp: table closed split: option.split)
qed

lemma peerRound_table:
  assumes "peers_ok g" and "peerRound fmt putFault listFault clk now now' ping g = (found, g')"
  shows "peers_ok g'"
    and "mget (gw_peers g') n = (case mget (gw_peers g) n of None \<Rightarrow> None | Some p \<Rightarrow> if ping p \<noteq> None then None else Some p)"
    and "mget (gw_peers g) m = Some p \<Longrightarrow> ping p \<noteq> None \<Longrightarrow> pe_closed (gw_peer g' p)"
    and "pe_closed (gw_peer g p) \<Longrightarrow> pe_closed (gw_peer g' p)"
proof -
  define g1 where "g1 = snd (registerNode fmt putFault now now' True g)"
  have g': "g' = evictPeers ping (listPeers g1) g1" using assms(2) by (simp add: peerRound_def g1_def Let_def)
  have same: "gw_peers g1 = gw_peers g" "gw_peer g1 = gw_peer g" "gw_nextRef g1 = gw_nextRef g"
    by (simp_all add: g1_def registerNode_def Let_def split: prod.splits sum.splits)
  then have ok: "peers_ok g1" using assms(1) by (simp add: peers_ok_def)
  have listed: "p \<in> set (listPeers g1)" if "mget (gw_peers g) n = Some p" for n p
    using that same by (auto simp: listPeers_def dest: map_of_SomeD intro: rev_image_eqI)
  note evicted = evictPeers_table [OF ok, of ping "listPeers g1", folded g']
  show "peers_ok g'" using evicted by blast
  show "mget (gw_peers g') n = (case mget (gw_peers g) n of None \<Rightarrow> None | Some p \<Rightarrow> if ping p \<noteq> None then None else Some p)"
    using evicted listed [of n] same by (auto split: option.split)
  show "pe_closed (gw_peer g' p)" if "mget (gw_peers g) m = Some p" "ping p \<noteq> None"
    using evicted listed [OF that(1)] that(2) by blast
  show "pe_closed (gw_peer g' p)" if "pe_closed (gw_peer g p)" using evicted that same by simp
qed

text \<open>The pings of the rounds before the loop ends.\<close>

fun pings :: "peersEvent list \<Rightarrow> (ref \<Rightarrow> fault) list" where
  "pings (PeersInterval putFault listFault clk now now' ping # es) = ping # pings es"
| "pings (PeersMeanwhile f # es) = pings es"
| "pings _ = []"

fun interferes :: "peersEvent \<Rightarrow> bool" where
  "interferes (PeersMeanwhile f) = True"
| "interferes _ = False"

lemma runPeersLoop_table:
  assumes "runPeersLoop fmt es g = Some (dialled, g')" and "peers_ok g" and "list_all (\<lambda>e. \<not> interferes e) es"
  shows "peers_ok g' \<and> (\<forall>n. mget (gw_peers g') n =
      (case mget (gw_peers g) n of None \<Rightarrow> None | Some p \<Rightarrow> if list_all (\<lambda>ping. ping p = None) (pings es) then Some p else None))
    \<and> (\<forall>n p. mget (gw_peers g) n = Some p \<longrightarrow> mget (gw_peers g') n = None \<longrightarrow> pe_closed (gw_peer g' p))
    \<and> (\<forall>p. pe_closed (gw_peer g p) \<longrightarrow> pe_closed (gw_peer g' p))"
  using assms
proof (induction fmt es g arbitrary: dialled rule: runPeersLoop.induct)
  case (2 fmt es g)
  then show ?case by (auto split: option.split)
next
  case (3 fmt putFault listFault clk now now' ping es g)
  obtain found g1 where round: "peerRound fmt putFault listFault clk now now' ping g = (found, g1)" by fastforce
  with 3(2) obtain rest where rest: "runPeersLoop fmt es g1 = Some (rest, g')" by auto
  note after = peerRound_table [OF 3(3) round]
  have quiet: "list_all (\<lambda>e. \<not> interferes e) es" using 3(4) by simp
  note IH = 3(1) [OF round [symmetric] rest after(1) quiet]
  show ?case
  proof (intro conjI allI impI)
    fix n
    show "mget (gw_peers g') n = (case mget (gw_peers g) n of None \<Rightarrow> None
        | Some p \<Rightarrow> if list_all (\<lambda>ping. ping p = None) (pings (PeersInterval putFault listFault clk now now' ping # es)) then Some p else None)"
      using IH after(2) [of n] by (auto split: option.splits)
    fix p
    assume here: "mget (gw_peers g) n = Some p" and gone: "mget (gw_peers g') n = None"
    show "pe_closed (gw_peer g' p)"
    proof (cases "ping p")
      case None
      then show ?thesis using IH here gone after(2) [of n] by auto
    next
      case (Some e)
      then show ?thesis using IH after(3) [OF here] by auto
    qed
  qed (use IH after in blast)+
qed simp_all


text \<open>When the goroutine of a peer ends, the peer is closed and is not in the table any more.\<close>

lemma peerLifetime_ends:
  assumes "peerLifetime p es g = Some g'" and "peers_ok g" and "\<And>f h. PeerMeanwhile f \<in> set es \<Longrightarrow> peers_ok h \<Longrightarrow> peers_ok (f h)"
  shows "mget (gw_peers g') n \<noteq> Some p \<and> pe_closed (gw_peer g' p)"
  using assms
proof (induction p es g rule: peerLifetime.induct)
  case (2 p es g)
  then show ?case by (simp add: peers_ok_close)
next
  case (3 p es g)
  then show ?case using removePeer_table [OF peers_ok_close [of g p], of p n] by (auto simp: endPeer_def split: if_splits)
qed simp_all

section \<open>Discovery\<close>

lemma discoverPeers_iff:
  assumes "discoverPeers None (\<lambda>_. now) g = Inr nodes"
  shows "node \<in> set nodes \<longleftrightarrow> gs_NodeSigner (gw_settings g) \<noteq> None \<and> node \<in> snd ` set (db_nodes (gw_database g))
    \<and> isNodeOnline now node \<and> nd_Address node \<noteq> [] \<and> nd_ID node \<noteq> gs_NodeID (gw_settings g)
    \<and> getPeer (nd_ID node) g = None"
proof -
  have enum: "map snd (filter (\<lambda>(i, x). P x) (enumerate i xs)) = filter P xs" for P :: "node \<Rightarrow> bool" and i xs
    by (induction xs arbitrary: i) auto
  show ?thesis
  proof (cases "gs_NodeSigner (gw_settings g)")
    case None
    with assms show ?thesis by (simp add: discoverPeers_def)
  next
    case (Some signer)
    with assms have "nodes = filter (\<lambda>node. isNodeOnline now node \<and> nd_Address node \<noteq> []
        \<and> nd_ID node \<noteq> gs_NodeID (gw_settings g) \<and> getPeer (nd_ID node) g = None) (map snd (db_nodes (gw_database g)))"
      by (simp add: discoverPeers_def db_ListNodes_def enum)
    with Some show ?thesis by (simp only: set_filter set_map) simp
  qed
qed

lemma registerNode_row:
  assumes "gs_NodeID (gw_settings g) \<noteq> []" and "gs_HostPublicKey (gw_settings g) = Some k"
  obtains node where "snd (registerNode fmt None now now' online g) =
      g\<lparr>gw_database := (gw_database g)\<lparr>db_nodes := mput (gs_NodeID (gw_settings g)) node (db_nodes (gw_database g))\<rparr>\<rparr>"
    "nd_ID node = gs_NodeID (gw_settings g)" "nd_Address node = gs_NodeAddress (gw_settings g)"
    "nd_HostPublicKey node = MarshalAuthorizedKey fmt k" "nd_Online node = online" "nd_OnlineAt node = now"
  using assms by (simp add: registerNode_def db_PutNode_def Let_def)

lemma peer_host_key_iff:
  "cc_HostKeyCallback (NewPeerClientConfig fmt signer pinned) key = Inr () \<longleftrightarrow>
     (case key of PlainKey k \<Rightarrow> k = keyMarshal fmt pinned | CertKey c \<Rightarrow> ct_Key c = keyMarshal fmt pinned)"
  by (simp add: NewPeerClientConfig_def ApplySSHCryptoConfig_def CheckPinnedHostKey_def Let_def split: publicKey.splits)

lemma peer_config:
  "cc_User (NewPeerClientConfig fmt signer pinned) = PeerUser" "cc_Signer (NewPeerClientConfig fmt signer pinned) = signer"
  by (simp_all add: NewPeerClientConfig_def ApplySSHCryptoConfig_def)

lemma discoverPeers_registered:
  assumes "mget (db_nodes (gw_database h)) (nd_ID node) = Some node" and "discoverPeers None (\<lambda>_. t) h = Inr nodes"
    and "gs_NodeSigner (gw_settings h) = Some signer" and "getPeer (nd_ID node) h = None"
    and "nd_Address node \<noteq> []" and "nd_ID node \<noteq> gs_NodeID (gw_settings h)"
    and "nd_Online node" and "nd_OnlineAt node \<noteq> 0" and "t - nd_OnlineAt node < 90 * second"
  shows "node \<in> set nodes"
proof -
  have "isNodeOnline t node"
    using assms(7-9) by (simp add: isNodeOnline_def isHeartbeatFresh_iff onlineStaleThreshold_def)
  moreover have "node \<in> snd ` set (db_nodes (gw_database h))"
    using assms(1) by (auto dest: map_of_SomeD intro: rev_image_eqI)
  ultimately show ?thesis using discoverPeers_iff [OF assms(2)] assms(3-6) by auto
qed

lemma connectToPeer_registered:
  assumes "nd_HostPublicKey node = MarshalAuthorizedKey fmt (PlainKey k)" and "keyOk fmt (PlainKey k)"
    and "dial (nd_Address node) (NewPeerClientConfig fmt (gs_NodeSigner (gw_settings h)) (PlainKey k)) = Inr ()"
    and "getPeer (nd_ID node) h = None"
  shows "\<exists>p h'. connectToPeer fmt dial node h = (Some p, h') \<and> getPeer (nd_ID node) h' = Some p"
  using assms ParseAuthorizedKey_marshalled [OF assms(2), of "[]"]
  by (simp add: connectToPeer_def newPeer_def addPeer_def getPeer_def Let_def gomap_simps)

text \<open>C17: A node that registers itself is found and dialled by every other node that shares the
  database, can sign, and has no peer for it, for ninety seconds after the registration.
  It is dialled at its address as the user peer, with a configuration that accepts the
  host key it registered, plain or in a certificate, and no other; a successful handshake
  makes it the peer for its id. The host key travels through the database in its textual
  form, and the binary encoding of keys only has to be one that can be parsed back.\<close>

theorem registered_node_is_dialled:
  assumes "snd (registerNode fmt None now now' True g) = g'" and "gw_database h = gw_database g'"
    and "gs_NodeID (gw_settings g) \<noteq> []" and "gs_HostPublicKey (gw_settings g) = Some (PlainKey k)"
    and "gs_NodeAddress (gw_settings g) \<noteq> []" and "gs_NodeID (gw_settings h) \<noteq> gs_NodeID (gw_settings g)"
    and "gs_NodeSigner (gw_settings h) = Some signer" and "getPeer (gs_NodeID (gw_settings g)) h = None"
    and "now \<noteq> 0" and "t - now < 90 * second" and "keyOk fmt (PlainKey k)"
    and "discoverPeers None (\<lambda>_. t) h = Inr nodes"
  shows "\<exists>node \<in> set nodes. nd_ID node = gs_NodeID (gw_settings g)
    \<and> (\<exists>config. cc_User config = PeerUser \<and> cc_Signer config = Some signer
         \<and> (\<forall>key. cc_HostKeyCallback config key = Inr () \<longleftrightarrow>
               (case key of PlainKey raw \<Rightarrow> raw = k | CertKey c \<Rightarrow> ct_Key c = k))
         \<and> (dial (gs_NodeAddress (gw_settings g)) config = Inr () \<longrightarrow>
              (\<exists>p h'. connectToPeer fmt dial node h = (Some p, h')
                  \<and> getPeer (gs_NodeID (gw_settings g)) h' = Some p)))"
proof -
  obtain node where r: "snd (registerNode fmt None now now' True g) =
      g\<lparr>gw_database := (gw_database g)\<lparr>db_nodes := mput (gs_NodeID (gw_settings g)) node (db_nodes (gw_database g))\<rparr>\<rparr>"
    and node: "nd_ID node = gs_NodeID (gw_settings g)" "nd_Address node = gs_NodeAddress (gw_settings g)"
      "nd_HostPublicKey node = MarshalAuthorizedKey fmt (PlainKey k)" "nd_Online node = True" "nd_OnlineAt node = now"
    by (rule registerNode_row [OF assms(3,4), of fmt now now' True])
  have "mget (db_nodes (gw_database h)) (gs_NodeID (gw_settings g)) = Some node"
    using r assms(1,2) by (auto simp: gomap_simps)
  then have found: "node \<in> set nodes"
    using discoverPeers_registered [OF _ assms(12)] node assms(5-10) by simp
  let ?config = "NewPeerClientConfig fmt (Some signer) (PlainKey k)"
  have "\<exists>p h'. connectToPeer fmt dial node h = (Some p, h') \<and> getPeer (gs_NodeID (gw_settings g)) h' = Some p"
    if "dial (gs_NodeAddress (gw_settings g)) ?config = Inr ()"
    using connectToPeer_registered [OF node(3) assms(11)] that assms(7,8) node by simp
  moreover have "cc_User ?config = PeerUser" "cc_Signer ?config = Some signer" by (simp_all add: peer_config)
  ultimately show ?thesis
    using peer_host_key_iff [of fmt "Some signer" "PlainKey k"]
    by (intro bexI [OF _ found] conjI exI [of _ ?config] allI impI node(1)) (simp_all add: keyMarshal_def split: publicKey.splits)
qed

section \<open>Closing\<close>

lemma fold_closeConnection:
  "gw_connection (fold closeConnection rs g) r =
     (if r \<in> set rs then connection_close (gw_connection g r) else gw_connection g r)"
  "gw_settings (fold closeConnection rs g) = gw_settings g"
  "gw_peers (fold closeConnection rs g) = gw_peers g"
  "gw_database (fold closeConnection rs g) = gw_database g"
  "gw_connectionsList (fold closeConnection rs g) = gw_connectionsList g"
  "gw_peer (fold closeConnection rs g) = gw_peer g"
  by (induction rs arbitrary: g) (auto simp: closeConnection_store closeConnection_def modify_connection_def)

lemma fold_peer_close:
  "pe_closed (gw_peer (fold peer_close ps g) p) \<longleftrightarrow> p \<in> set ps \<or> pe_closed (gw_peer g p)"
  "gw_settings (fold peer_close ps g) = gw_settings g"
  "gw_connection (fold peer_close ps g) = gw_connection g"
  "gw_database (fold peer_close ps g) = gw_database g"
  "gw_connectionsList (fold peer_close ps g) = gw_connectionsList g"
  "gw_peers (fold peer_close ps g) = gw_peers g"
  by (induction ps arbitrary: g) (auto simp: peer_close_def)

lemma registerNode_frame:
  "gw_connection (snd (registerNode fmt f now now' online g)) = gw_connection g"
  "gw_peer (snd (registerNode fmt f now now' online g)) = gw_peer g"
  "gw_settings (snd (registerNode fmt f now now' online g)) = gw_settings g"
  "gw_peers (snd (registerNode fmt f now now' online g)) = gw_peers g"
  "gw_connectionsList (snd (registerNode fmt f now now' online g)) = gw_connectionsList g"
  by (simp_all add: registerNode_def Let_def split: prod.splits sum.splits)

text \<open>Closing the gateway closes every registered connection and every peer, whatever the
  database answers; a write that succeeds marks the node offline for good, however fresh its
  last heartbeat is.\<close>

definition marked_offline :: "gateway \<Rightarrow> bool" where
  "marked_offline g \<longleftrightarrow>
     (\<exists>node. mget (db_nodes (gw_database g)) (gs_NodeID (gw_settings g)) = Some node \<and> (\<forall>t. \<not> isNodeOnline t node))"

lemma gateway_Close_objects:
  "gw_connectionsList (gateway_Close fmt f now now' g) = gw_connectionsList g"
  "gw_peers (gateway_Close fmt f now now' g) = gw_peers g"
  "gw_settings (gateway_Close fmt f now now' g) = gw_settings g"
  "cn_done (gw_connection (gateway_Close fmt f now now' g) r) \<longleftrightarrow> r \<in> set (gw_connectionsList g) \<or> cn_done (gw_connection g r)"
  "pe_closed (gw_peer (gateway_Close fmt f now now' g) p) \<longleftrightarrow> p \<in> snd ` set (gw_peers g) \<or> pe_closed (gw_peer g p)"
  by (auto simp: gateway_Close_def Let_def registerNode_frame fold_peer_close fold_closeConnection listConnections_def
      listPeers_def)

lemma gateway_Close_database:
  assumes "gs_NodeID (gw_settings g) \<noteq> []"
  shows "marked_offline (gateway_Close fmt None now now' g)"
    and "marked_offline g \<Longrightarrow> marked_offline (gateway_Close fmt f now now' g)"
  using assms
  by (auto simp: marked_offline_def gateway_Close_def Let_def registerNode_def db_PutNode_def fold_peer_close
      fold_closeConnection gomap_simps isNodeOnline_def split: option.splits)

lemma sample_peers_ok: "peers_ok sample_mesh_gateway"
  by (rule peers_okI) (auto simp: sample_mesh_gateway_def mwf_def split: if_splits)

theorem peer_table_sound_witness:
  "mget (gw_peers (endPeer 6 sample_mesh_gateway)) ''node-b'' = Some 7
   \<and> mget (gw_peers (endPeer 7 sample_mesh_gateway)) ''node-b'' = None"
  using peer_table_sound [OF sample_peers_ok, of sample_keyFormat "\<lambda>_ _. Inr ()" zero_node 6]
    peer_table_sound [OF sample_peers_ok, of sample_keyFormat "\<lambda>_ _. Inr ()" zero_node 7]
  by (simp add: sample_mesh_gateway_def)


theorem registered_node_is_dialled_witness:
  "\<exists>node \<in> set (projr (discoverPeers None (\<lambda>_. 2)
      (sample_gateway\<lparr>gw_settings := sample_gwSettings\<lparr>gs_NodeID := ''node-c''\<rparr>,
         gw_database := gw_database (snd (registerNode sample_keyFormat None 1 1 True
           (sample_gateway\<lparr>gw_settings := sample_gwSettings\<lparr>gs_HostPublicKey := Some (PlainKey [7])\<rparr>\<rparr>)))\<rparr>))).
     nd_ID node = ''node-a''"
proof -
  let ?g = "sample_gateway\<lparr>gw_settings := sample_gwSettings\<lparr>gs_HostPublicKey := Some (PlainKey [7])\<rparr>\<rparr>"
  let ?h = "sample_gateway\<lparr>gw_settings := sample_gwSettings\<lparr>gs_NodeID := ''node-c''\<rparr>,
      gw_database := gw_database (snd (registerNode sample_keyFormat None 1 1 True ?g))\<rparr>"
  have d: "discoverPeers None (\<lambda>_. 2) ?h = Inr (projr (discoverPeers None (\<lambda>_. 2) ?h))"
    by (simp add: discoverPeers_def db_ListNodes_def)
  show ?thesis
    using registered_node_is_dialled [where g = ?g and h = ?h and fmt = sample_keyFormat and now = 1 and now' = 1
        and t = 2 and k = "[7]" and signer = "\<lparr>sg_key = [1], sg_certificate = None\<rparr>" and dial = "\<lambda>_ _. Inr ()",
        OF refl _ _ _ _ _ _ _ _ _ _ d]
    by (force simp: sample_gateway_defs getPeer_def Let_def second_def sample_key_ok)
qed

end
