(* ===== verification/Postgres.thy ===== *)
theory Postgres
  imports Channels Peering
begin

text \<open>
  \<^verbatim>\<open>db/db.go\<close> and \<^verbatim>\<open>db/ssh.go\<close>: how a node reaches its database, directly or through the
  ssh port of a peer. The connection string that \<^verbatim>\<open>Open\<close> builds is read by the vendored
  driver, so the driver's parser (\<^verbatim>\<open>parseKeywordValueSettings\<close> of
  \<^verbatim>\<open>vendor/github.com/jackc/pgx/v5/pgconn/config.go\<close>) is modelled too. Parameters: what
  the rest of the driver's configuration and the opening of the pool return, the ssh
  handshake with the peer (\<open>dial\<close>) and what the peer answers to a channel (\<open>openChannel\<close>).
\<close>

section \<open>The connection string\<close>

record dbSettings =
  ds_Host :: string
  ds_Port :: u16
  ds_User :: string
  ds_Password :: string
  ds_DatabaseName :: string
  ds_SSLMode :: string
  ds_PeerAddress :: string
  ds_PeerSigner :: "signer option"
  ds_PeerHostPublicKey :: "publicKey option"

definition sslMode :: "dbSettings \<Rightarrow> string" where
  "sslMode s = (if ds_SSLMode s = [] then ''disable'' else ds_SSLMode s)"

definition dsn :: "dbSettings \<Rightarrow> string" where
  "dsn s =
     ''host='' @ ds_Host s @ '' port='' @ decimal (unat (ds_Port s)) @ '' user='' @ ds_User s
     @ '' password='' @ ds_Password s @ '' dbname='' @ ds_DatabaseName s @ '' sslmode='' @ sslMode s"

section \<open>The driver's parser\<close>

definition asciiSpace :: "char \<Rightarrow> bool" where
  "asciiSpace c \<longleftrightarrow> c \<in> {CHR '' '', CHR 0x09, CHR 0x0A, CHR 0x0B, CHR 0x0C, CHR 0x0D}"

definition trimLeft :: "string \<Rightarrow> string" where
  "trimLeft s = dropWhile asciiSpace s"

definition trimBoth :: "string \<Rightarrow> string" where
  "trimBoth s = rev (dropWhile asciiSpace (rev (trimLeft s)))"

definition canonicalConnStringKey :: "string \<Rightarrow> string" where
  "canonicalConnStringKey k = (if k = ''dbname'' then ''database'' else k)"

text \<open>\<^verbatim>\<open>strings.ReplaceAll\<close> for a pattern of two characters.\<close>

fun replacePair :: "char \<Rightarrow> char \<Rightarrow> char \<Rightarrow> string \<Rightarrow> string" where
  "replacePair a b new (x # y # s) =
     (if x = a \<and> y = b then new # replacePair a b new s else x # replacePair a b new (y # s))"
| "replacePair a b new s = s"

definition unescape :: "string \<Rightarrow> string" where
  "unescape s = replacePair CHR 0x5C CHR 0x27 CHR 0x27 (replacePair CHR 0x5C CHR 0x5C CHR 0x5C s)"

text \<open>The end of a value without quotes, or None for a backslash at the end of the input.\<close>

fun unquotedEnd :: "string \<Rightarrow> nat option" where
  "unquotedEnd [] = Some 0"
| "unquotedEnd (c # s) =
     (if asciiSpace c then Some 0
      else if c = CHR 0x5C then (case s of [] \<Rightarrow> None | d # s' \<Rightarrow> map_option (\<lambda>n. n + 2) (unquotedEnd s'))
      else map_option Suc (unquotedEnd s))"

text \<open>The end of a quoted value; a backslash at the end of the input counts as two characters.\<close>

fun quotedEnd :: "string \<Rightarrow> nat" where
  "quotedEnd [] = 0"
| "quotedEnd (c # s) =
     (if c = CHR 0x27 then 0
      else if c = CHR 0x5C then (case s of [] \<Rightarrow> 2 | d # s' \<Rightarrow> quotedEnd s' + 2)
      else Suc (quotedEnd s))"

text \<open>
  The value at the head of the input and what follows it. An index past the end of the
  input is a panic of the driver, kept here as an error of its own.
\<close>

definition settingValue :: "string \<Rightarrow> (string \<times> string) res" where
  "settingValue s =
     (if s = [] then Inr ([], [])
      else if hd s \<noteq> CHR 0x27 then
        (case unquotedEnd s of
           None \<Rightarrow> Inl (ErrText ''invalid backslash'')
         | Some n \<Rightarrow> Inr (unescape (take n s), trimLeft (drop n s)))
      else
        let t = tl s; n = quotedEnd t
        in if n = length t then Inl (ErrText ''unterminated quoted string in connection info string'')
           else if n > length t then Inl (ErrText ''runtime error: slice bounds out of range'')
           else Inr (unescape (take n t), trimLeft (drop (n + 1) t)))"

lemma length_trimLeft: "length (trimLeft s) \<le> length s"
  by (simp add: trimLeft_def length_dropWhile_le)

lemma settingValue_length: "settingValue s = Inr (val, rest) \<Longrightarrow> length rest \<le> length s"
proof -
  have "length (trimLeft (drop n s)) \<le> length s" "length (trimLeft (drop n (tl s))) \<le> length s" for n
    using length_trimLeft [of "drop n s"] length_trimLeft [of "drop n (tl s)"] by auto
  then show "settingValue s = Inr (val, rest) \<Longrightarrow> length rest \<le> length s"
    by (auto simp: settingValue_def Let_def split: if_splits option.splits)
qed

lemma settingValue_less:
  assumes "settingValue (trimLeft (drop (Suc n) s)) = Inr (val, rest)" and "s \<noteq> []"
  shows "length rest < length s"
proof -
  have "length rest \<le> length (drop (Suc n) s)"
    using settingValue_length [OF assms(1)] length_trimLeft order_trans by blast
  also have "\<dots> < length s" using assms(2) by (cases s) auto
  finally show ?thesis .
qed

function settingsLoop :: "(string, string) gomap \<Rightarrow> string \<Rightarrow> (string, string) gomap res" where
  "settingsLoop settings s =
     (if s = [] then Inr settings
      else case indexByte CHR ''='' s of
        None \<Rightarrow> Inl (ErrText ''invalid keyword/value'')
      | Some eqIdx \<Rightarrow>
          (case settingValue (trimLeft (drop (eqIdx + 1) s)) of
             Inl e \<Rightarrow> Inl e
           | Inr (val, rest) \<Rightarrow>
               let key = canonicalConnStringKey (trimBoth (take eqIdx s))
               in if key = [] then Inl (ErrText ''invalid keyword/value'')
                  else if key = ''user'' \<and> val = [] then settingsLoop settings rest
                  else settingsLoop (mput key val settings) rest))"
  by pat_completeness auto
termination by (relation "measure (\<lambda>(_, s). length s)") (auto dest: settingValue_less)

declare settingsLoop.simps [simp del]

definition parseKeywordValueSettings :: "string \<Rightarrow> (string, string) gomap res" where
  "parseKeywordValueSettings s = settingsLoop [] (trimLeft s)"

section \<open>Opening the database\<close>

definition maxIdleConnections :: nat where "maxIdleConnections = 8"
definition maxOpenConnections :: nat where "maxOpenConnections = 16"
definition connectionMaxIdleTime :: duration where "connectionMaxIdleTime = 300 * second"

text \<open>Where the connections of the pool go: to the address of the connection string, or to a peer.\<close>

datatype dialector = DirectDialector | PeerDialector string "signer option" "publicKey option"

record pool =
  pl_dsn :: string
  pl_dialector :: dialector
  pl_maxIdle :: nat
  pl_maxOpen :: nat
  pl_maxIdleTime :: duration

definition db_Open :: "(string \<Rightarrow> unit res) \<Rightarrow> fault \<Rightarrow> fault \<Rightarrow> dbSettings \<Rightarrow> pool res" where
  "db_Open parseConfig openFault poolFault s =
     bind_res (if ds_PeerAddress s \<noteq> []
               then bind_res (parseConfig (dsn s)) (\<lambda>_.
                      Inr (PeerDialector (ds_PeerAddress s) (ds_PeerSigner s) (ds_PeerHostPublicKey s)))
               else Inr DirectDialector) (\<lambda>dialector.
       (case openFault of
          Some e \<Rightarrow> Inl e
        | None \<Rightarrow>
            (case poolFault of
               Some e \<Rightarrow> Inl e
             | None \<Rightarrow> Inr \<lparr>pl_dsn = dsn s, pl_dialector = dialector, pl_maxIdle = maxIdleConnections,
                             pl_maxOpen = maxOpenConnections, pl_maxIdleTime = connectionMaxIdleTime\<rparr>)))"

section \<open>The tunnel to the database of a peer\<close>

text \<open>The package's own copy of the tunnel request, and its encoding by the ssh library.\<close>

record postgresTunnelData =
  pt_Host :: string
  pt_Port :: u32
  pt_OriginAddress :: string
  pt_OriginPort :: u32

definition postgresRequest :: "byte list" where
  "postgresRequest =
     (let d = \<lparr>pt_Host = ''postgres'', pt_Port = 5432, pt_OriginAddress = ''localhost'', pt_OriginPort = 0\<rparr>
      in Marshal [] [VString (pt_Host d), VUint32 (pt_Port d), VString (pt_OriginAddress d), VUint32 (pt_OriginPort d)])"

record tunnelConn =
  tc_channel :: ref
  tc_client :: ref

datatype clientEvent = ChannelClosed ref | ClientClosed ref | RequestsDiscarded ref

definition dialPostgresViaPeer ::
    "keyFormat \<Rightarrow> (string \<Rightarrow> clientConfig \<Rightarrow> ref res) \<Rightarrow> (ref \<Rightarrow> newChannel \<Rightarrow> ref res) \<Rightarrow>
     string \<Rightarrow> signer option \<Rightarrow> publicKey \<Rightarrow> tunnelConn res \<times> clientEvent list" where
  "dialPostgresViaPeer fmt dial openChannel address signer pinnedHostKey =
     (case dial address (NewPeerClientConfig fmt signer pinnedHostKey) of
        Inl e \<Rightarrow> (Inl (ErrText ''db: failed to dial peer''), [])
      | Inr client \<Rightarrow>
          (case openChannel client \<lparr>nc_ChannelType = ''direct-tcpip'', nc_ExtraData = postgresRequest\<rparr> of
             Inl e \<Rightarrow> (Inl (ErrText ''db: failed to open postgres tunnel''), [ClientClosed client])
           | Inr channel \<Rightarrow>
               (Inr \<lparr>tc_channel = channel, tc_client = client\<rparr>, [RequestsDiscarded channel])))"

text \<open>
  The other end: the goroutine \<open>BridgePostgres\<close> of the peer. It dials the database and copies in
  both directions until the first copy ends; None while both still run. The result is what
  it closes, in the order of its deferred calls.
\<close>

datatype bridgeEvent = CopyToChannelDone | CopyToDatabaseDone

datatype bridgeClose = CloseDatabase | CloseChannel

fun bridgePostgres :: "unit res \<Rightarrow> bridgeEvent list \<Rightarrow> bridgeClose list option" where
  "bridgePostgres (Inl e) es = Some [CloseChannel]"
| "bridgePostgres (Inr _) [] = None"
| "bridgePostgres (Inr _) (e # es) = Some [CloseDatabase, CloseChannel]"

definition tunnelConn_Close :: "fault \<Rightarrow> tunnelConn \<Rightarrow> fault \<times> clientEvent list" where
  "tunnelConn_Close closeFault conn = (closeFault, [ChannelClosed (tc_channel conn), ClientClosed (tc_client conn)])"

text \<open>
  Closing the database closes every connection of the pool and then waits for the goroutines
  that discard requests, which end with their channels.
\<close>

definition db_Close :: "fault \<Rightarrow> fault \<Rightarrow> (tunnelConn \<Rightarrow> fault) \<Rightarrow> tunnelConn list \<Rightarrow> fault \<times> clientEvent list" where
  "db_Close poolFault closeFault connFault conns =
     (case poolFault of
        Some e \<Rightarrow> (Some e, [])
      | None \<Rightarrow> (closeFault, concat (map (\<lambda>c. snd (tunnelConn_Close (connFault c) c)) conns)))"

section \<open>The settings the driver reads\<close>

definition plainValue :: "string \<Rightarrow> bool" where
  "plainValue v \<longleftrightarrow> v \<noteq> [] \<and> hd v \<noteq> CHR 0x27 \<and> list_all (\<lambda>c. \<not> asciiSpace c \<and> c \<noteq> CHR 0x5C) v"

lemma replacePair_id: "a \<notin> set s \<Longrightarrow> replacePair a b new s = s"
  by (induction a b new s rule: replacePair.induct) auto

lemma unquotedEnd_plain:
  "list_all (\<lambda>c. \<not> asciiSpace c \<and> c \<noteq> CHR 0x5C) v \<Longrightarrow> rest = [] \<or> asciiSpace (hd rest) \<Longrightarrow>
     unquotedEnd (v @ rest) = Some (length v)"
proof (induction v)
  case Nil
  then show ?case by (cases rest) simp_all
qed simp

lemma settingValue_plain:
  assumes "plainValue v" and "rest = [] \<or> asciiSpace (hd rest)"
  shows "settingValue (v @ rest) = Inr (v, trimLeft rest)"
proof -
  have "CHR 0x5C \<notin> set v" using assms(1) unfolding plainValue_def list_all_iff by blast
  then have "unescape v = v" by (simp add: unescape_def replacePair_id del: replacePair.simps)
  moreover have "unquotedEnd (v @ rest) = Some (length v)"
    using assms by (intro unquotedEnd_plain) (simp_all add: plainValue_def)
  moreover have "v \<noteq> []" "hd (v @ rest) \<noteq> CHR 0x27"
    using assms(1) by (simp_all add: plainValue_def)
  ultimately show ?thesis by (simp add: settingValue_def del: unquotedEnd.simps)
qed

lemma trimLeft_plain: "s \<noteq> [] \<Longrightarrow> \<not> asciiSpace (hd s) \<Longrightarrow> trimLeft s = s"
  by (cases s) (simp_all add: trimLeft_def)

lemma settingsLoop_plain:
  assumes "plainValue v" and "rest = [] \<or> asciiSpace (hd rest)" and "list_all asciiSpace pad"
    and "key \<noteq> []" and "CHR ''='' \<notin> set key" and "list_all (\<lambda>c. \<not> asciiSpace c) key"
  shows "settingsLoop settings (key @ CHR ''='' # pad @ v @ rest) =
    settingsLoop (mput (canonicalConnStringKey key) v settings) (trimLeft rest)"
proof -
  have "trimLeft (pad @ v @ rest) = trimLeft (v @ rest)"
    using assms(3) unfolding trimLeft_def list_all_iff by (simp add: dropWhile_append2)
  moreover have "trimLeft (v @ rest) = v @ rest"
    using assms(1) by (intro trimLeft_plain) (auto simp: plainValue_def hd_append list_all_iff)
  moreover have "trimBoth key = key"
    using assms(4,6) by (cases key rule: rev_cases) (auto simp: trimBoth_def trimLeft_plain list_all_iff hd_append)
  moreover have "canonicalConnStringKey key \<noteq> []" "v \<noteq> []"
    using assms(1,4) by (simp_all add: canonicalConnStringKey_def plainValue_def)
  ultimately show ?thesis
    using settingValue_plain [OF assms(1,2)] assms(4) indexByte_append [OF assms(5), of "pad @ v @ rest"]
    by (subst settingsLoop.simps) (simp add: Let_def)
qed

text \<open>A text of settings: keys, the blanks that pad the values, and the values.\<close>

definition settingsText :: "(string \<times> string \<times> string) list \<Rightarrow> string" where
  "settingsText kvs = joinWith '' '' (map (\<lambda>(key, pad, v). key @ CHR ''='' # pad @ v) kvs)"

fun settingOk :: "string \<times> string \<times> string \<Rightarrow> bool" where
  "settingOk (key, pad, v) \<longleftrightarrow>
     plainValue v \<and> list_all asciiSpace pad \<and> key \<noteq> [] \<and> CHR ''='' \<notin> set key \<and> list_all (\<lambda>c. \<not> asciiSpace c) key"

lemma settingsText_Cons:
  "kvs \<noteq> [] \<Longrightarrow> settingsText ((key, pad, v) # kvs) = key @ CHR ''='' # pad @ v @ CHR '' '' # settingsText kvs"
  by (simp add: settingsText_def joinWith_Cons)

lemma trimLeft_settingsText: "list_all settingOk kvs \<Longrightarrow> trimLeft (settingsText kvs) = settingsText kvs"
  by (cases kvs; cases "tl kvs")
     (auto simp: settingsText_def joinWith_Cons trimLeft_def list_all_iff dropWhile_eq_self_iff hd_append)

lemma settingsLoop_text:
  "list_all settingOk kvs \<Longrightarrow>
     settingsLoop m (settingsText kvs) = Inr (fold (\<lambda>(key, _, v). mput (canonicalConnStringKey key) v) kvs m)"
proof (induction kvs arbitrary: m)
  case Nil
  then show ?case by (simp add: settingsText_def settingsLoop.simps)
next
  case (Cons kv kvs)
  obtain key pad v where kv: "kv = (key, pad, v)" by (cases kv)
  have ok: "plainValue v" "list_all asciiSpace pad" "key \<noteq> []" "CHR ''='' \<notin> set key"
      "list_all (\<lambda>c. \<not> asciiSpace c) key" "list_all settingOk kvs"
    using Cons.prems by (simp_all add: kv)
  show ?case
  proof (cases "kvs = []")
    case True
    have "settingsLoop m (key @ CHR ''='' # pad @ v @ []) = settingsLoop (mput (canonicalConnStringKey key) v m) (trimLeft [])"
      using ok by (intro settingsLoop_plain) auto
    with True kv show ?thesis by (simp add: settingsText_def trimLeft_def settingsLoop.simps [of _ "[]"])
  next
    case False
    have "settingsLoop m (key @ CHR ''='' # pad @ v @ CHR '' '' # settingsText kvs) =
        settingsLoop (mput (canonicalConnStringKey key) v m) (trimLeft (CHR '' '' # settingsText kvs))"
      using ok by (intro settingsLoop_plain) (auto simp: asciiSpace_def)
    moreover have "trimLeft (CHR '' '' # settingsText kvs) = settingsText kvs"
      using trimLeft_settingsText [of kvs] ok by (simp add: trimLeft_def asciiSpace_def)
    ultimately show ?thesis using Cons False kv by (simp add: settingsText_Cons)
  qed
qed

lemma plainValue_decimal: "plainValue (decimal n)"
proof -
  have "isDigit c \<Longrightarrow> \<not> asciiSpace c \<and> c \<noteq> CHR 0x5C \<and> c \<noteq> CHR 0x27" for c
    by (auto simp: isDigit_def asciiSpace_def)
  moreover have "\<forall>c \<in> set (decimal n). isDigit c" "hd (decimal n) \<in> set (decimal n)"
    using set_decimal [of n] by auto
  ultimately show ?thesis by (auto simp: plainValue_def list_all_iff)
qed

lemma plainValue_append: "plainValue a \<Longrightarrow> plainValue b \<Longrightarrow> plainValue (a @ b)"
  by (simp add: plainValue_def)


definition sample_dbSettings :: dbSettings where
  "sample_dbSettings = \<lparr>ds_Host = ''db'', ds_Port = 5432, ds_User = ''gw'', ds_Password = ''secret'',
     ds_DatabaseName = ''gw'', ds_SSLMode = [], ds_PeerAddress = [], ds_PeerSigner = None, ds_PeerHostPublicKey = None\<rparr>"


section \<open>What a peer does with the request\<close>

lemma postgresRequest_marshalled:
  "postgresRequest = marshalTunnelData \<lparr>td_Host = ''postgres'', td_Port = 5432, td_OriginAddress = ''localhost'', td_OriginPort = 0\<rparr>"
  by (simp add: postgresRequest_def marshalTunnelData_def Let_def)

lemma unmarshal_postgresRequest:
  "unmarshalTunnelData postgresRequest =
     Inr \<lparr>td_Host = ''postgres'', td_Port = 5432, td_OriginAddress = ''localhost'', td_OriginPort = 0\<rparr>"
  unfolding postgresRequest_marshalled
  by (intro tunnel_payload.dec_enc) (simp_all add: tunnelDataAdmissible_def length_marshalTunnelData)

end
