(* ===== verification/Json.thy ===== *)
theory Json
  imports Prelude "HOL-Library.Char_ord"
begin

text \<open>
  The syntax check of \<^verbatim>\<open>encoding/json\<close> as the program relies on it: reading a document into a
  \<^verbatim>\<open>json.RawMessage\<close> accepts exactly the texts the scanner of that package accepts and yields
  the value without the white space around it. The scanner is a machine that takes one
  byte at a time; its state is the next thing expected and the stack of the open objects
  and arrays.
\<close>

datatype json_frame = ObjectKey | ObjectValue | ArrayValue

datatype json_state =
    BeginValue | BeginValueOrEmpty | BeginString | BeginStringOrEmpty | EndValue | EndTop
  | InString | InStringEsc | InStringEscU nat
  | Neg | Zero | Digits | Dot | Dot0 | Exp | ExpSign | Exp0
  | LitT | LitTr | LitTru | LitF | LitFa | LitFal | LitFals | LitN | LitNu | LitNul

definition jsonMaxDepth :: nat where
  "jsonMaxDepth = 10000"

definition jsonSpace :: "char \<Rightarrow> bool" where
  "jsonSpace c \<longleftrightarrow> c = CHR '' '' \<or> c = CHR 0x09 \<or> c = CHR 0x0D \<or> c = CHR 0x0A"

definition jsonDigit :: "char \<Rightarrow> bool" where
  "jsonDigit c \<longleftrightarrow> CHR ''0'' \<le> c \<and> c \<le> CHR ''9''"

definition jsonHex :: "char \<Rightarrow> bool" where
  "jsonHex c \<longleftrightarrow> jsonDigit c \<or> CHR ''a'' \<le> c \<and> c \<le> CHR ''f'' \<or> CHR ''A'' \<le> c \<and> c \<le> CHR ''F''"

type_synonym json_scan = "json_state \<times> json_frame list"

definition jsonPush :: "json_frame \<Rightarrow> json_state \<Rightarrow> json_frame list \<Rightarrow> json_scan option" where
  "jsonPush f next stack = (if length stack < jsonMaxDepth then Some (next, f # stack) else None)"

fun jsonPop :: "json_frame list \<Rightarrow> json_scan" where
  "jsonPop [] = (EndTop, [])"
| "jsonPop (f # stack) = (if stack = [] then (EndTop, []) else (EndValue, stack))"

fun jsonEndValue :: "json_frame list \<Rightarrow> char \<Rightarrow> json_scan option" where
  "jsonEndValue [] c = (if jsonSpace c then Some (EndTop, []) else None)"
| "jsonEndValue (f # stack) c =
     (if jsonSpace c then Some (EndValue, f # stack)
      else case f of
        ObjectKey \<Rightarrow> if c = CHR '':'' then Some (BeginValue, ObjectValue # stack) else None
      | ObjectValue \<Rightarrow> if c = CHR '','' then Some (BeginString, ObjectKey # stack)
                       else if c = CHR ''}'' then Some (jsonPop (f # stack)) else None
      | ArrayValue \<Rightarrow> if c = CHR '','' then Some (BeginValue, f # stack)
                      else if c = CHR '']'' then Some (jsonPop (f # stack)) else None)"

definition jsonBeginValue :: "json_state \<Rightarrow> json_frame list \<Rightarrow> char \<Rightarrow> json_scan option" where
  "jsonBeginValue stay stack c =
     (if jsonSpace c then Some (stay, stack)
      else if c = CHR ''{'' then jsonPush ObjectKey BeginStringOrEmpty stack
      else if c = CHR ''['' then jsonPush ArrayValue BeginValueOrEmpty stack
      else if c = CHR 0x22 then Some (InString, stack)
      else if c = CHR ''-'' then Some (Neg, stack)
      else if c = CHR ''0'' then Some (Zero, stack)
      else if c = CHR ''t'' then Some (LitT, stack)
      else if c = CHR ''f'' then Some (LitF, stack)
      else if c = CHR ''n'' then Some (LitN, stack)
      else if jsonDigit c then Some (Digits, stack)
      else None)"

definition jsonBeginString :: "json_state \<Rightarrow> json_frame list \<Rightarrow> char \<Rightarrow> json_scan option" where
  "jsonBeginString stay stack c =
     (if jsonSpace c then Some (stay, stack) else if c = CHR 0x22 then Some (InString, stack) else None)"

text \<open>After the integer part of a number.\<close>

definition jsonAfterInt :: "json_frame list \<Rightarrow> char \<Rightarrow> json_scan option" where
  "jsonAfterInt stack c =
     (if c = CHR ''.'' then Some (Dot, stack)
      else if c = CHR ''e'' \<or> c = CHR ''E'' then Some (Exp, stack) else jsonEndValue stack c)"

fun jsonStep :: "json_scan \<Rightarrow> char \<Rightarrow> json_scan option" where
  "jsonStep (BeginValue, stack) c = jsonBeginValue BeginValue stack c"
| "jsonStep (BeginValueOrEmpty, stack) c =
     (if c = CHR '']'' then jsonEndValue stack c else jsonBeginValue BeginValueOrEmpty stack c)"
| "jsonStep (BeginString, stack) c = jsonBeginString BeginString stack c"
| "jsonStep (BeginStringOrEmpty, stack) c =
     (if c = CHR ''}'' then jsonEndValue (ObjectValue # tl stack) c else jsonBeginString BeginStringOrEmpty stack c)"
| "jsonStep (EndValue, stack) c = jsonEndValue stack c"
| "jsonStep (EndTop, stack) c = (if jsonSpace c then Some (EndTop, stack) else None)"
| "jsonStep (InString, stack) c =
     (if c = CHR 0x22 then Some (EndValue, stack)
      else if c = CHR 0x5C then Some (InStringEsc, stack)
      else if c < CHR '' '' then None else Some (InString, stack))"
| "jsonStep (InStringEsc, stack) c =
     (if c \<in> set [CHR ''b'', CHR ''f'', CHR ''n'', CHR ''r'', CHR ''t'', CHR 0x5C, CHR ''/'', CHR 0x22] then Some (InString, stack)
      else if c = CHR ''u'' then Some (InStringEscU 3, stack) else None)"
| "jsonStep (InStringEscU n, stack) c =
     (if jsonHex c then Some (if n = 0 then InString else InStringEscU (n - 1), stack) else None)"
| "jsonStep (Neg, stack) c =
     (if c = CHR ''0'' then Some (Zero, stack) else if jsonDigit c then Some (Digits, stack) else None)"
| "jsonStep (Zero, stack) c = jsonAfterInt stack c"
| "jsonStep (Digits, stack) c = (if jsonDigit c then Some (Digits, stack) else jsonAfterInt stack c)"
| "jsonStep (Dot, stack) c = (if jsonDigit c then Some (Dot0, stack) else None)"
| "jsonStep (Dot0, stack) c =
     (if jsonDigit c then Some (Dot0, stack)
      else if c = CHR ''e'' \<or> c = CHR ''E'' then Some (Exp, stack) else jsonEndValue stack c)"
| "jsonStep (Exp, stack) c =
     (if c = CHR ''+'' \<or> c = CHR ''-'' then Some (ExpSign, stack)
      else if jsonDigit c then Some (Exp0, stack) else None)"
| "jsonStep (ExpSign, stack) c = (if jsonDigit c then Some (Exp0, stack) else None)"
| "jsonStep (Exp0, stack) c = (if jsonDigit c then Some (Exp0, stack) else jsonEndValue stack c)"
| "jsonStep (LitT, stack) c = (if c = CHR ''r'' then Some (LitTr, stack) else None)"
| "jsonStep (LitTr, stack) c = (if c = CHR ''u'' then Some (LitTru, stack) else None)"
| "jsonStep (LitTru, stack) c = (if c = CHR ''e'' then Some (EndValue, stack) else None)"
| "jsonStep (LitF, stack) c = (if c = CHR ''a'' then Some (LitFa, stack) else None)"
| "jsonStep (LitFa, stack) c = (if c = CHR ''l'' then Some (LitFal, stack) else None)"
| "jsonStep (LitFal, stack) c = (if c = CHR ''s'' then Some (LitFals, stack) else None)"
| "jsonStep (LitFals, stack) c = (if c = CHR ''e'' then Some (EndValue, stack) else None)"
| "jsonStep (LitN, stack) c = (if c = CHR ''u'' then Some (LitNu, stack) else None)"
| "jsonStep (LitNu, stack) c = (if c = CHR ''l'' then Some (LitNul, stack) else None)"
| "jsonStep (LitNul, stack) c = (if c = CHR ''l'' then Some (EndValue, stack) else None)"

fun jsonRun :: "json_scan \<Rightarrow> string \<Rightarrow> json_scan option" where
  "jsonRun s [] = Some s"
| "jsonRun s (c # cs) = (case jsonStep s c of None \<Rightarrow> None | Some s' \<Rightarrow> jsonRun s' cs)"

text \<open>At the end of the input a blank is fed to the machine, which ends a number.\<close>

definition jsonEnds :: "json_scan \<Rightarrow> bool" where
  "jsonEnds s \<longleftrightarrow> fst s = EndTop \<or> (case jsonStep s (CHR '' '') of None \<Rightarrow> False | Some s' \<Rightarrow> fst s' = EndTop)"

definition jsonValid :: "string \<Rightarrow> bool" where
  "jsonValid src = (case jsonRun (BeginValue, []) src of None \<Rightarrow> False | Some s \<Rightarrow> jsonEnds s)"

definition jsonTrim :: "string \<Rightarrow> string" where
  "jsonTrim src = rev (dropWhile jsonSpace (rev (dropWhile jsonSpace src)))"

definition jsonRaw :: "string \<Rightarrow> string option" where
  "jsonRaw src = (if jsonValid src then Some (jsonTrim src) else None)"

lemma jsonRun_append: "jsonRun s (a @ b) = (case jsonRun s a of None \<Rightarrow> None | Some s' \<Rightarrow> jsonRun s' b)"
  by (induction s a rule: jsonRun.induct) (auto split: option.split)

lemma jsonValid_leading: "jsonSpace c \<Longrightarrow> jsonValid (c # src) = jsonValid src"
  by (simp add: jsonValid_def jsonBeginValue_def)

lemma jsonValid_dropWhile: "jsonValid (dropWhile jsonSpace src) = jsonValid src"
  by (induction src) (simp_all add: jsonValid_leading)

lemma jsonEndValue_space: "jsonSpace c \<Longrightarrow> jsonEndValue stack c = Some (if stack = [] then EndTop else EndValue, stack)"
  by (cases stack) auto

text \<open>White space outside of a string either stays where it is or ends a value.\<close>

definition jsonAtSpace :: "json_scan \<Rightarrow> char \<Rightarrow> json_scan option" where
  "jsonAtSpace s c =
     (if fst s \<in> {BeginValue, BeginValueOrEmpty, BeginString, BeginStringOrEmpty, EndTop} then Some s
      else if fst s \<in> {EndValue, Zero, Digits, Dot0, Exp0} then Some (if snd s = [] then EndTop else EndValue, snd s)
      else if fst s = InString \<and> c = CHR '' '' then Some s
      else None)"

lemma jsonSpace_not:
  "jsonSpace c \<Longrightarrow> \<not> jsonDigit c" "jsonSpace c \<Longrightarrow> \<not> jsonHex c"
  "jsonSpace c \<Longrightarrow> c \<noteq> CHR '' '' \<Longrightarrow> c < CHR '' ''" "\<not> CHR '' '' < CHR '' ''"
  "jsonSpace c \<Longrightarrow> c \<notin> set ''.eE]}+-0bfnrt/ulasx'' \<and> c \<noteq> CHR 0x22 \<and> c \<noteq> CHR 0x5C"
  by (auto simp: jsonSpace_def jsonDigit_def jsonHex_def less_eq_char_def less_char_def)

lemma jsonStep_space:
  assumes "jsonSpace c"
  shows "jsonStep s c = jsonAtSpace s c"
proof -
  obtain st stack where s: "s = (st, stack)" by (cases s)
  show ?thesis
    using assms jsonSpace_not(1,2,3,5) [OF assms] jsonSpace_not(4) unfolding s
    by (cases st) (auto simp: jsonAtSpace_def jsonBeginValue_def jsonBeginString_def jsonAfterInt_def jsonEndValue_space)
qed

lemma jsonEnds_iff: "jsonEnds (st, stack) \<longleftrightarrow> st = EndTop \<or> st \<in> {EndValue, Zero, Digits, Dot0, Exp0} \<and> stack = []"
proof -
  have "jsonSpace (CHR '' '')" by (simp add: jsonSpace_def)
  from jsonStep_space [OF this] show ?thesis by (auto simp: jsonEnds_def jsonAtSpace_def)
qed

lemma jsonEnds_back:
  assumes "jsonStep s c = Some s'" and "jsonEnds s'" and "jsonSpace c"
  shows "jsonEnds s"
  using assms by (cases s; cases s') (auto simp: jsonStep_space jsonAtSpace_def jsonEnds_iff split: if_splits)

lemma jsonValid_trailing:
  assumes "jsonSpace c" and "jsonValid (src @ [c])"
  shows "jsonValid src"
  using assms jsonEnds_back by (auto simp: jsonValid_def jsonRun_append split: option.splits)

lemma jsonValid_dropWhile_end: "jsonValid (rev t) \<Longrightarrow> jsonValid (rev (dropWhile jsonSpace t))"
  by (induction t) (auto dest: jsonValid_trailing)

lemma jsonRaw_valid: "jsonRaw src = Some raw \<Longrightarrow> jsonValid raw \<and> raw = jsonTrim src"
  using jsonValid_dropWhile_end [of "rev (dropWhile jsonSpace src)"]
  by (auto simp: jsonRaw_def jsonTrim_def jsonValid_dropWhile split: if_splits)

end
