(* ===== verification/Service.thy ===== *)
theory Service
  imports Presence Json
begin

text \<open>
  \<^verbatim>\<open>gateway/service.go\<close> and \<^verbatim>\<open>gateway/session.go\<close>: the commands a session can run, their
  authorisation, the interactive shell, and the loop over the requests of a session
  channel. A session belongs to the connection \<open>r\<close> of the gateway. What the session's
  channel and the database answer is in the environment of each command; a JSON document
  that is written is kept as the value that was encoded.
\<close>


definition splitCommand :: "string \<Rightarrow> string list" where
  "splitCommand command = (case csvRead command of None \<Rightarrow> [] | Some fs \<Rightarrow> fs)"

section \<open>Output and environment\<close>

datatype report =
    PingReport string gotime
  | NodeReport "connectionStatus list"
  | ConnectionReport connectionStatus
  | UsersReport "user list \<times> nat"
  | UserReport "(user \<times> connectionStatus list) option"

datatype printed = Text string | ErrorText goerror | Report report

record sessionIO =
  io_out :: "printed list"
  io_writes :: nat

text \<open>
  \<open>sv_write i\<close> is the answer to the i-th write, \<open>sv_marshal\<close> the error of encoding a document;
  \<open>sv_stdin\<close> is what reading the channel to its end gives, \<open>sv_gunzip\<close> what reading it through
  the decompressor gives; \<open>sv_fault\<close> is the answer of the database.
\<close>

record serviceEnv =
  sv_write :: "nat \<Rightarrow> fault"
  sv_marshal :: "report \<Rightarrow> fault"
  sv_stdin :: "byte list res"
  sv_gunzip :: "byte list res"
  sv_fault :: fault
  sv_clk :: "nat \<Rightarrow> gotime"
  sv_seconds :: "duration \<Rightarrow> u64"

text \<open>A call comes back with nil or an error, or it has not come back: it waits for input, or for
  a connection to close that cannot close before it.\<close>

datatype outcome = Returned "unit res" | Waiting

type_synonym session = "gateway \<times> sessionIO"

definition service_write :: "serviceEnv \<Rightarrow> printed \<Rightarrow> session \<Rightarrow> unit res \<times> session" where
  "service_write env data s =
     (case s of (g, io) \<Rightarrow>
        (case sv_write env (io_writes io) of
           Some e \<Rightarrow> (Inl e, g, io\<lparr>io_writes := Suc (io_writes io)\<rparr>)
         | None \<Rightarrow> (Inr (), g, io\<lparr>io_writes := Suc (io_writes io), io_out := io_out io @ [data]\<rparr>)))"

definition service_marshal :: "serviceEnv \<Rightarrow> report \<Rightarrow> session \<Rightarrow> unit res \<times> session" where
  "service_marshal env value s =
     (case sv_marshal env value of Some e \<Rightarrow> (Inl e, s) | None \<Rightarrow> service_write env (Report value) s)"

section \<open>The commands\<close>

definition helpContent :: "connection \<Rightarrow> string list" where
  "helpContent c =
     [''Available commands:'', '''']
     @ (if cn_permitPortForwarding c then
          [''    status [username] - show gateway status, optionally filter by username'',
           ''    listUsers - list all users in database'',
           ''    listOnlineUsers - list users that are currently online'',
           ''    listLocalOnlineUsers - list users that are connected to this node'',
           ''    getUser <username> - get details about a user from database'', ''''] else [])
     @ (if cn_administrator c then [''    kickUser <username> - close connections from a user'', ''''] else [])
     @ [''    exit - exit shell'', ''    quit - same as exit'', ''    help - display this help message'',
        ''    version - show server version'', ''    ping - ping server'', '''', '''']"

definition service_help :: "serviceEnv \<Rightarrow> ref \<Rightarrow> session \<Rightarrow> unit res \<times> session" where
  "service_help env r s =
     service_write env (Text (joinWith [newline] (helpContent (gw_connection (fst s) r)))) s"

definition service_ping :: "serviceEnv \<Rightarrow> session \<Rightarrow> unit res \<times> session" where
  "service_ping env s =
     (let value = PingReport (gs_Version (gw_settings (fst s))) (sv_clk env 0)
      in case sv_marshal env value of
           Some e \<Rightarrow> (Inl e, s)
         | None \<Rightarrow> (case service_write env (Report value) s of
                      (Inl e, s1) \<Rightarrow> (Inl e, s1)
                    | (Inr _, s1) \<Rightarrow> service_write env (Text [newline]) s1))"

definition service_version :: "serviceEnv \<Rightarrow> session \<Rightarrow> unit res \<times> session" where
  "service_version env s = service_write env (Text (gs_Version (gw_settings (fst s)) @ [newline])) s"

definition service_status :: "serviceEnv \<Rightarrow> ref \<Rightarrow> string \<Rightarrow> session \<Rightarrow> unit res \<times> session" where
  "service_status env r user s =
     (let g = fst s; c = gw_connection g r
      in service_marshal env
           (if \<not> cn_permitPortForwarding c
            then ConnectionReport (conn_gatherStatus (sv_seconds env) (sv_clk env 0) (sv_clk env 1) (gw_tunnel g) c)
            else NodeReport (gw_gatherStatus (sv_seconds env) (sv_clk env) user g)) s)"

definition conn_reportStatus :: "serviceEnv \<Rightarrow> ref \<Rightarrow> status \<Rightarrow> session \<Rightarrow> unit res \<times> session" where
  "conn_reportStatus env r status s =
     (case s of (g, io) \<Rightarrow>
        (case db_UpdateUserStatus (sv_fault env) (sv_clk env 0) (cn_user (gw_connection g r)) status (gw_database g) of
           (res, db) \<Rightarrow> (res, g\<lparr>gw_database := db\<rparr>, io)))"

definition conn_reportScreenshot :: "serviceEnv \<Rightarrow> ref \<Rightarrow> byte list \<Rightarrow> session \<Rightarrow> unit res \<times> session" where
  "conn_reportScreenshot env r screenshot s =
     (case s of (g, io) \<Rightarrow>
        (case db_UpdateUserScreenshot (sv_fault env) (sv_clk env 0) (cn_user (gw_connection g r)) screenshot (gw_database g) of
           (res, db) \<Rightarrow> (res, g\<lparr>gw_database := db\<rparr>, io)))"

definition errNotInShell :: goerror where
  "errNotInShell = ErrText ''gateway: this command cannot be run in shell''"

definition errJson :: goerror where
  "errJson = ErrText ''json: syntax error''"

definition service_reportStatus :: "bool \<Rightarrow> serviceEnv \<Rightarrow> ref \<Rightarrow> session \<Rightarrow> unit res \<times> session" where
  "service_reportStatus shell env r s =
     (if shell then (Inl errNotInShell, s)
      else case sv_gunzip env of
             Inl e \<Rightarrow> (Inl e, s)
           | Inr raw \<Rightarrow> (case jsonRaw (string_of raw) of
                           None \<Rightarrow> (Inl errJson, s)
                         | Some status \<Rightarrow> conn_reportStatus env r (bytes_of status) s))"

definition service_reportScreenshot :: "bool \<Rightarrow> serviceEnv \<Rightarrow> ref \<Rightarrow> session \<Rightarrow> unit res \<times> session" where
  "service_reportScreenshot shell env r s =
     (if shell then (Inl errNotInShell, s)
      else case sv_stdin env of
             Inl e \<Rightarrow> (Inl e, s)
           | Inr screenshot \<Rightarrow> conn_reportScreenshot env r screenshot s)"

text \<open>The four commands that print what a query of the gateway returns.\<close>

definition printResult :: "serviceEnv \<Rightarrow> report res \<Rightarrow> session \<Rightarrow> unit res \<times> session" where
  "printResult env result s = (case result of Inl e \<Rightarrow> (Inl e, s) | Inr value \<Rightarrow> service_marshal env value s)"

definition service_listUsers :: "serviceEnv \<Rightarrow> session \<Rightarrow> unit res \<times> session" where
  "service_listUsers env s =
     printResult env (map_sum id UsersReport (gw_ListUsers (sv_fault env) (sv_clk env) (fst s))) s"

definition service_listOnlineUsers :: "serviceEnv \<Rightarrow> session \<Rightarrow> unit res \<times> session" where
  "service_listOnlineUsers env s =
     printResult env (map_sum id UsersReport (gw_ListOnlineUsers (sv_fault env) (sv_clk env 0) (fst s))) s"

definition service_listLocalOnlineUsers :: "serviceEnv \<Rightarrow> session \<Rightarrow> unit res \<times> session" where
  "service_listLocalOnlineUsers env s =
     printResult env (map_sum id UsersReport (gw_ListLocalOnlineUsers (sv_fault env) (fst s))) s"

definition service_getUser :: "serviceEnv \<Rightarrow> string \<Rightarrow> session \<Rightarrow> unit res \<times> session" where
  "service_getUser env userId s =
     printResult env (map_sum id UserReport
       (gw_GetUser (sv_seconds env) (sv_fault env) (\<lambda>i. sv_clk env (Suc i)) (sv_clk env 0) userId (fst s))) s"

definition service_kickUser :: "ref \<Rightarrow> string \<Rightarrow> session \<Rightarrow> outcome \<times> session" where
  "service_kickUser r userId s =
     (case kickUser (Some r) userId (fst s) of
        (returned, g) \<Rightarrow> (if returned then Returned (Inr ()) else Waiting, g, snd s))"

definition ret :: "unit res \<times> session \<Rightarrow> outcome \<times> session" where
  "ret x = (Returned (fst x), snd x)"

definition handleCommand :: "bool \<Rightarrow> serviceEnv \<Rightarrow> ref \<Rightarrow> string list \<Rightarrow> session \<Rightarrow> outcome \<times> session" where
  "handleCommand shell env r command s =
     (let c = gw_connection (fst s) r
      in if command = [''help''] then ret (service_help env r s)
         else if command = [''ping''] then ret (service_ping env s)
         else if command = [''version''] then ret (service_version env s)
         else if command = [''reportStatus''] then ret (service_reportStatus shell env r s)
         else if command = [''reportScreenshot''] then ret (service_reportScreenshot shell env r s)
         else if \<not> cn_permitPortForwarding c then (Returned (Inl ErrInvalidCommand), s)
         else if command = [''status''] then ret (service_status env r [] s)
         else if length command = 2 \<and> command ! 0 = ''status'' then ret (service_status env r (command ! 1) s)
         else if command = [''listUsers''] then ret (service_listUsers env s)
         else if command = [''listOnlineUsers''] then ret (service_listOnlineUsers env s)
         else if command = [''listLocalOnlineUsers''] then ret (service_listLocalOnlineUsers env s)
         else if length command = 2 \<and> command ! 0 = ''getUser'' then ret (service_getUser env (command ! 1) s)
         else if \<not> cn_administrator c then (Returned (Inl ErrInvalidCommand), s)
         else if length command = 2 \<and> command ! 0 = ''kickUser'' then service_kickUser r (command ! 1) s
         else (Returned (Inl ErrInvalidCommand), s))"

section \<open>The shell\<close>

datatype readLine = Line string | ReadEOF | ReadError goerror

text \<open>Each line comes with the environment its command runs in. A script that is used up means
  that the terminal waits for the next line.\<close>

fun shellLoop :: "ref \<Rightarrow> (serviceEnv \<times> readLine) list \<Rightarrow> session \<Rightarrow> outcome \<times> session" where
  "shellLoop r [] s = (Waiting, s)"
| "shellLoop r ((env, ReadEOF) # ls) s = (Returned (Inr ()), s)"
| "shellLoop r ((env, ReadError e) # ls) s = (Returned (Inl e), s)"
| "shellLoop r ((env, Line l) # ls) s =
     (let line = trimSpace l
      in if line = [] then shellLoop r ls s
         else if line = ''exit'' \<or> line = ''quit'' then (Returned (Inr ()), s)
         else case handleCommand True env r (splitCommand line) s of
                (Waiting, s1) \<Rightarrow> (Waiting, s1)
              | (Returned (Inr _), s1) \<Rightarrow> shellLoop r ls s1
              | (Returned (Inl e), s1) \<Rightarrow>
                  (case service_write env (ErrorText e) s1 of
                     (Inl e', s2) \<Rightarrow> (Returned (Inl e'), s2)
                   | (Inr _, s2) \<Rightarrow> shellLoop r ls s2))"

definition welcomeText :: "gateway \<Rightarrow> string" where
  "welcomeText g = ''Welcome to gatewaysshd version '' @ gs_Version (gw_settings g)
     @ ''! Type '' @ [quoteChar] @ ''help'' @ [quoteChar] @ '' to get a list of available commands.'' @ [newline]"

definition handleShell :: "serviceEnv \<Rightarrow> ref \<Rightarrow> (serviceEnv \<times> readLine) list \<Rightarrow> session \<Rightarrow> outcome \<times> session" where
  "handleShell env r script s =
     (case service_write env (Text (welcomeText (fst s))) s of
        (Inl e, s1) \<Rightarrow> (Returned (Inl e), s1)
      | (Inr _, s1) \<Rightarrow> shellLoop r script s1)"

definition runService :: "serviceEnv \<Rightarrow> (serviceEnv \<times> readLine) list \<Rightarrow> string \<Rightarrow> ref \<Rightarrow> session \<Rightarrow> outcome \<times> session" where
  "runService env script command r s =
     (if command = [] then handleShell env r script s
      else case handleCommand False env r (splitCommand command) s of
             (Waiting, s1) \<Rightarrow> (Waiting, s1)
           | (Returned (Inr _), s1) \<Rightarrow> (Returned (Inr ()), s1)
           | (Returned (Inl e), s1) \<Rightarrow>
               if e = ErrInvalidCommand
               then (case jsonRaw command of
                       None \<Rightarrow> (Returned (Inl errJson), s1)
                     | Some status \<Rightarrow> ret (conn_reportStatus env r (bytes_of status) s1))
               else (Returned (Inr ()), s1))"

section \<open>The session loop\<close>

datatype sessionEvent = Replied bool | WroteError goerror | ClosedWrite | SentExitStatus u32 | ClosedChannel

text \<open>A request of a session with what sending its reply returns and what its command meets.\<close>

record sessionRequest =
  sr_request :: sshRequest
  sr_replyFault :: fault
  sr_env :: serviceEnv
  sr_script :: "(serviceEnv \<times> readLine) list"

definition sessionCommand :: "sshRequest \<Rightarrow> string res" where
  "sessionCommand request =
     (if rq_Type request = ''exec''
      then (case Unmarshal [] [KString] (rq_Payload request) of
              Inl e \<Rightarrow> Inl e
            | Inr [VString command] \<Rightarrow> Inr command
            | Inr _ \<Rightarrow> Inl (ErrText ''ssh: unmarshal error for field''))
      else Inr [])"

definition sessionClosing :: "bool \<Rightarrow> sessionEvent list" where
  "sessionClosing success = [ClosedWrite, SentExitStatus (if success then 0 else 1), ClosedChannel]"

text \<open>The function literal around one command: None if it has not returned.\<close>

definition sessionRun :: "ref \<Rightarrow> sessionRequest \<Rightarrow> session \<Rightarrow> bool option \<times> sessionEvent list \<times> session" where
  "sessionRun r q s =
     (case sessionCommand (sr_request q) of
        Inl e \<Rightarrow> (Some False, sessionClosing False, s)
      | Inr command \<Rightarrow>
          (case runService (sr_env q) (sr_script q) command r s of
             (Waiting, s1) \<Rightarrow> (None, [], s1)
           | (Returned (Inl e), s1) \<Rightarrow> (Some False, WroteError e # sessionClosing False, s1)
           | (Returned (Inr _), s1) \<Rightarrow> (Some True, sessionClosing True, s1)))"

definition sessionAccepts :: "string \<Rightarrow> bool" where
  "sessionAccepts ty \<longleftrightarrow> ty = ''env'' \<or> ty = ''shell'' \<or> ty = ''exec'' \<or> ty = ''pty-req''"

definition sessionReply :: "sessionRequest \<Rightarrow> sessionEvent list" where
  "sessionReply q =
     (if rq_WantReply (sr_request q) \<and> sr_replyFault q = None then [Replied (sessionAccepts (rq_Type (sr_request q)))] else [])"

fun handleSession :: "ref \<Rightarrow> sessionRequest list \<Rightarrow> session \<Rightarrow> sessionEvent list \<times> session" where
  "handleSession r [] s = ([], s)"
| "handleSession r (q # qs) s =
     (if rq_WantReply (sr_request q) \<and> sr_replyFault q \<noteq> None then (sessionReply q, s)
      else if rq_Type (sr_request q) \<noteq> ''shell'' \<and> rq_Type (sr_request q) \<noteq> ''exec''
      then (case handleSession r qs s of (ev, s') \<Rightarrow> (sessionReply q @ ev, s'))
      else (case sessionRun r q s of
              (Some True, ev, s1) \<Rightarrow> (case handleSession r qs s1 of (ev', s') \<Rightarrow> (sessionReply q @ ev @ ev', s'))
            | (_, ev, s1) \<Rightarrow> (sessionReply q @ ev, s1)))"

section \<open>What a session can change and see\<close>

text \<open>A row after reports of its user: a new status is valid JSON.\<close>

definition reported :: "user_row \<Rightarrow> user_row \<Rightarrow> bool" where
  "reported row row' \<longleftrightarrow>
     row'\<lparr>ur_status := ur_status row, ur_screenshot := ur_screenshot row, ur_modified_at := ur_modified_at row\<rparr> = row
     \<and> (ur_status row' = ur_status row \<or> (\<exists>j. jsonValid j \<and> ur_status row' = status_value (bytes_of j)))"

definition confined :: "string \<Rightarrow> gateway \<Rightarrow> gateway \<Rightarrow> bool" where
  "confined user g g' \<longleftrightarrow>
     g'\<lparr>gw_database := gw_database g\<rparr> = g
     \<and> db_nodes (gw_database g') = db_nodes (gw_database g)
     \<and> (\<forall>k. k \<noteq> user \<longrightarrow> mget (db_users (gw_database g')) k = mget (db_users (gw_database g)) k)
     \<and> rel_option reported (mget (db_users (gw_database g)) user) (mget (db_users (gw_database g')) user)"

fun public :: "printed \<Rightarrow> bool" where
  "public (Text t) = True"
| "public (ErrorText e) = True"
| "public (Report v) = (case v of PingReport _ _ \<Rightarrow> True | _ \<Rightarrow> False)"

definition confined_session :: "ref \<Rightarrow> session \<Rightarrow> session \<Rightarrow> bool" where
  "confined_session r s s' \<longleftrightarrow>
     confined (cn_user (gw_connection (fst s) r)) (fst s) (fst s')
     \<and> (cn_permitPortForwarding (gw_connection (fst s) r)
        \<or> set (io_out (snd s')) \<subseteq> set (io_out (snd s)) \<union> Collect public)"

definition unprivileged :: "ref \<Rightarrow> session \<Rightarrow> bool" where
  "unprivileged r s \<longleftrightarrow>
     \<not> (cn_permitPortForwarding (gw_connection (fst s) r) \<and> cn_administrator (gw_connection (fst s) r))"

lemma reported_refl [simp]: "reported row row"
  by (simp add: reported_def)

lemma reported_trans:
  assumes "reported a b" and "reported b c"
  shows "reported a c"
proof -
  have "c\<lparr>ur_status := ur_status a, ur_screenshot := ur_screenshot a, ur_modified_at := ur_modified_at a\<rparr> =
      (c\<lparr>ur_status := ur_status b, ur_screenshot := ur_screenshot b, ur_modified_at := ur_modified_at b\<rparr>)
        \<lparr>ur_status := ur_status a, ur_screenshot := ur_screenshot a, ur_modified_at := ur_modified_at a\<rparr>"
    by simp
  with assms show ?thesis unfolding reported_def by metis
qed

lemma confined_refl [simp]: "confined user g g"
  by (simp add: confined_def rel_option_reflI)

lemma confined_trans:
  assumes "confined user a b" and "confined user b c"
  shows "confined user a c"
proof -
  have "rel_option reported x y \<Longrightarrow> rel_option reported y z \<Longrightarrow> rel_option reported x z" for x y z
    by (cases x; cases y; cases z) (auto intro: reported_trans)
  moreover have "c\<lparr>gw_database := gw_database a\<rparr> = (c\<lparr>gw_database := gw_database b\<rparr>)\<lparr>gw_database := gw_database a\<rparr>"
    by simp
  ultimately show ?thesis using assms unfolding confined_def by metis
qed

lemma confined_connection: "confined user g g' \<Longrightarrow> gw_connection g' = gw_connection g"
  unfolding confined_def by (metis gateway.select_convs(9) gateway.surjective gateway.update_convs(2))

lemma confined_session_refl [simp]: "confined_session r s s"
  by (simp add: confined_session_def)

lemma confined_session_trans:
  assumes "confined_session r a b" and "confined_session r b c"
  shows "confined_session r a c"
  using assms confined_connection [of _ "fst a" "fst b"] confined_trans [of _ "fst a" "fst b" "fst c"]
  unfolding confined_session_def by auto

lemma confined_session_unprivileged: "confined_session r a b \<Longrightarrow> unprivileged r a \<Longrightarrow> unprivileged r b"
  using confined_connection unfolding confined_session_def unprivileged_def by metis

lemma service_write_session:
  "fst (snd (service_write env p s)) = fst s"
  "set (io_out (snd (snd (service_write env p s)))) \<subseteq> insert p (set (io_out (snd s)))"
  by (cases s; simp add: service_write_def split: option.splits)
     (cases s; auto simp: service_write_def split: option.splits)

lemma service_write_confined:
  assumes "cn_permitPortForwarding (gw_connection (fst s) r) \<or> public p"
  shows "confined_session r s (snd (service_write env p s))"
  using assms service_write_session [of env p s] unfolding confined_session_def by auto

lemma service_marshal_confined:
  assumes "cn_permitPortForwarding (gw_connection (fst s) r)"
  shows "confined_session r s (snd (service_marshal env v s))"
  using assms by (auto simp: service_marshal_def service_write_confined split: option.split)

lemma printResult_confined:
  assumes "cn_permitPortForwarding (gw_connection (fst s) r)"
  shows "confined_session r s (snd (printResult env v s))"
  using assms by (auto simp: printResult_def service_marshal_confined split: sum.split)

lemma updateUserColumn_confined:
  assumes "\<And>row at. reported row ((f row)\<lparr>ur_modified_at := at\<rparr>)"
  shows "confined user g (g\<lparr>gw_database := snd (updateUserColumn fault now user f (gw_database g))\<rparr>)"
proof (cases "fault = None \<and> mget (db_users (gw_database g)) user \<noteq> None")
  case True
  then obtain row where row: "fault = None" "mget (db_users (gw_database g)) user = Some row" by auto
  then show ?thesis
    using assms by (simp add: confined_def updateUserColumn_def gomap_simps)
qed (auto simp: updateUserColumn_def split: option.splits)

lemma conn_reportStatus_confined:
  assumes "jsonValid j"
  shows "confined_session r s (snd (conn_reportStatus env r (bytes_of j) s))"
proof -
  obtain g io where s: "s = (g, io)" by (cases s)
  have "reported row (row\<lparr>ur_status := status_value (bytes_of j), ur_modified_at := at\<rparr>)" for row at
    using assms by (auto simp: reported_def)
  from updateUserColumn_confined [of "\<lambda>row. row\<lparr>ur_status := status_value (bytes_of j)\<rparr>", OF this] show ?thesis
    by (simp add: s conn_reportStatus_def confined_session_def db_UpdateUserStatus_def split: prod.split)
       (metis snd_conv)
qed

lemma conn_reportScreenshot_confined: "confined_session r s (snd (conn_reportScreenshot env r screenshot s))"
proof -
  obtain g io where s: "s = (g, io)" by (cases s)
  have "reported row (row\<lparr>ur_screenshot := Some screenshot, ur_modified_at := at\<rparr>)" for row at
    by (simp add: reported_def)
  from updateUserColumn_confined [of "\<lambda>row. row\<lparr>ur_screenshot := Some screenshot\<rparr>", OF this] show ?thesis
    by (simp add: s conn_reportScreenshot_def confined_session_def db_UpdateUserScreenshot_def split: prod.split)
       (metis snd_conv)
qed

lemma public_commands_confined:
  "confined_session r s (snd (service_help env r s))"
  "confined_session r s (snd (service_version env s))"
  "confined_session r s (snd (service_ping env s))"
proof -
  show "confined_session r s (snd (service_help env r s))" "confined_session r s (snd (service_version env s))"
    by (simp_all add: service_help_def service_version_def service_write_confined)
  let ?p = "Report (PingReport (gs_Version (gw_settings (fst s))) (sv_clk env 0))"
  have "confined_session r s (snd (service_write env ?p s))" by (simp add: service_write_confined)
  moreover from this have "confined_session r s (snd (service_write env (Text [newline]) (snd (service_write env ?p s))))"
    by (rule confined_session_trans) (simp add: service_write_confined)
  ultimately show "confined_session r s (snd (service_ping env s))"
    by (auto simp: service_ping_def Let_def split: option.split sum.split prod.split)
qed

lemma reports_confined:
  "confined_session r s (snd (service_reportStatus shell env r s))"
  "confined_session r s (snd (service_reportScreenshot shell env r s))"
  by (auto simp: service_reportStatus_def service_reportScreenshot_def dest!: jsonRaw_valid
      intro: conn_reportStatus_confined conn_reportScreenshot_confined split: sum.split option.split)

lemma queries_confined:
  assumes "cn_permitPortForwarding (gw_connection (fst s) r)"
  shows "confined_session r s (snd (service_status env r user s))"
    and "confined_session r s (snd (service_listUsers env s))"
    and "confined_session r s (snd (service_listOnlineUsers env s))"
    and "confined_session r s (snd (service_listLocalOnlineUsers env s))"
    and "confined_session r s (snd (service_getUser env userId s))"
  using assms
  by (simp_all add: service_status_def service_listUsers_def service_listOnlineUsers_def
      service_listLocalOnlineUsers_def service_getUser_def service_marshal_confined printResult_confined Let_def)

lemma ret_simps [simp]: "snd (ret x) = snd x" "fst (ret x) = Returned (fst x)"
  by (simp_all add: ret_def)

lemma handleCommand_confined:
  assumes "unprivileged r s"
  shows "confined_session r s (snd (handleCommand shell env r command s))"
  using assms
  by (auto simp: handleCommand_def Let_def unprivileged_def public_commands_confined reports_confined queries_confined)

lemma shellLoop_Line_confined:
  assumes up: "unprivileged r s" and IH: "\<And>s. unprivileged r s \<Longrightarrow> confined_session r s (snd (shellLoop r ls s))"
  shows "confined_session r s (snd (shellLoop r ((env, Line l) # ls) s))"
proof -
  obtain x s1 where h: "handleCommand True env r (splitCommand (trimSpace l)) s = (x, s1)" by (metis surj_pair)
  have c1: "confined_session r s s1"
    using handleCommand_confined [OF up, of True env "splitCommand (trimSpace l)"] by (simp add: h)
  have next1: "confined_session r s (snd (shellLoop r ls s2))" if "confined_session r s s2"
    and "confined_session r s2 (snd (shellLoop r ls s2))" for s2
    using that by (rule confined_session_trans)
  show ?thesis
  proof (cases "trimSpace l = [] \<or> trimSpace l = ''exit'' \<or> trimSpace l = ''quit''")
    case True
    with IH [of s] up show ?thesis by (auto simp: Let_def)
  next
    case False
    show ?thesis
    proof (cases x)
      case (Returned res)
      show ?thesis
      proof (cases res)
        case (Inl e)
        obtain y s2 where w: "service_write env (ErrorText e) s1 = (y, s2)" by (metis surj_pair)
        have c2: "confined_session r s s2"
          using confined_session_trans [OF c1] service_write_confined [of s1 r "ErrorText e" env] by (simp add: w)
        have "unprivileged r s2" by (rule confined_session_unprivileged [OF c2 up])
        with False h Returned Inl w c2 IH [of s2] next1 [OF c2] show ?thesis
          by (cases y) (auto simp: Let_def)
      next
        case (Inr u)
        have "unprivileged r s1" by (rule confined_session_unprivileged [OF c1 up])
        with False h Returned Inr IH [of s1] next1 [OF c1] show ?thesis by (auto simp: Let_def)
      qed
    qed (use False h c1 in \<open>auto simp: Let_def\<close>)
  qed
qed

lemma shellLoop_confined:
  "unprivileged r s \<Longrightarrow> confined_session r s (snd (shellLoop r script s))"
proof (induction script arbitrary: s)
  case (Cons q ls)
  obtain env rl where q: "q = (env, rl)" by (cases q)
  show ?case
    unfolding q by (cases rl) (use shellLoop_Line_confined [OF Cons.prems Cons.IH] in simp_all)
qed simp

lemma runService_confined:
  assumes "unprivileged r s"
  shows "confined_session r s (snd (runService env script command r s))"
proof -
  let ?w = "service_write env (Text (welcomeText (fst s))) s"
  have w: "confined_session r s (snd ?w)" by (simp add: service_write_confined)
  have shell: "confined_session r s (snd (handleShell env r script s))"
    using w confined_session_trans [OF w shellLoop_confined [OF confined_session_unprivileged [OF w assms]]]
    by (auto simp: handleShell_def split: sum.split prod.split)
  let ?h = "handleCommand False env r (splitCommand command) s"
  have h: "confined_session r s (snd ?h)" by (rule handleCommand_confined [OF assms])
  have "confined_session r s (snd (conn_reportStatus env r (bytes_of j) (snd ?h)))" if "jsonRaw command = Some j" for j
    using jsonRaw_valid [OF that] by (blast intro: confined_session_trans [OF h] conn_reportStatus_confined)
  with h shell show ?thesis
    by (auto simp: runService_def split: outcome.split sum.split prod.split option.split)
qed

lemma sessionRun_confined:
  assumes "unprivileged r s"
  shows "confined_session r s (snd (snd (sessionRun r q s)))"
  using runService_confined [OF assms]
  by (auto simp: sessionRun_def split: outcome.split sum.split prod.split) (metis snd_conv)+

lemma handleSession_confined:
  "unprivileged r s \<Longrightarrow> confined_session r s (snd (handleSession r qs s))"
proof (induction qs arbitrary: s)
  case (Cons q qs)
  have run: "confined_session r s (snd (snd (sessionRun r q s)))"
    by (rule sessionRun_confined [OF Cons.prems])
  have "confined_session r s (snd (handleSession r qs (snd (snd (sessionRun r q s)))))"
    by (rule confined_session_trans [OF run Cons.IH [OF confined_session_unprivileged [OF run Cons.prems]]])
  with run Cons.IH [OF Cons.prems] show ?case
    by (auto split: prod.split option.split bool.split)
qed simp

text \<open>C7: Whatever requests a client sends on a session, a connection that is not both permitted to
  forward ports and an administrator changes nothing but the reports in its own user's
  row, where a new status is valid JSON; and without the permission it is shown nothing
  but fixed texts, error messages and the answer to a ping.\<close>

theorem session_confined:
  assumes "\<not> (cn_permitPortForwarding (gw_connection g r) \<and> cn_administrator (gw_connection g r))"
  shows "confined (cn_user (gw_connection g r)) g (fst (snd (handleSession r qs (g, io))))
    \<and> (\<not> cn_permitPortForwarding (gw_connection g r) \<longrightarrow>
         set (io_out (snd (snd (handleSession r qs (g, io))))) \<subseteq> set (io_out io) \<union> Collect public)"
  using handleSession_confined [of r "(g, io)" qs] assms by (auto simp: unprivileged_def confined_session_def)

section \<open>The exit status\<close>

lemma handleSession_exec:
  assumes "rq_Type (sr_request q) = ''exec''" and "sr_replyFault q = None"
    and "sessionCommand (sr_request q) = Inr command"
    and "runService (sr_env q) (sr_script q) command r s = (Returned res, s1)"
  shows "handleSession r [q] s =
    (sessionReply q @ (case res of Inl e \<Rightarrow> WroteError e # sessionClosing False | Inr _ \<Rightarrow> sessionClosing True), s1)"
  using assms by (simp add: sessionRun_def split: sum.split)

text \<open>C33: The exit status of a command given to exec is 0 unless the command is not one of those the
  connection may use and its text is not a JSON document that can be stored. Any other
  error of a command is lost: the client sees no message and the status 0.\<close>

theorem exec_exit_status:
  assumes "rq_Type (sr_request q) = ''exec''" and "sr_replyFault q = None"
    and "sessionCommand (sr_request q) = Inr command" and "command \<noteq> []"
    and "handleCommand False (sr_env q) r (splitCommand command) s = (Returned res, s1)"
  shows "(SentExitStatus 0 \<in> set (fst (handleSession r [q] s)) \<longleftrightarrow>
      res \<noteq> Inl ErrInvalidCommand
      \<or> (\<exists>status. jsonRaw command = Some status \<and> fst (conn_reportStatus (sr_env q) r (bytes_of status) s1) = Inr ()))
    \<and> (\<forall>e. res = Inl e \<and> e \<noteq> ErrInvalidCommand \<longrightarrow>
        handleSession r [q] s = (sessionReply q @ sessionClosing True, s1))"
proof -
  have status: "SentExitStatus 0 \<notin> set (sessionReply q)" by (simp add: sessionReply_def)
  note session = handleSession_exec [OF assms(1-3)]
  show ?thesis
  proof (cases "res = Inl ErrInvalidCommand")
    case False
    then have "runService (sr_env q) (sr_script q) command r s = (Returned (Inr ()), s1)"
      using assms(4,5) by (cases res) (simp_all add: runService_def)
    from session [OF this] False show ?thesis by (simp add: sessionClosing_def)
  next
    case True
    show ?thesis
    proof (cases "jsonRaw command")
      case None
      with True have "runService (sr_env q) (sr_script q) command r s = (Returned (Inl errJson), s1)"
        using assms(4,5) by (simp add: runService_def)
      from session [OF this] True None status show ?thesis by (simp add: sessionClosing_def)
    next
      case (Some status)
      let ?c = "conn_reportStatus (sr_env q) r (bytes_of status) s1"
      from True Some have "runService (sr_env q) (sr_script q) command r s = (Returned (fst ?c), snd ?c)"
        using assms(4,5) by (simp add: runService_def ret_def)
      from session [OF this] True Some \<open>SentExitStatus 0 \<notin> set (sessionReply q)\<close> show ?thesis
        by (cases "fst ?c") (simp_all add: sessionClosing_def)
    qed
  qed
qed

section \<open>Kicking by command\<close>

lemma splitCommand_quoted:
  "fs \<noteq> [] \<Longrightarrow> \<forall>f \<in> set fs. newline \<notin> set f \<Longrightarrow> splitCommand (joinWith [blank] (map csvQuote fs)) = fs"
  by (simp add: splitCommand_def csvRead_quoted)

lemma sessionCommand_exec:
  assumes "rq_Type request = ''exec''" and "rq_Payload request = Marshal [] [VString command]"
    and "length (rq_Payload request) < 2 ^ 32"
  shows "sessionCommand request = Inr command"
  using Unmarshal_Marshal [of "[VString command]"] Marshal_nonempty [of "[VString command]" command] assms
  by (simp add: sessionCommand_def)

lemma kickUser_result:
  assumes "cn_user (gw_connection g c) \<noteq> user"
  shows "\<exists>g'. kickUser (Some c) user g = (True, g')
    \<and> (\<forall>r. gw_connection g' r =
         (if r \<in> set (gw_connectionsList g) \<and> cn_user (gw_connection g r) = user
          then connection_close (gw_connection g r) else gw_connection g r))"
proof -
  let ?g = "case gs_RevokeLoginFlags (gw_settings g) of None \<Rightarrow> g
      | Some revoke \<Rightarrow> g\<lparr>gw_loginFlags := revoke user (gw_loginFlags g)\<rparr>"
  have same: "gw_connection ?g = gw_connection g" "gw_connectionsList ?g = gw_connectionsList g"
    by (simp_all split: option.splits)
  obtain b g' where k: "kickLoop (Some c) user (gw_connectionsList g) ?g = (b, g')" by (metis surj_pair)
  have "case Some c of None \<Rightarrow> True | Some c \<Rightarrow> c \<notin> set (gw_connectionsList g) \<or> cn_user (gw_connection ?g c) \<noteq> user"
    using assms same by simp
  note result = kickLoop_result [OF this, unfolded k, simplified same, simplified]
  have "kickUser (Some c) user g = (True, g')"
    using k result same by (simp add: kickUser_def listConnections_def Let_def)
  with result show ?thesis by auto
qed

text \<open>C34: An administrator can kick any other user whose name has no line break, by quoting it: the
  session answers with status 0, by then every registered connection of that user has
  been closed, and no other connection has changed.\<close>

theorem exec_kick:
  assumes "cn_permitPortForwarding (gw_connection g r)" and "cn_administrator (gw_connection g r)"
    and "cn_user (gw_connection g r) \<noteq> user" and "newline \<notin> set user"
    and "rq_Type (sr_request q) = ''exec''" and "sr_replyFault q = None"
    and "rq_Payload (sr_request q) = Marshal [] [VString (csvQuote ''kickUser'' @ blank # csvQuote user)]"
    and "length (rq_Payload (sr_request q)) < 2 ^ 32"
  shows "\<exists>g'. handleSession r [q] (g, io) = (sessionReply q @ sessionClosing True, g', io)
    \<and> (\<forall>c. gw_connection g' c =
         (if c \<in> set (gw_connectionsList g) \<and> cn_user (gw_connection g c) = user
          then connection_close (gw_connection g c) else gw_connection g c))"
proof -
  let ?command = "csvQuote ''kickUser'' @ blank # csvQuote user"
  have "splitCommand ?command = [''kickUser'', user]"
    using splitCommand_quoted [of "[''kickUser'', user]"] assms(4) by simp
  moreover obtain g' where g': "kickUser (Some r) user g = (True, g')"
    "\<forall>c. gw_connection g' c =
         (if c \<in> set (gw_connectionsList g) \<and> cn_user (gw_connection g c) = user
          then connection_close (gw_connection g c) else gw_connection g c)"
    using kickUser_result [OF assms(3)] by auto
  ultimately have "handleCommand False (sr_env q) r (splitCommand ?command) (g, io) = (Returned (Inr ()), g', io)"
    using assms(1,2) by (simp add: handleCommand_def service_kickUser_def)
  then have "runService (sr_env q) (sr_script q) ?command r (g, io) = (Returned (Inr ()), g', io)"
    by (simp add: runService_def csvQuote_def)
  from handleSession_exec [OF assms(5,6) sessionCommand_exec [OF assms(5,7,8)] this] g'(2) show ?thesis
    by auto
qed

section \<open>Sample sessions\<close>

definition sample_env :: "fault \<Rightarrow> serviceEnv" where
  "sample_env fault = \<lparr>sv_write = (\<lambda>_. None), sv_marshal = (\<lambda>_. None), sv_stdin = Inr [], sv_gunzip = Inr [],
     sv_fault = fault, sv_clk = (\<lambda>_. 1), sv_seconds = (\<lambda>_. 0)\<rparr>"

definition sample_exec :: "fault \<Rightarrow> string \<Rightarrow> sessionRequest" where
  "sample_exec fault command =
     \<lparr>sr_request = \<lparr>rq_Type = ''exec'', rq_WantReply = True, rq_Payload = Marshal [] [VString command]\<rparr>,
      sr_replyFault = None, sr_env = sample_env fault, sr_script = []\<rparr>"

definition sample_io :: sessionIO where
  "sample_io = \<lparr>io_out = [], io_writes = 0\<rparr>"

definition sample_admin_gateway :: gateway where
  "sample_admin_gateway =
     snd (acceptConnection ''k1'' \<lparr>pm_CriticalOptions = [], pm_Extensions = [(''permit-port-forwarding'', []), (''administrator'', [])]\<rparr>
        ''root'' ''10.1.2.4:40000'' (newUsage 0) sample_gateway)"

lemma sample_gateway_roles:
  "cn_permitPortForwarding (gw_connection sample_gateway 0)" "\<not> cn_administrator (gw_connection sample_gateway 0)"
  "gw_nextRef sample_gateway = 1"
  by (simp_all add: sample_gateway_def modify_connection_def acceptConnection_def addConnection_def
      newGateway_def newConnection_def sample_permissions_def registerService_def Let_def)

lemma sample_admin_conn:
  "gw_connection sample_admin_gateway 0 = gw_connection sample_gateway 0"
  "gw_connectionsList sample_admin_gateway = [1, 0]"
  "cn_permitPortForwarding (gw_connection sample_admin_gateway 1)" "cn_administrator (gw_connection sample_admin_gateway 1)"
  "cn_user (gw_connection sample_admin_gateway 1) = ''root''"
  by (simp_all add: sample_admin_gateway_def acceptConnection_def addConnection_def newConnection_def
      sample_gateway_roles sample_gateway_list Let_def)

lemma sample_exec_simps:
  "rq_Type (sr_request (sample_exec fault command)) = ''exec''" "sr_replyFault (sample_exec fault command) = None"
  "rq_Payload (sr_request (sample_exec fault command)) = Marshal [] [VString command]"
  by (simp_all add: sample_exec_def)

lemma sample_command: "length command < 1000 \<Longrightarrow> sessionCommand (sr_request (sample_exec fault command)) = Inr command"
  by (rule sessionCommand_exec)
     (simp_all add: sample_exec_def Marshal_untagged encodeField_def appendInt_def bytes_simps putU32_def)

theorem session_confined_witness:
  "confined ''alice'' sample_gateway (fst (snd (handleSession 0 [sample_exec None ''ping''] (sample_gateway, sample_io))))"
  using session_confined [of sample_gateway 0 "[sample_exec None ''ping'']" sample_io]
    sample_gateway_roles sample_gateway_conn by simp

theorem exec_exit_status_witness:
  "SentExitStatus 0 \<in> set (fst (handleSession 0 [sample_exec (Some (ErrExternal 0)) (csvQuote ''listUsers'')] (sample_gateway, sample_io)))"
proof -
  let ?q = "sample_exec (Some (ErrExternal 0)) (csvQuote ''listUsers'')"
  have command: "sessionCommand (sr_request ?q) = Inr (csvQuote ''listUsers'')"
    by (rule sample_command) (simp add: csvQuote_def)
  have "splitCommand (csvQuote ''listUsers'') = [''listUsers'']"
    using splitCommand_quoted [of "[''listUsers'']"] by simp
  then have failed: "handleCommand False (sr_env ?q) 0 (splitCommand (csvQuote ''listUsers'')) (sample_gateway, sample_io) =
      (Returned (Inl (ErrExternal 0)), sample_gateway, sample_io)"
    by (simp add: handleCommand_def sample_gateway_roles service_listUsers_def gw_ListUsers_def db_ListUsers_def
        listUsers_def sample_exec_def sample_env_def printResult_def ret_def)
  have "csvQuote ''listUsers'' \<noteq> []" by (simp add: csvQuote_def)
  from exec_exit_status [OF sample_exec_simps(1,2) command this failed] show ?thesis by blast
qed

theorem exec_kick_witness:
  "\<exists>g'. snd (handleSession 1 [sample_exec None (csvQuote ''kickUser'' @ blank # csvQuote ''alice'')] (sample_admin_gateway, sample_io)) = (g', sample_io)
     \<and> cn_done (gw_connection g' 0)"
proof -
  let ?q = "sample_exec None (csvQuote ''kickUser'' @ blank # csvQuote ''alice'')"
  have short: "length (rq_Payload (sr_request ?q)) < 2 ^ 32"
    by (simp add: sample_exec_def Marshal_untagged encodeField_def appendInt_def bytes_simps putU32_def csvQuote_def)
  have other: "cn_user (gw_connection sample_admin_gateway 1) \<noteq> ''alice''" "newline \<notin> set ''alice''"
    by (simp_all add: sample_admin_conn del: One_nat_def)
  obtain g' where g': "handleSession 1 [?q] (sample_admin_gateway, sample_io) = (sessionReply ?q @ sessionClosing True, g', sample_io)"
    "gw_connection g' 0 = connection_close (gw_connection sample_gateway 0)"
    using exec_kick [OF sample_admin_conn(3,4) other sample_exec_simps short, of sample_io]
    by (auto simp: sample_admin_conn(1,2) sample_gateway_conn simp del: handleSession.simps One_nat_def)
  then show ?thesis by (simp del: handleSession.simps One_nat_def)
qed

end
