(* ===== verification/Cli.thy ===== *)
theory Cli
  imports Flags Postgres Service
begin

text \<open>
  \<^verbatim>\<open>cli/run.go\<close> and \<^verbatim>\<open>cli/http.go\<close>: how a node is put together from its flags, the loop that
  waits for its end, the shutdown, and the answers of the http interface. What the
  operating system and the database do is in \<open>runEnv\<close>: which endpoints can be listened on,
  and the errors of the driver, of the migration and of the registration. The
  listeners' accept loops hand each connection to the handlers of the other theories.
\<close>

section \<open>Starting a node\<close>

record runEnv = cliEnv +
  en_Listen :: "string \<Rightarrow> unit res"
  en_DebugServer :: "string \<Rightarrow> unit res"
  en_ParseConfig :: "string \<Rightarrow> unit res"
  en_openFault :: fault
  en_poolFault :: fault
  en_migrateFault :: fault
  en_database :: database
  en_putFault :: fault
  en_now :: gotime
  en_now' :: gotime

text \<open>The files and parsers of the environment, as \<^verbatim>\<open>cli/flags.go\<close> sees them.\<close>

definition cli_env :: "runEnv \<Rightarrow> cliEnv" where
  "cli_env env = \<lparr>en_ReadFile = en_ReadFile env, en_ParsePrivateKey = en_ParsePrivateKey env,
     en_ParseDuration = en_ParseDuration env, en_format = en_format env\<rparr>"

text \<open>The listeners in the order in which they are opened; all but the ssh listener are optional.\<close>

definition listenFlags :: "string list" where
  "listenFlags = [''listen-http'', ''listen-socks'', ''listen-http-proxy'']"

fun openListeners :: "runEnv \<Rightarrow> command \<Rightarrow> string list \<Rightarrow> string list \<Rightarrow> string list res" where
  "openListeners env cmd opened [] = Inr opened"
| "openListeners env cmd opened (name # names) =
     (if co_String cmd name \<noteq> [] then
        (case en_Listen env (co_String cmd name) of
           Inl e \<Rightarrow> Inl e
         | Inr _ \<Rightarrow> openListeners env cmd (opened @ [name]) names)
      else openListeners env cmd opened names)"

definition listeners :: "runEnv \<Rightarrow> command \<Rightarrow> string list res" where
  "listeners env cmd =
     bind_res (en_Listen env (co_String cmd ''listen-ssh'')) (\<lambda>_.
       openListeners env cmd [''listen-ssh''] listenFlags)"

definition databaseSettings :: "runEnv \<Rightarrow> command \<Rightarrow> signer option \<Rightarrow> dbSettings run" where
  "databaseSettings env cmd nodeSigner =
     (let pgPort = co_Uint cmd ''postgres-port''
      in if pgPort > 65535 then Some (Inl (ErrText ''cli: postgres port is out of range (max 65535)''))
         else
           bind_run (Some (parsePostgresPassword (cli_env env) cmd)) (\<lambda>postgresPassword.
             let settings = \<lparr>ds_Host = co_String cmd ''postgres-host'', ds_Port = ucast pgPort,
                   ds_User = co_String cmd ''postgres-user'', ds_Password = postgresPassword,
                   ds_DatabaseName = co_String cmd ''postgres-dbname'', ds_SSLMode = co_String cmd ''postgres-sslmode'',
                   ds_PeerAddress = [], ds_PeerSigner = None, ds_PeerHostPublicKey = None\<rparr>;
                 peerAddress = co_String cmd ''postgres-peer''
             in if peerAddress = [] then Some (Inr settings)
                else case nodeSigner of
                       None \<Rightarrow> Some (Inl (ErrText ''cli: postgres-peer requires node-certificate''))
                     | Some s \<Rightarrow>
                         (case parsePublicKeys (cli_env env) (co_String cmd ''postgres-peer-host-public-key'') of
                            None \<Rightarrow> None
                          | Some (Inr (pinned # _)) \<Rightarrow>
                              Some (Inr (settings\<lparr>ds_PeerAddress := peerAddress, ds_PeerSigner := nodeSigner,
                                                  ds_PeerHostPublicKey := Some pinned\<rparr>))
                          | Some _ \<Rightarrow> Some (Inl (ErrText ''cli: postgres-peer requires postgres-peer-host-public-key'')))))"

definition postgresAddress :: "command \<Rightarrow> string" where
  "postgresAddress cmd =
     (if co_String cmd ''postgres-peer'' = []
      then co_String cmd ''postgres-host'' @ CHR '':'' # decimal (unat (co_Uint cmd ''postgres-port'')) else [])"

text \<open>The host key without its certificate, for the other nodes to pin.\<close>

definition publishedHostKey :: "signer \<Rightarrow> publicKey" where
  "publishedHostKey hostSigner =
     (case signer_PublicKey hostSigner of CertKey certificate \<Rightarrow> PlainKey (ct_Key certificate) | key \<Rightarrow> key)"

definition gatewaySettings :: "command \<Rightarrow> signer \<Rightarrow> signer option \<Rightarrow> gwSettings" where
  "gatewaySettings cmd hostSigner nodeSigner =
     \<lparr>gs_Version = co_Version cmd, gs_NodeID = co_String cmd ''node-id'', gs_NodeAddress = co_String cmd ''node-address'',
      gs_HostPublicKey = Some (publishedHostKey hostSigner), gs_NodeSigner = nodeSigner,
      gs_PostgresAddress = postgresAddress cmd, gs_PeerDiscoveryInterval = 0,
      gs_RevokeLoginFlags = Some revokeUserFlags\<rparr>"

record runningNode =
  rn_gateway :: gateway
  rn_auth :: authSettings
  rn_pool :: pool
  rn_hostSigner :: signer
  rn_serverVersion :: string
  rn_idleTimeout :: duration
  rn_listeners :: "string list"

text \<open>\<^verbatim>\<open>run\<close> up to the start of the listeners' loops.\<close>

definition startNode :: "runEnv \<Rightarrow> command \<Rightarrow> runningNode run" where
  "startNode env cmd =
     bind_run (Some (if co_String cmd ''listen-debug'' \<noteq> [] then en_DebugServer env (co_String cmd ''listen-debug'')
                     else Inr ())) (\<lambda>_.
     bind_run (parseCaPublicKeys (cli_env env) cmd) (\<lambda>caPublicKeys.
     bind_run (Some (parseHostSigner (cli_env env) cmd)) (\<lambda>hostSigner.
     bind_run (Some (parseIdleTimeout (cli_env env) cmd)) (\<lambda>idleTimeout.
     bind_run (if co_String cmd ''peer-ca-public-key'' \<noteq> []
               then parsePublicKeys (cli_env env) (co_String cmd ''peer-ca-public-key'') else Some (Inr [])) (\<lambda>peerCaPublicKeys.
     bind_run (Some (parseNodeSigner (cli_env env) cmd)) (\<lambda>nodeSigner.
     bind_run (Some (listeners env cmd)) (\<lambda>opened.
     bind_run (databaseSettings env cmd nodeSigner) (\<lambda>settings.
     bind_run (Some (db_Open (en_ParseConfig env) (en_openFault env) (en_poolFault env) settings)) (\<lambda>pool.
     bind_run (Some (case en_migrateFault env of Some e \<Rightarrow> Inl e | None \<Rightarrow> Inr ())) (\<lambda>_.
     bind_run (Some (gateway_Open (en_format env) (en_putFault env) (en_now env) (en_now' env) (en_database env) []
                       (gatewaySettings cmd hostSigner nodeSigner))) (\<lambda>gateway.
       Some (Inr \<lparr>rn_gateway = gateway,
         rn_auth = \<lparr>as_CAPublicKeys = map (keyMarshal (en_format env)) caPublicKeys,
           as_PeerCAPublicKeys = map (keyMarshal (en_format env)) peerCaPublicKeys,
           as_NodeID = co_String cmd ''node-id''\<rparr>,
         rn_pool = pool, rn_hostSigner = hostSigner, rn_serverVersion = co_String cmd ''server-version'',
         rn_idleTimeout = idleTimeout, rn_listeners = opened\<rparr>))))))))))))"

section \<open>Waiting and shutting down\<close>

text \<open>
  What the loop's select picks up. \<open>Meanwhile\<close> is not a case of the select: it is what the
  other goroutines did to the gateway before the next case was ready.
\<close>

datatype runEvent = ReceivedSignal | ListenerStopped string | TenSeconds "nat \<Rightarrow> gotime" | Meanwhile "gateway \<Rightarrow> gateway"

fun waitLoop :: "duration \<Rightarrow> runEvent list \<Rightarrow> gateway \<Rightarrow> gateway option" where
  "waitLoop idleTimeout [] g = None"
| "waitLoop idleTimeout (ReceivedSignal # es) g = Some g"
| "waitLoop idleTimeout (ListenerStopped name # es) g = Some g"
| "waitLoop idleTimeout (TenSeconds clk # es) g = waitLoop idleTimeout es (ScavengeConnections clk idleTimeout g)"
| "waitLoop idleTimeout (Meanwhile f # es) g = waitLoop idleTimeout es (f g)"

text \<open>
  The shutdown closes every listener that was opened and the gateway; the gateway is closed a
  second time when \<^verbatim>\<open>run\<close> returns. The result is the gateway, and the listeners that were
  closed.
\<close>

definition shutdown :: "keyFormat \<Rightarrow> (nat \<Rightarrow> fault) \<Rightarrow> (nat \<Rightarrow> gotime) \<Rightarrow> runningNode \<Rightarrow> gateway \<times> string list" where
  "shutdown fmt faults clk n =
     (gateway_Close fmt (faults 1) (clk 2) (clk 3) (gateway_Close fmt (faults 0) (clk 0) (clk 1) (rn_gateway n)),
      [''listen-ssh''] @ filter (\<lambda>name. name \<in> set (rn_listeners n)) listenFlags)"

section \<open>The http interface\<close>

datatype httpValue = UsersValue "user list \<times> nat" | UserValue "user \<times> connectionStatus list" | PngHandler "byte list"

text \<open>A JSON document that is sent is kept as the value that was encoded.\<close>

datatype httpBody = TextBody string | JsonBody httpValue | BytesBody "byte list"

record response =
  rs_status :: nat
  rs_contentType :: string
  rs_body :: httpBody

definition httpError :: "nat \<Rightarrow> string \<Rightarrow> response" where
  "httpError status message =
     \<lparr>rs_status = status, rs_contentType = ''text/plain; charset=utf-8'', rs_body = TextBody (message @ [newline])\<rparr>"

definition wrapHttpHandler :: "fault \<Rightarrow> httpValue res \<Rightarrow> response" where
  "wrapHttpHandler marshalFault result =
     (case result of
        Inl e \<Rightarrow>
          if e = ErrHttpNotFound then httpError 404 ''404 page not found''
          else httpError 500 ''500 internal server error''
      | Inr (PngHandler screenshot) \<Rightarrow>
          \<lparr>rs_status = 200, rs_contentType = ''image/png'', rs_body = BytesBody screenshot\<rparr>
      | Inr value \<Rightarrow>
          (case marshalFault of
             Some e \<Rightarrow> httpError 500 ''500 internal server error''
           | None \<Rightarrow> \<lparr>rs_status = 200, rs_contentType = ''application/json; charset=utf-8'', rs_body = JsonBody value\<rparr>))"

text \<open>The three routes, with the user id the router found in the path.\<close>

datatype httpRoute = UsersRoute | UserRoute string | ScreenshotRoute string

definition newHttpHandler ::
    "(duration \<Rightarrow> u64) \<Rightarrow> fault \<Rightarrow> fault \<Rightarrow> (nat \<Rightarrow> gotime) \<Rightarrow> gotime \<Rightarrow> httpRoute \<Rightarrow> gateway \<Rightarrow> response" where
  "newHttpHandler seconds fault marshalFault clk now route g =
     wrapHttpHandler marshalFault
       (case route of
          UsersRoute \<Rightarrow> bind_res (gw_ListUsers fault clk g) (\<lambda>users. Inr (UsersValue users))
        | UserRoute userId \<Rightarrow>
            bind_res (gw_GetUser seconds fault clk now userId g) (\<lambda>user.
              case user of None \<Rightarrow> Inl ErrHttpNotFound | Some u \<Rightarrow> Inr (UserValue u))
        | ScreenshotRoute userId \<Rightarrow>
            bind_res (gw_GetUserScreenshot fault userId g) (\<lambda>screenshot.
              if length screenshot = 0 then Inl ErrHttpNotFound else Inr (PngHandler screenshot)))"

section \<open>The configuration of a node\<close>

lemma databaseSettings_returns: "databaseSettings env cmd nodeSigner \<noteq> None"
proof -
  obtain keys where "parsePublicKeys (cli_env env) (co_String cmd ''postgres-peer-host-public-key'') = Some keys"
    using parsePublicKeys_returns by blast
  then show ?thesis
    by (auto simp: databaseSettings_def Let_def bind_run_def split: sum.splits option.splits list.splits)
qed

lemma startNode_returns: "startNode env cmd \<noteq> None"
  unfolding startNode_def parseCaPublicKeys_def
  by (intro bind_run_returns) (simp_all add: parsePublicKeys_returns databaseSettings_returns)

lemma NewCertSigner_Inr:
  "NewCertSigner cert s = Inr s' \<Longrightarrow> sg_certificate s' = Some cert \<and> sg_key s' = sg_key s \<and> ct_Key cert = sg_key s"
  by (auto simp: NewCertSigner_def signer_PublicKey_def split: if_splits option.splits)

lemma parseHostSigner_key:
  assumes "parseHostSigner env cmd = Inr hostSigner"
  obtains raw key where "en_ReadFile env (co_String cmd ''host-private-key'') = Inr raw"
    "en_ParsePrivateKey env raw = Inr key" "sg_key hostSigner = sg_key key"
    "sg_certificate key = None \<Longrightarrow> publishedHostKey hostSigner = PlainKey (sg_key key)"
proof -
  from assms obtain raw key public where *: "en_ReadFile env (co_String cmd ''host-private-key'') = Inr raw"
      "en_ParsePrivateKey env raw = Inr key"
      "(case public of CertKey cert \<Rightarrow> NewCertSigner cert key | PlainKey _ \<Rightarrow> Inr key) = Inr hostSigner"
    by (auto simp: parseHostSigner_def bind_res_Inr)
  show thesis
  proof (cases public)
    case (PlainKey raw')
    with * show thesis by (intro that [OF *(1,2)]) (simp_all add: publishedHostKey_def signer_PublicKey_def)
  next
    case (CertKey cert)
    with *(3) have "NewCertSigner cert key = Inr hostSigner" by simp
    from NewCertSigner_Inr [OF this] show thesis
      by (intro that [OF *(1,2)]) (simp_all add: publishedHostKey_def signer_PublicKey_def)
  qed
qed

lemma parseNodeSigner_key:
  assumes "parseNodeSigner env cmd = Inr (Some nodeSigner)"
  obtains raw key cert where "en_ReadFile env (co_String cmd ''host-private-key'') = Inr raw"
    "en_ParsePrivateKey env raw = Inr key" "sg_certificate nodeSigner = Some cert" "ct_Key cert = sg_key key"
proof -
  from assms obtain raw key public where *: "en_ReadFile env (co_String cmd ''host-private-key'') = Inr raw"
      "en_ParsePrivateKey env raw = Inr key"
      "(case public of PlainKey _ \<Rightarrow> Inl (ErrText ''cli: node certificate file does not contain a certificate'')
        | CertKey cert \<Rightarrow> bind_res (NewCertSigner cert key) (\<lambda>s. Inr (Some s))) = Inr (Some nodeSigner)"
    by (auto simp: parseNodeSigner_def bind_res_Inr Let_def split: if_splits)
  then obtain cert where "NewCertSigner cert key = Inr nodeSigner"
    by (cases public) (auto simp: bind_res_Inr)
  from NewCertSigner_Inr [OF this] show thesis by (intro that [OF *(1,2), of cert]) simp_all
qed

lemma gateway_Open_settings:
  assumes "gateway_Open fmt f now now' db flags settings = Inr g"
  shows "gw_settings g = settings"
proof (cases "gs_NodeID settings = []")
  case True
  with assms have "g = newGateway db flags settings" by (simp add: gateway_Open_def)
  then show ?thesis by (simp add: newGateway_def)
next
  case False
  with assms have "g = snd (registerNode fmt f now now' True (newGateway db flags settings))"
    by (simp add: gateway_Open_def split: prod.splits sum.splits)
  then show ?thesis by (simp add: registerNode_frame newGateway_def)
qed

lemma databaseSettings_Inr:
  assumes "databaseSettings env cmd nodeSigner = Some (Inr settings)"
  shows "unat (co_Uint cmd ''postgres-port'') \<le> 65535"
    and "co_String cmd ''postgres-peer'' = [] \<Longrightarrow> ds_PeerAddress settings = []"
    and "co_String cmd ''postgres-peer'' \<noteq> [] \<Longrightarrow>
      ds_PeerAddress settings = co_String cmd ''postgres-peer'' \<and> ds_PeerSigner settings = nodeSigner \<and> nodeSigner \<noteq> None
      \<and> (\<exists>pinned more. ds_PeerHostPublicKey settings = Some pinned
            \<and> parsePublicKeys (cli_env env) (co_String cmd ''postgres-peer-host-public-key'') = Some (Inr (pinned # more)))"
  using assms
  by (auto simp: databaseSettings_def Let_def bind_run_Inr not_less word_le_nat_alt
      split: if_splits option.splits sum.splits list.splits)

definition node_consistent :: "runEnv \<Rightarrow> command \<Rightarrow> runningNode \<Rightarrow> bool" where
  "node_consistent env cmd n \<longleftrightarrow>
     (let s = gw_settings (rn_gateway n); peer = co_String cmd ''postgres-peer''
      in (if peer = []
          then pl_dialector (rn_pool n) = DirectDialector
            \<and> gs_PostgresAddress s = co_String cmd ''postgres-host'' @ CHR '':'' # decimal (unat (co_Uint cmd ''postgres-port''))
            \<and> unat (co_Uint cmd ''postgres-port'') \<le> 65535
          else gs_PostgresAddress s = []
            \<and> (\<exists>signer pinned more. gs_NodeSigner s = Some signer
                  \<and> pl_dialector (rn_pool n) = PeerDialector peer (Some signer) (Some pinned)
                  \<and> parsePublicKeys (cli_env env) (co_String cmd ''postgres-peer-host-public-key'') = Some (Inr (pinned # more))))
         \<and> gs_HostPublicKey s = Some (PlainKey (sg_key (rn_hostSigner n)))
         \<and> (\<forall>signer. gs_NodeSigner s = Some signer \<longrightarrow>
              (\<exists>cert. sg_certificate signer = Some cert \<and> ct_Key cert = sg_key (rn_hostSigner n))))"

lemma startNode_parts:
  assumes "startNode env cmd = Some (Inr n)"
  obtains nodeSigner settings where
    "parseHostSigner (cli_env env) cmd = Inr (rn_hostSigner n)" "parseNodeSigner (cli_env env) cmd = Inr nodeSigner"
    "databaseSettings env cmd nodeSigner = Some (Inr settings)"
    "db_Open (en_ParseConfig env) (en_openFault env) (en_poolFault env) settings = Inr (rn_pool n)"
    "gw_settings (rn_gateway n) = gatewaySettings cmd (rn_hostSigner n) nodeSigner"
    "listeners env cmd = Inr (rn_listeners n)"
  using assms by (auto simp: startNode_def bind_run_Inr dest: gateway_Open_settings)

lemma db_Open_dialector:
  "db_Open parseConfig f f' settings = Inr p \<Longrightarrow> pl_dialector p =
     (if ds_PeerAddress settings = [] then DirectDialector
      else PeerDialector (ds_PeerAddress settings) (ds_PeerSigner settings) (ds_PeerHostPublicKey settings))"
  by (auto simp: db_Open_def bind_res_Inr split: if_splits option.splits)

text \<open>C13: A node that starts is configured consistently. The start-up always ends. A node with its own
  database bridges exactly that database to its peers; a node that reaches its database
  through a peer bridges none, so bridges never form a chain, and it dials that peer with
  its node certificate and the first key of the pinned key file. The host key it publishes
  is the plain public key of its private key, also when the host presents a certificate,
  and the certificate it shows to other nodes belongs to that same key.\<close>

theorem node_configuration:
  assumes "\<And>raw s. en_ParsePrivateKey env raw = Inr s \<Longrightarrow> sg_certificate s = None"
  shows "\<exists>r. startNode env cmd = Some r \<and> (\<forall>n. r = Inr n \<longrightarrow> node_consistent env cmd n)"
proof -
  have "node_consistent env cmd n" if n: "startNode env cmd = Some (Inr n)" for n
  proof -
    from n obtain nodeSigner settings where
        host: "parseHostSigner (cli_env env) cmd = Inr (rn_hostSigner n)"
        and node: "parseNodeSigner (cli_env env) cmd = Inr nodeSigner"
        and db: "databaseSettings env cmd nodeSigner = Some (Inr settings)"
        and pool: "db_Open (en_ParseConfig env) (en_openFault env) (en_poolFault env) settings = Inr (rn_pool n)"
        and gw: "gw_settings (rn_gateway n) = gatewaySettings cmd (rn_hostSigner n) nodeSigner"
      by (rule startNode_parts)
    obtain raw key where key: "en_ReadFile env (co_String cmd ''host-private-key'') = Inr raw"
        "en_ParsePrivateKey env raw = Inr key" "sg_key (rn_hostSigner n) = sg_key key"
        "publishedHostKey (rn_hostSigner n) = PlainKey (sg_key key)"
    proof (rule parseHostSigner_key [OF host])
      fix raw key
      assume content: "en_ReadFile (cli_env env) (co_String cmd ''host-private-key'') = Inr raw"
        and parsed: "en_ParsePrivateKey (cli_env env) raw = Inr key" and same: "sg_key (rn_hostSigner n) = sg_key key"
        and published: "sg_certificate key = None \<Longrightarrow> publishedHostKey (rn_hostSigner n) = PlainKey (sg_key key)"
      have "sg_certificate key = None" using assms parsed by (simp add: cli_env_def)
      with content parsed same published show thesis by (intro that [of raw key]) (simp_all add: cli_env_def)
    qed
    have cert: "\<exists>cert. sg_certificate signer = Some cert \<and> ct_Key cert = sg_key (rn_hostSigner n)"
      if "nodeSigner = Some signer" for signer
    proof (rule parseNodeSigner_key [OF node [unfolded that]])
      fix raw' key' cert
      assume "en_ReadFile (cli_env env) (co_String cmd ''host-private-key'') = Inr raw'"
        "en_ParsePrivateKey (cli_env env) raw' = Inr key'" "sg_certificate signer = Some cert" "ct_Key cert = sg_key key'"
      then show ?thesis using key(1-3) by (simp add: cli_env_def)
    qed
    show ?thesis
      using db_Open_dialector [OF pool] databaseSettings_Inr [OF db] key(3,4) cert
      by (auto simp: node_consistent_def gw gatewaySettings_def postgresAddress_def Let_def)
  qed
  then show ?thesis using startNode_returns [of env cmd] by auto
qed

definition sample_cli_command :: command where
  "sample_cli_command = \<lparr>co_String = (\<lambda>name. nullable [] (map_of
      [(''ca-public-key'', ''ca.pub''), (''postgres-host'', ''db''), (''node-id'', ''node-a''), (''listen-ssh'', '':22''),
       (''listen-http'', '':80'')] name)), co_Uint = (\<lambda>_. 5432), co_Version = ''1''\<rparr>"

definition sample_runEnv :: runEnv where
  "sample_runEnv = cliEnv.extend sample_cliEnv
     \<lparr>en_Listen = (\<lambda>_. Inr ()), en_DebugServer = (\<lambda>_. Inr ()), en_ParseConfig = (\<lambda>_. Inr ()), en_openFault = None,
      en_poolFault = None, en_migrateFault = None, en_database = empty_database, en_putFault = None, en_now = 1, en_now' = 2\<rparr>"

lemma sample_run_env:
  "cli_env sample_runEnv = sample_cliEnv" "en_Listen sample_runEnv path = Inr ()" "en_openFault sample_runEnv = None"
  "en_poolFault sample_runEnv = None" "en_migrateFault sample_runEnv = None" "en_putFault sample_runEnv = None"
  "en_ParseDuration sample_cliEnv path = Inr 600"
  by (simp_all add: cli_env_def sample_runEnv_def sample_cliEnv_def cliEnv.defs)

lemma sample_flags:
  "co_String sample_cli_command name = nullable [] (map_of
      [(''ca-public-key'', ''ca.pub''), (''postgres-host'', ''db''), (''node-id'', ''node-a''), (''listen-ssh'', '':22''),
       (''listen-http'', '':80'')] name)" "co_Uint sample_cli_command name = 5432"
  by (simp_all add: sample_cli_command_def)

lemma sample_host: "parseHostSigner sample_cliEnv sample_cli_command = Inr \<lparr>sg_key = [1], sg_certificate = None\<rparr>"
  using ParseAuthorizedKey_marshalled [OF sample_key_ok [of "[1, 2]"]]
  by (simp add: parseHostSigner_def sample_cliEnv_def sample_cli_command_def)

lemma sample_ca: "parsePublicKeys sample_cliEnv ''ca.pub'' = Some (Inr [PlainKey [1, 2]])"
  using ParseAuthorizedKey_marshalled [OF sample_key_ok [of "[1, 2]"], of "[]"]
  by (simp add: parsePublicKeys_def sample_cliEnv_def publicKeysLoop.simps MarshalAuthorizedKey_def)

lemma sample_node_starts: "\<exists>n. startNode sample_runEnv sample_cli_command = Some (Inr n)"
  using sample_host sample_ca
  by (simp add: startNode_def sample_run_env sample_flags listenFlags_def Let_def parseCaPublicKeys_def parseIdleTimeout_def parseNodeSigner_def listeners_def
      databaseSettings_def parsePostgresPassword_def db_Open_def gateway_Open_def registerNode_def db_PutNode_def)

theorem node_configuration_witness:
  "\<exists>n. startNode sample_runEnv sample_cli_command = Some (Inr n)
     \<and> gs_PostgresAddress (gw_settings (rn_gateway n)) = ''db:'' @ decimal 5432
     \<and> gs_HostPublicKey (gw_settings (rn_gateway n)) = Some (PlainKey (sg_key (rn_hostSigner n)))"
proof -
  obtain n where n: "startNode sample_runEnv sample_cli_command = Some (Inr n)" using sample_node_starts by blast
  have "en_ParsePrivateKey sample_runEnv raw = Inr s \<Longrightarrow> sg_certificate s = None" for raw s
    by (auto simp: sample_runEnv_def sample_cliEnv_def cliEnv.defs)
  then have "node_consistent sample_runEnv sample_cli_command n"
    using node_configuration [of sample_runEnv sample_cli_command] n by auto
  with n show ?thesis by (auto simp: node_consistent_def sample_cli_command_def Let_def)
qed

section \<open>The end of a node\<close>

lemma openListeners_Inr:
  "openListeners env cmd opened names = Inr opened' \<Longrightarrow> opened' = opened @ filter (\<lambda>name. co_String cmd name \<noteq> []) names"
  by (induction env cmd opened names rule: openListeners.induct) (auto split: if_splits sum.splits)

lemma startNode_listeners:
  assumes "startNode env cmd = Some (Inr n)"
  shows "rn_listeners n = ''listen-ssh'' # filter (\<lambda>name. co_String cmd name \<noteq> []) listenFlags"
proof -
  obtain nodeSigner settings where "listeners env cmd = Inr (rn_listeners n)"
    using assms by (rule startNode_parts)
  then show ?thesis by (auto simp: listeners_def bind_res_Inr dest: openListeners_Inr)
qed

lemma waitLoop_ends:
  "waitLoop t es g \<noteq> None \<longleftrightarrow> (\<exists>e \<in> set es. e = ReceivedSignal \<or> (\<exists>name. e = ListenerStopped name))"
  by (induction t es g rule: waitLoop.induct) auto

text \<open>C26: A node runs until a signal arrives or a listener stops. Its shutdown then closes exactly the
  listeners that were opened, every connection and every peer the gateway had at that
  time; and the database records it as offline unless both of its two attempts to write
  that fail.\<close>

theorem orderly_shutdown:
  assumes "startNode env cmd = Some (Inr n)" and "gs_NodeID (gw_settings g) \<noteq> []"
    and "waitLoop (rn_idleTimeout n) events (rn_gateway n) = Some g"
    and "shutdown fmt faults clk (n\<lparr>rn_gateway := g\<rparr>) = (g', closed)"
  shows "(\<exists>e \<in> set events. e = ReceivedSignal \<or> (\<exists>name. e = ListenerStopped name))
    \<and> closed = rn_listeners n
    \<and> (\<forall>r \<in> set (gw_connectionsList g). cn_done (gw_connection g' r))
    \<and> (\<forall>p \<in> snd ` set (gw_peers g). pe_closed (gw_peer g' p))
    \<and> (faults 0 = None \<or> faults 1 = None \<longrightarrow> marked_offline g')"
proof -
  have opened: "rn_listeners n = ''listen-ssh'' # filter (\<lambda>name. co_String cmd name \<noteq> []) listenFlags"
    using assms(1) by (rule startNode_listeners)
  have "''listen-ssh'' \<notin> set listenFlags" by (simp add: listenFlags_def)
  then have "filter (\<lambda>name. name \<in> set (rn_listeners n)) listenFlags = filter (\<lambda>name. co_String cmd name \<noteq> []) listenFlags"
    unfolding opened by (intro filter_cong) auto
  moreover have "\<exists>e \<in> set events. e = ReceivedSignal \<or> (\<exists>name. e = ListenerStopped name)"
    using waitLoop_ends [of "rn_idleTimeout n" events "rn_gateway n"] assms(3) by simp
  moreover have "marked_offline g'" if "faults 0 = None \<or> faults 1 = None"
  proof -
    define g1 where "g1 = gateway_Close fmt (faults 0) (clk 0) (clk 1) g"
    have node: "gs_NodeID (gw_settings g1) \<noteq> []" using assms(2) by (simp add: g1_def gateway_Close_objects)
    have g': "g' = gateway_Close fmt (faults 1) (clk 2) (clk 3) g1" using assms(4) by (simp add: shutdown_def g1_def)
    show ?thesis
    proof (cases "faults 1")
      case None
      then show ?thesis using gateway_Close_database(1) [OF node] by (simp add: g')
    next
      case (Some e)
      with that have "marked_offline g1" using gateway_Close_database(1) [OF assms(2)] by (simp add: g1_def)
      then show ?thesis using gateway_Close_database(2) [OF node] by (simp add: g')
    qed
  qed
  moreover have "cn_done (gw_connection g' r)" if "r \<in> set (gw_connectionsList g)" for r
    using that assms(4) by (auto simp: shutdown_def gateway_Close_objects)
  moreover have "pe_closed (gw_peer g' p)" if "p \<in> snd ` set (gw_peers g)" for p
  proof -
    have "g' = fst (shutdown fmt faults clk (n\<lparr>rn_gateway := g\<rparr>))" using assms(4) by simp
    then have "pe_closed (gw_peer g' p) \<longleftrightarrow> p \<in> snd ` set (gw_peers g) \<or> pe_closed (gw_peer g p)"
      by (simp add: shutdown_def gateway_Close_objects)
    with that show ?thesis by blast
  qed
  ultimately show ?thesis using assms(4) by (auto simp: shutdown_def opened)
qed

theorem orderly_shutdown_witness:
  "\<exists>n. startNode sample_runEnv sample_cli_command = Some (Inr n)
     \<and> marked_offline (fst (shutdown sample_keyFormat (\<lambda>_. None) (\<lambda>_. 5) n))
     \<and> snd (shutdown sample_keyFormat (\<lambda>_. None) (\<lambda>_. 5) n) = rn_listeners n"
proof -
  obtain n where n: "startNode sample_runEnv sample_cli_command = Some (Inr n)" using sample_node_starts by blast
  obtain nodeSigner settings where
      "gw_settings (rn_gateway n) = gatewaySettings sample_cli_command (rn_hostSigner n) nodeSigner"
    using n by (rule startNode_parts)
  then have "gs_NodeID (gw_settings (rn_gateway n)) \<noteq> []" by (simp add: gatewaySettings_def sample_flags)
  from orderly_shutdown [OF n this, of "[ReceivedSignal]" sample_keyFormat "\<lambda>_. None" "\<lambda>_. 5"] n show ?thesis
    by (cases "shutdown sample_keyFormat (\<lambda>_. None) (\<lambda>_. 5) n") simp
qed

section \<open>Screenshots\<close>

text \<open>A screenshot that a user's session reports is served, byte for byte and as an image, under
  that user's name and no other; an empty one is answered as not found, and what is served
  for the other users does not change.\<close>

theorem screenshot_served:
  assumes "service_reportScreenshot False env r (g, io) = (Inr (), g', io')" and "sv_stdin env = Inr screenshot"
  shows "newHttpHandler seconds None marshalFault clk now (ScreenshotRoute userId) g' =
    (if userId \<noteq> cn_user (gw_connection g r)
     then newHttpHandler seconds None marshalFault clk now (ScreenshotRoute userId) g
     else if screenshot = [] then httpError 404 ''404 page not found''
     else \<lparr>rs_status = 200, rs_contentType = ''image/png'', rs_body = BytesBody screenshot\<rparr>)"
  using assms
  by (auto simp: service_reportScreenshot_def conn_reportScreenshot_def db_UpdateUserScreenshot_def updateUserColumn_def
      newHttpHandler_def gw_GetUserScreenshot_def db_GetUserScreenshot_def wrapHttpHandler_def gomap_simps
      split: option.splits prod.splits)

theorem screenshot_served_witness:
  "\<exists>g'. service_reportScreenshot False ((sample_env None)\<lparr>sv_stdin := Inr [137, 80]\<rparr>) 0
        (sample_gateway\<lparr>gw_database := empty_database\<lparr>db_users := [(''alice'', save_user zero_user)]\<rparr>\<rparr>, sample_io) =
      (Inr (), g', sample_io)
     \<and> newHttpHandler (\<lambda>_. 0) None None (\<lambda>_. 1) 1 (ScreenshotRoute ''alice'') g' =
         \<lparr>rs_status = 200, rs_contentType = ''image/png'', rs_body = BytesBody [137, 80]\<rparr>"
proof -
  let ?env = "(sample_env None)\<lparr>sv_stdin := Inr [137, 80]\<rparr>"
  let ?g = "sample_gateway\<lparr>gw_database := empty_database\<lparr>db_users := [(''alice'', save_user zero_user)]\<rparr>\<rparr>"
  have user: "cn_user (gw_connection ?g 0) = ''alice''" using sample_gateway_conn(1) by simp
  then obtain g' where run: "service_reportScreenshot False ?env 0 (?g, sample_io) = (Inr (), g', sample_io)"
    by (simp add: service_reportScreenshot_def conn_reportScreenshot_def db_UpdateUserScreenshot_def
        updateUserColumn_def sample_env_def)
  with screenshot_served [OF run, of "[137, 80]" "\<lambda>_. 0" None "\<lambda>_. 1" 1 "''alice''"] user show ?thesis by auto
qed

end
