(* ===== verification/Socks.thy ===== *)
theory Socks
  imports GoStrings
begin

text \<open>
  \<^verbatim>\<open>util/socks/socks.go\<close>: the server's side of SOCKS version 5. A socket is the bytes the
  client has still to send, the error that follows them, and the writes so far;
  \<open>sk_fault i\<close> is the answer to the i-th write.
\<close>

record socket =
  sk_in :: "byte list"
  sk_end :: goerror
  sk_out :: "byte list list"
  sk_writes :: nat
  sk_fault :: "nat \<Rightarrow> goerror option"
  sk_closed :: bool

definition socksVersion :: byte where "socksVersion = 5"
definition noAuthRequired :: byte where "noAuthRequired = 0"
definition noAcceptableMethod :: byte where "noAcceptableMethod = 255"
definition connectCommand :: byte where "connectCommand = 1"
definition ipv4AddressType :: byte where "ipv4AddressType = 1"
definition domainNameAddressType :: byte where "domainNameAddressType = 3"
definition ipv6AddressType :: byte where "ipv6AddressType = 4"

datatype Reply =
    Succeeded | ServerFailure | NotAllowed | NetworkUnreachable | HostUnreachable | ConnectionRefused
  | TTLExpired | CommandNotSupported | AddressTypeNotSupported

fun replyCode :: "Reply \<Rightarrow> byte" where
  "replyCode Succeeded = 0"
| "replyCode ServerFailure = 1"
| "replyCode NotAllowed = 2"
| "replyCode NetworkUnreachable = 3"
| "replyCode HostUnreachable = 4"
| "replyCode ConnectionRefused = 5"
| "replyCode TTLExpired = 6"
| "replyCode CommandNotSupported = 7"
| "replyCode AddressTypeNotSupported = 8"

lemmas socks_consts = socksVersion_def noAuthRequired_def noAcceptableMethod_def connectCommand_def
  ipv4AddressType_def domainNameAddressType_def ipv6AddressType_def

section \<open>Reading and writing a socket\<close>

text \<open>\<^verbatim>\<open>io.ReadFull\<close>: an end of the input in the middle is unexpected; what was read is consumed.\<close>

definition readFull :: "nat \<Rightarrow> socket \<Rightarrow> byte list res \<times> socket" where
  "readFull n s =
     (if n \<le> length (sk_in s) then (Inr (take n (sk_in s)), s\<lparr>sk_in := drop n (sk_in s)\<rparr>)
      else (Inl (if sk_end s = ErrEOF \<and> sk_in s \<noteq> [] then ErrUnexpectedEOF else sk_end s), s\<lparr>sk_in := []\<rparr>))"

definition socketWrite :: "byte list \<Rightarrow> socket \<Rightarrow> unit res \<times> socket" where
  "socketWrite data s =
     (case sk_fault s (sk_writes s) of
        Some e \<Rightarrow> (Inl e, s\<lparr>sk_writes := Suc (sk_writes s)\<rparr>)
      | None \<Rightarrow> (Inr (), s\<lparr>sk_writes := Suc (sk_writes s), sk_out := sk_out s @ [data]\<rparr>))"

section \<open>The textual form of an address\<close>

text \<open>\<^verbatim>\<open>net.IP.String\<close> on four and on sixteen bytes.\<close>

fun hexNat :: "nat \<Rightarrow> string" where
  "hexNat n =
     (let d = n mod 16; c = (if d < 10 then char_of (48 + d) else char_of (87 + d))
      in if n < 16 then [c] else hexNat (n div 16) @ [c])"

declare hexNat.simps [simp del]

definition ipv4String :: "byte list \<Rightarrow> string" where
  "ipv4String bs = joinWith ''.'' (map (\<lambda>b. decimal (unat b)) bs)"

fun groups16 :: "byte list \<Rightarrow> u16 list" where
  "groups16 (a # b # bs) = getU16 a b # groups16 bs"
| "groups16 _ = []"

text \<open>The first of the longest runs of at least two zero groups, from its start to its end.\<close>

fun zeroRun :: "u16 list \<Rightarrow> nat \<Rightarrow> nat \<times> nat \<Rightarrow> nat \<times> nat" where
  "zeroRun [] i best = best"
| "zeroRun (x # xs) i best =
     (let l = length (takeWhile (\<lambda>v. v = 0) (x # xs))
      in zeroRun xs (Suc i) (if l \<ge> 2 \<and> l > snd best - fst best then (i, i + l) else best))"

definition ipv6String :: "byte list \<Rightarrow> string" where
  "ipv6String bs =
     (let gs = groups16 bs; hex = map (\<lambda>v. hexNat (unat v)) gs; (a, b) = zeroRun gs 0 (0, 0)
      in if a = b then joinWith '':'' hex
         else joinWith '':'' (take a hex) @ ''::'' @ joinWith '':'' (drop b hex))"

definition ipString :: "byte list \<Rightarrow> string" where
  "ipString bs =
     (if bs = [] then ''<nil>''
      else if length bs = 4 then ipv4String bs
      else if length bs = 16 \<and> take 12 bs = replicate 10 0 @ [255, 255] then ipv4String (drop 12 bs)
      else if length bs = 16 then ipv6String bs
      else ''?'' @ concat (map (\<lambda>b. hexNat (unat b div 16) @ hexNat (unat b mod 16)) bs))"

section \<open>The protocol\<close>

definition Authenticate :: "socket \<Rightarrow> unit res \<times> socket" where
  "Authenticate s =
     (case readFull 2 s of
        (Inl e, s1) \<Rightarrow> (Inl e, s1)
      | (Inr header, s1) \<Rightarrow>
          if header ! 0 \<noteq> socksVersion then (Inl ErrUnsupportedVersion, s1)
          else (case readFull (unat (header ! 1)) s1 of
                  (Inl e, s2) \<Rightarrow> (Inl e, s2)
                | (Inr methods, s2) \<Rightarrow>
                    if noAuthRequired \<in> set methods then socketWrite [socksVersion, noAuthRequired] s2
                    else (Inl ErrUnsupportedAuth, snd (socketWrite [socksVersion, noAcceptableMethod] s2))))"

definition SendReply :: "Reply \<Rightarrow> socket \<Rightarrow> unit res \<times> socket" where
  "SendReply reply s = socketWrite [socksVersion, replyCode reply, 0, ipv4AddressType, 0, 0, 0, 0, 0, 0] s"

text \<open>The address of a request by its type.\<close>

definition readAddress :: "byte \<Rightarrow> socket \<Rightarrow> string res \<times> socket" where
  "readAddress ty s =
     (if ty = domainNameAddressType then
        (case readFull 1 s of
           (Inl e, s1) \<Rightarrow> (Inl e, s1)
         | (Inr len, s1) \<Rightarrow> (case readFull (unat (len ! 0)) s1 of
                               (Inl e, s2) \<Rightarrow> (Inl e, s2)
                             | (Inr addressBytes, s2) \<Rightarrow> (Inr (string_of addressBytes), s2)))
      else if ty = ipv4AddressType then
        (case readFull 4 s of (Inl e, s1) \<Rightarrow> (Inl e, s1) | (Inr addressBytes, s1) \<Rightarrow> (Inr (ipString addressBytes), s1))
      else if ty = ipv6AddressType then
        (case readFull 16 s of (Inl e, s1) \<Rightarrow> (Inl e, s1) | (Inr addressBytes, s1) \<Rightarrow> (Inr (ipString addressBytes), s1))
      else (Inl ErrUnsupportedAddress, s))"

definition ParseRequest :: "socket \<Rightarrow> (string \<times> u16) res \<times> socket" where
  "ParseRequest s =
     (case readFull 4 s of
        (Inl e, s1) \<Rightarrow> (Inl e, s1)
      | (Inr header, s1) \<Rightarrow>
          if header ! 0 \<noteq> socksVersion then (Inl ErrUnsupportedVersion, s1)
          else (case readAddress (header ! 3) s1 of
                  (Inl e, s2) \<Rightarrow> (Inl e, s2)
                | (Inr address, s2) \<Rightarrow>
                    (case readFull 2 s2 of
                       (Inl e, s3) \<Rightarrow> (Inl e, s3)
                     | (Inr portBytes, s3) \<Rightarrow>
                         if header ! 1 \<noteq> connectCommand
                         then (Inl ErrUnsupportedCommand, snd (SendReply CommandNotSupported s3))
                         else (Inr (address, getU16 (portBytes ! 0) (portBytes ! 1)), s3))))"

section \<open>Requests are read back\<close>

text \<open>What a client sends: the greeting with its methods, and a request with its address.\<close>

datatype socksAddress = DomainName string | IPv4 "byte list" | IPv6 "byte list"

fun addressOk :: "socksAddress \<Rightarrow> bool" where
  "addressOk (DomainName d) = (length d < 256)"
| "addressOk (IPv4 bs) = (length bs = 4)"
| "addressOk (IPv6 bs) = (length bs = 16)"

fun addressText :: "socksAddress \<Rightarrow> string" where
  "addressText (DomainName d) = d"
| "addressText (IPv4 bs) = ipString bs"
| "addressText (IPv6 bs) = ipString bs"

fun encodeAddress :: "socksAddress \<Rightarrow> byte list" where
  "encodeAddress (DomainName d) = 3 # of_nat (length d) # bytes_of d"
| "encodeAddress (IPv4 bs) = 1 # bs"
| "encodeAddress (IPv6 bs) = 4 # bs"

definition encodeRequest :: "byte \<Rightarrow> byte \<Rightarrow> socksAddress \<Rightarrow> u16 \<Rightarrow> byte list" where
  "encodeRequest command reserved address port = [5, command, reserved] @ encodeAddress address @ putU16 port"

lemma readFull_append: "sk_in s = xs @ rest \<Longrightarrow> length xs = n \<Longrightarrow> readFull n s = (Inr xs, s\<lparr>sk_in := rest\<rparr>)"
  by (simp add: readFull_def)

lemma readFull_Inr: "readFull n s = (Inr xs, s') \<longleftrightarrow> (\<exists>rest. sk_in s = xs @ rest \<and> length xs = n \<and> s' = s\<lparr>sk_in := rest\<rparr>)"
  by (auto simp: readFull_def) (metis append_take_drop_id)

lemma readAddress_encoded:
  assumes "addressOk a" and "ty # bs = encodeAddress a" and "sk_in s = bs @ rest"
  shows "readAddress ty s = (Inr (addressText a), s\<lparr>sk_in := rest\<rparr>)"
proof (cases a)
  case (DomainName d)
  with assms have "unat (of_nat (length d) :: byte) = length d" by (simp add: unat_of_nat)
  then show ?thesis
    using assms DomainName readFull_append [of s "[of_nat (length d)]" "bytes_of d @ rest" 1]
      readFull_append [of "s\<lparr>sk_in := bytes_of d @ rest\<rparr>" "bytes_of d" rest]
    by (simp add: readAddress_def socks_consts bytes_simps)
qed (use assms in \<open>simp_all add: readAddress_def socks_consts readFull_append\<close>)

lemma readAddress_Inr:
  assumes "readAddress ty s = (Inr host, s')"
  shows "\<exists>a bs rest. addressOk a \<and> ty # bs = encodeAddress a \<and> addressText a = host
    \<and> sk_in s = bs @ rest \<and> s' = s\<lparr>sk_in := rest\<rparr>"
proof -
  consider "ty = 3" | "ty = 1" | "ty = 4" using assms by (auto simp: readAddress_def socks_consts split: if_splits)
  then show ?thesis
  proof cases
    case 1
    then obtain l s1 bs where l: "readFull 1 s = (Inr l, s1)" "readFull (unat (l ! 0)) s1 = (Inr bs, s')" "host = string_of bs"
      using assms by (auto simp: readAddress_def socks_consts split: prod.splits sum.splits)
    then have "unat (hd l) = length bs" "length bs < 256"
      using unsigned_less [of "hd l", where 'a = nat] by (auto simp: readFull_Inr length_Suc_conv)
    moreover from this(1) have "(of_nat (length bs) :: byte) = hd l" by (metis of_nat_unat ucast_id)
    ultimately show ?thesis
      using 1 l by (intro exI [of _ "DomainName (string_of bs)"])
        (auto simp: readFull_Inr length_Suc_conv bytes_simps)
  next
    case 2
    then show ?thesis
      using assms by (auto simp: readAddress_def socks_consts readFull_Inr split: prod.splits sum.splits intro!: exI [of _ "IPv4 _"])
  next
    case 3
    then show ?thesis
      using assms by (auto simp: readAddress_def socks_consts readFull_Inr split: prod.splits sum.splits intro!: exI [of _ "IPv6 _"])
  qed
qed

lemma getU16_split: "\<exists>port. [a, b] = putU16 port \<and> getU16 a b = port"
proof -
  have "ucast (drop_bit 8 (getU16 a b)) = a" "ucast (getU16 a b) = b"
    by (rule bit_word_eqI; force simp: getU16_def bit_simps bit_byte_beyond)+
  then show ?thesis by (intro exI [of _ "getU16 a b"]) (simp add: putU16_def)
qed

lemma getU16_putU16_nth: "getU16 (putU16 p ! 0) (putU16 p ! 1) = p"
  by (simp add: putU16_def getU16_put)

lemma ParseRequest_encoded:
  assumes "addressOk a" and "sk_in s = encodeRequest 1 reserved a port @ rest"
  shows "ParseRequest s = (Inr (addressText a, port), s\<lparr>sk_in := rest\<rparr>)"
proof -
  obtain ty bs where ty: "encodeAddress a = ty # bs" by (cases a) auto
  let ?s1 = "s\<lparr>sk_in := bs @ putU16 port @ rest\<rparr>"
  have "readFull 4 s = (Inr [5, 1, reserved, ty], ?s1)"
    using assms(2) ty by (intro readFull_append) (simp_all add: encodeRequest_def)
  moreover have "readAddress ty ?s1 = (Inr (addressText a), ?s1\<lparr>sk_in := putU16 port @ rest\<rparr>)"
    using readAddress_encoded [OF assms(1) ty [symmetric], of ?s1] by simp
  moreover have "readFull 2 (s\<lparr>sk_in := putU16 port @ rest\<rparr>) = (Inr (putU16 port), s\<lparr>sk_in := rest\<rparr>)"
    using readFull_append [of "s\<lparr>sk_in := putU16 port @ rest\<rparr>" "putU16 port" rest 2] by (simp add: putU16_def)
  ultimately show ?thesis
    by (simp add: ParseRequest_def socks_consts getU16_putU16_nth [simplified])
qed

text \<open>C36: A request is accepted exactly when it is the encoding of a CONNECT request, with any
  reserved byte; the host and the port are those that were encoded, exactly its bytes have
  been consumed, and nothing has been written.\<close>

theorem socks_request_iff:
  "ParseRequest s = (Inr (host, port), s') \<longleftrightarrow>
     (\<exists>reserved address rest. addressOk address \<and> addressText address = host
        \<and> sk_in s = encodeRequest 1 reserved address port @ rest \<and> s' = s\<lparr>sk_in := rest\<rparr>)" (is "?L \<longleftrightarrow> ?R")
proof
  assume ?R
  then obtain reserved a rest where a: "addressOk a" "addressText a = host"
    "sk_in s = encodeRequest 1 reserved a port @ rest" "s' = s\<lparr>sk_in := rest\<rparr>" by blast
  show ?L using ParseRequest_encoded [OF a(1,3)] a(2,4) by simp
next
  assume ?L
  then obtain h s1 s2 pb where h: "readFull 4 s = (Inr h, s1)" "h ! 0 = 5" "h ! 1 = 1"
    "readAddress (h ! 3) s1 = (Inr host, s2)" "readFull 2 s2 = (Inr pb, s')" "port = getU16 (pb ! 0) (pb ! 1)"
    by (auto simp: ParseRequest_def socks_consts split: prod.splits sum.splits if_splits)
  from h(1-3) obtain reserved ty rest1 where h1: "h = [5, 1, reserved, ty]" "sk_in s = h @ rest1" "s1 = s\<lparr>sk_in := rest1\<rparr>"
    by (auto simp: readFull_Inr length_Suc_conv numeral_eq_Suc)
  with readAddress_Inr [OF h(4)] obtain a bs rest2 where a: "addressOk a" "ty # bs = encodeAddress a" "addressText a = host"
    "rest1 = bs @ rest2" "s2 = s\<lparr>sk_in := rest2\<rparr>" by auto
  from h(5,6) a(5) obtain rest where r: "rest2 = putU16 port @ rest" "s' = s\<lparr>sk_in := rest\<rparr>"
    using getU16_split by (fastforce simp: readFull_Inr length_Suc_conv numeral_eq_Suc)
  show ?R
    by (rule exI [of _ reserved], rule exI [of _ a], rule exI [of _ rest])
       (use h1 a r in \<open>simp add: encodeRequest_def flip: a(2)\<close>)
qed

text \<open>The greeting: accepted exactly when the method without authentication is offered.\<close>

lemma Authenticate_iff:
  "Authenticate s = (Inr (), s') \<longleftrightarrow>
     (\<exists>methods rest. length methods < 256 \<and> 0 \<in> set methods
        \<and> sk_in s = 5 # of_nat (length methods) # methods @ rest \<and> sk_fault s (sk_writes s) = None
        \<and> s' = s\<lparr>sk_in := rest, sk_writes := Suc (sk_writes s), sk_out := sk_out s @ [[5, 0]]\<rparr>)" (is "?L \<longleftrightarrow> ?R")
proof
  assume ?R
  then obtain methods rest where m: "length methods < 256" "0 \<in> set methods"
    "sk_in s = [5, of_nat (length methods)] @ methods @ rest" "sk_fault s (sk_writes s) = None"
    "s' = s\<lparr>sk_in := rest, sk_writes := Suc (sk_writes s), sk_out := sk_out s @ [[5, 0]]\<rparr>" by auto
  have "unat (of_nat (length methods) :: byte) = length methods" using m(1) by (simp add: unat_of_nat)
  with m readFull_append [OF m(3), of 2] readFull_append [of "s\<lparr>sk_in := methods @ rest\<rparr>" methods rest "length methods"]
  show ?L by (simp add: Authenticate_def socks_consts socketWrite_def)
next
  assume ?L
  then obtain h s1 methods s2 where h: "readFull 2 s = (Inr h, s1)" "h ! 0 = 5"
    "readFull (unat (h ! 1)) s1 = (Inr methods, s2)" "0 \<in> set methods" "socketWrite [5, 0] s2 = (Inr (), s')"
    by (auto simp: Authenticate_def socks_consts split: prod.splits sum.splits if_splits)
  from h(1,2) obtain n rest1 where h1: "h = [5, n]" "sk_in s = 5 # n # rest1" "s1 = s\<lparr>sk_in := rest1\<rparr>"
    by (auto simp: readFull_Inr length_Suc_conv numeral_eq_Suc)
  with h(3) obtain rest where r: "rest1 = methods @ rest" "length methods = unat n" "s2 = s\<lparr>sk_in := rest\<rparr>"
    by (auto simp: readFull_Inr)
  from r(2) have "n = of_nat (length methods)" "length methods < 256"
    using unsigned_less [of n, where 'a = nat] by simp_all
  with h(4,5) h1 r(1,3) show ?R
    by (intro exI [of _ methods] exI [of _ rest]) (auto simp: socketWrite_def split: option.splits)
qed

end
