(* ===== verification/Proxy.thy ===== *)
theory Proxy
  imports Routing Socks
begin

text \<open>
  \<^verbatim>\<open>gateway/socks.go\<close> and \<^verbatim>\<open>gateway/httpproxy.go\<close>: the two proxies that give clients without
  an ssh connection access to the services. Both parse a target, open a tunnel with
  \<open>openServiceTunnel\<close>, answer the client and copy bytes until one side ends. The clock, the
  database and the answer to the opening of the channel are parameters as they are there.
\<close>

section \<open>Origins\<close>

datatype netAddr = TCPAddr "byte list" int | OtherAddr string

definition splitOrigin :: "netAddr \<Rightarrow> string \<times> u32" where
  "splitOrigin address = (case address of TCPAddr ip port \<Rightarrow> (ipString ip, of_int port) | OtherAddr s \<Rightarrow> (s, 0))"

text \<open>\<^verbatim>\<open>bridge\<close> returns when the first of its two copies has ended.\<close>

fun bridge :: "copy_event list \<Rightarrow> bool" where
  "bridge [] = False"
| "bridge (e # es) = True"

section \<open>The SOCKS proxy\<close>

text \<open>
  The steps up to the copying, and the whole of \<^verbatim>\<open>HandleSocksConnection\<close>: the tunnel that is
  bridged, if any; at the end the tunnel and the socket are closed. The Boolean says
  whether the handler has returned.
\<close>

definition socksOpen ::
    "(nat \<Rightarrow> gotime) \<Rightarrow> (nat \<Rightarrow> fault) \<Rightarrow> ref res \<Rightarrow> netAddr \<Rightarrow> socket \<Rightarrow> gateway \<Rightarrow> ref option \<times> bool \<times> socket \<times> gateway" where
  "socksOpen clk faults answer remote s g =
     (case Authenticate s of
        (Inl e, s1) \<Rightarrow> (None, False, s1, g)
      | (Inr _, s1) \<Rightarrow>
          (case ParseRequest s1 of
             (Inl e, s2) \<Rightarrow> (None, False, s2, g)
           | (Inr (host, port), s2) \<Rightarrow>
               (case splitOrigin remote of (originAddress, originPort) \<Rightarrow>
                  (case openServiceTunnel clk faults answer host port originAddress originPort g of
                     (Inl e, g1) \<Rightarrow> (None, False, snd (SendReply HostUnreachable s2), g1)
                   | (Inr t, g1) \<Rightarrow>
                       (case SendReply Succeeded s2 of
                          (Inl e, s3) \<Rightarrow> (Some t, False, s3, g1)
                        | (Inr _, s3) \<Rightarrow> (Some t, True, s3, g1))))))"

definition closeTunnel :: "ref option \<Rightarrow> gateway \<Rightarrow> gateway" where
  "closeTunnel t g = (case t of None \<Rightarrow> g | Some t \<Rightarrow> modify_tunnel t tunnel_close g)"

definition HandleSocksConnection ::
    "(nat \<Rightarrow> gotime) \<Rightarrow> (nat \<Rightarrow> fault) \<Rightarrow> ref res \<Rightarrow> netAddr \<Rightarrow> copy_event list \<Rightarrow> socket \<Rightarrow> gateway \<Rightarrow> bool \<times> socket \<times> gateway" where
  "HandleSocksConnection clk faults answer remote copies s g =
     (case socksOpen clk faults answer remote s g of
        (t, bridging, s1, g1) \<Rightarrow>
          if bridging \<and> \<not> bridge copies then (False, s1, g1)
          else (True, s1\<lparr>sk_closed := True\<rparr>, closeTunnel t g1))"

section \<open>Splitting host and port\<close>

fun lastIndexByte :: "char \<Rightarrow> string \<Rightarrow> nat option" where
  "lastIndexByte c [] = None"
| "lastIndexByte c (x # xs) =
     (case lastIndexByte c xs of Some i \<Rightarrow> Some (Suc i) | None \<Rightarrow> if x = c then Some 0 else None)"

definition addrError :: "string \<Rightarrow> string \<Rightarrow> goerror" where
  "addrError addr why = ErrText (if addr \<noteq> [] then ''address '' @ addr @ '': '' @ why else why)"

text \<open>\<^verbatim>\<open>net.SplitHostPort\<close>.\<close>

definition missingPort :: string where "missingPort = ''missing port in address''"
definition tooManyColons :: string where "tooManyColons = ''too many colons in address''"
definition badBracket :: "char \<Rightarrow> string \<Rightarrow> string" where
  "badBracket c why = why @ [CHR 0x27, c, CHR 0x27] @ '' in address''"

definition splitBrackets :: "string \<Rightarrow> nat \<Rightarrow> nat \<Rightarrow> nat \<Rightarrow> string \<Rightarrow> (string \<times> string) res" where
  "splitBrackets hp i j k host =
     (if CHR ''['' \<in> set (drop j hp) then Inl (addrError hp (badBracket (CHR ''['') ''unexpected ''))
      else if CHR '']'' \<in> set (drop k hp) then Inl (addrError hp (badBracket (CHR '']'') ''unexpected ''))
      else Inr (host, drop (Suc i) hp))"

definition netSplitHostPort :: "string \<Rightarrow> (string \<times> string) res" where
  "netSplitHostPort hp =
     (case lastIndexByte (CHR '':'') hp of
        None \<Rightarrow> Inl (addrError hp missingPort)
      | Some i \<Rightarrow>
          if hp ! 0 = CHR ''['' then
            (case indexByte (CHR '']'') hp of
               None \<Rightarrow> Inl (addrError hp (badBracket (CHR '']'') ''missing ''))
             | Some e \<Rightarrow>
                 if Suc e = length hp then Inl (addrError hp missingPort)
                 else if Suc e = i then splitBrackets hp i 1 (Suc e) (drop 1 (take e hp))
                 else if hp ! Suc e = CHR '':'' then Inl (addrError hp tooManyColons)
                 else Inl (addrError hp missingPort))
          else if CHR '':'' \<in> set (take i hp) then Inl (addrError hp tooManyColons)
          else splitBrackets hp i 0 0 (take i hp))"

definition splitHostPort :: "string \<Rightarrow> u16 \<Rightarrow> (string \<times> u16) res" where
  "splitHostPort hostPort defaultPort =
     (case netSplitHostPort hostPort of
        Inl (ErrText message) \<Rightarrow>
          if containsStr message ''missing port'' then Inr (hostPort, defaultPort) else Inl (ErrText message)
      | Inl e \<Rightarrow> Inl e
      | Inr (host, portString) \<Rightarrow>
          (case parseUint16 portString of
             None \<Rightarrow> Inl (ErrText ''strconv.ParseUint: parsing error'')
           | Some port \<Rightarrow> Inr (host, port)))"

section \<open>The HTTP proxy\<close>

text \<open>
  \<^verbatim>\<open>strconv.Atoi\<close> of the port of a remote address and \<^verbatim>\<open>net.ParseIP\<close> of its host are
  parameters; a host that is no address is an empty list.
\<close>

definition remoteAddress :: "(string \<Rightarrow> byte list) \<Rightarrow> (string \<Rightarrow> int option) \<Rightarrow> string \<Rightarrow> netAddr" where
  "remoteAddress parseIP atoi remoteAddr =
     (case netSplitHostPort remoteAddr of
        Inl e \<Rightarrow> TCPAddr [] 0
      | Inr (host, portString) \<Rightarrow> (case atoi portString of None \<Rightarrow> TCPAddr [] 0 | Some port \<Rightarrow> TCPAddr (parseIP host) port))"

datatype httpAnswer =
    HttpError nat
  | NoAnswer
  | Established
  | ReverseProxied

record httpRequest =
  hr_Method :: string
  hr_Host :: string
  hr_RemoteAddr :: string
  hr_absolute :: bool

text \<open>\<open>hijack\<close> is None if the response cannot be hijacked, and otherwise what hijacking and then
  writing the status line return.\<close>

definition connectOpen ::
    "(string \<Rightarrow> byte list) \<Rightarrow> (string \<Rightarrow> int option) \<Rightarrow> (nat \<Rightarrow> gotime) \<Rightarrow> (nat \<Rightarrow> fault) \<Rightarrow> ref res \<Rightarrow>
     (fault \<times> fault) option \<Rightarrow> httpRequest \<Rightarrow> gateway \<Rightarrow> ref option \<times> httpAnswer \<times> gateway" where
  "connectOpen parseIP atoi clk faults answer hijack request g =
     (case splitHostPort (hr_Host request) 443 of
        Inl e \<Rightarrow> (None, HttpError 400, g)
      | Inr (host, port) \<Rightarrow>
          (case splitOrigin (remoteAddress parseIP atoi (hr_RemoteAddr request)) of (originAddress, originPort) \<Rightarrow>
             (case openServiceTunnel clk faults answer host port originAddress originPort g of
                (Inl e, g1) \<Rightarrow> (None, HttpError 502, g1)
              | (Inr t, g1) \<Rightarrow>
                  (case hijack of
                     None \<Rightarrow> (Some t, HttpError 500, g1)
                   | Some (Some e, _) \<Rightarrow> (Some t, NoAnswer, g1)
                   | Some (None, Some e) \<Rightarrow> (Some t, NoAnswer, g1)
                   | Some (None, None) \<Rightarrow> (Some t, Established, g1)))))"

definition handleHttpConnect ::
    "(string \<Rightarrow> byte list) \<Rightarrow> (string \<Rightarrow> int option) \<Rightarrow> (nat \<Rightarrow> gotime) \<Rightarrow> (nat \<Rightarrow> fault) \<Rightarrow> ref res \<Rightarrow>
     (fault \<times> fault) option \<Rightarrow> copy_event list \<Rightarrow> httpRequest \<Rightarrow> gateway \<Rightarrow> bool \<times> httpAnswer \<times> gateway" where
  "handleHttpConnect parseIP atoi clk faults answer hijack copies request g =
     (case connectOpen parseIP atoi clk faults answer hijack request g of
        (t, status, g1) \<Rightarrow>
          if status = Established \<and> \<not> bridge copies then (False, status, g1)
          else (True, status, closeTunnel t g1))"

text \<open>The handler; what the reverse proxy does with a request is a parameter.\<close>

definition HTTPProxyHandler ::
    "(string \<Rightarrow> byte list) \<Rightarrow> (string \<Rightarrow> int option) \<Rightarrow> (nat \<Rightarrow> gotime) \<Rightarrow> (nat \<Rightarrow> fault) \<Rightarrow> ref res \<Rightarrow>
     (fault \<times> fault) option \<Rightarrow> copy_event list \<Rightarrow> (httpRequest \<Rightarrow> gateway \<Rightarrow> gateway) \<Rightarrow> httpRequest \<Rightarrow> gateway \<Rightarrow>
     bool \<times> httpAnswer \<times> gateway" where
  "HTTPProxyHandler parseIP atoi clk faults answer hijack copies reverseProxy request g =
     (if hr_Method request = ''CONNECT'' then handleHttpConnect parseIP atoi clk faults answer hijack copies request g
      else if \<not> hr_absolute request then (True, HttpError 400, g)
      else (True, ReverseProxied, reverseProxy request g))"

text \<open>The connection of the reverse proxy's transport is the tunnel; closing it closes the tunnel.\<close>

definition dialServiceContext :: "(nat \<Rightarrow> gotime) \<Rightarrow> (nat \<Rightarrow> fault) \<Rightarrow> ref res \<Rightarrow> string \<Rightarrow> gateway \<Rightarrow> ref res \<times> gateway" where
  "dialServiceContext clk faults answer address g =
     (case splitHostPort address 80 of
        Inl e \<Rightarrow> (Inl e, g)
      | Inr (host, port) \<Rightarrow> openServiceTunnel clk faults answer host port ''http-proxy'' 0 g)"

definition channelConn_Close :: "ref \<Rightarrow> gateway \<Rightarrow> gateway" where
  "channelConn_Close t g = modify_tunnel t tunnel_close g"

section \<open>Splitting inverts joining\<close>

lemma lastIndexByte_append: "c \<notin> set q \<Longrightarrow> lastIndexByte c (p @ c # q) = Some (length p)"
proof (induction p)
  case Nil
  have "lastIndexByte c q = None" using Nil by (induction q) auto
  then show ?case by simp
qed simp

lemma lastIndexByte_None: "lastIndexByte c s = None \<longleftrightarrow> c \<notin> set s"
  by (induction s) (auto split: option.splits)

lemma decimal_no: "CHR '':'' \<notin> set (decimal n)" "CHR ''['' \<notin> set (decimal n)" "CHR '']'' \<notin> set (decimal n)"
  using set_decimal [of n] by (auto simp: isDigit_def)

lemma containsStr_append: "containsStr (a @ sub @ b) sub"
proof (induction a)
  case Nil
  have "hasPrefix (sub @ b) sub" by (simp add: hasPrefix_def)
  then show ?case by (cases "sub @ b") auto
qed simp

lemma addrError_missing:
  assumes "addrError hp missingPort = ErrText m"
  shows "containsStr m ''missing port''"
proof -
  have m: "missingPort = ''missing port'' @ '' in address''" by (simp add: missingPort_def)
  have c: "containsStr (a @ missingPort) ''missing port''" for a unfolding m by (rule containsStr_append)
  have "m = (if hp \<noteq> [] then (''address '' @ hp @ '': '') @ missingPort else [] @ missingPort)"
    using assms unfolding addrError_def by (auto split: if_splits)
  then show ?thesis using c by (simp only: split: if_split) simp
qed

lemma splitHostPort_default:
  assumes "CHR '':'' \<notin> set host"
  shows "splitHostPort host d = Inr (host, d)"
proof -
  have "lastIndexByte (CHR '':'') host = None" using assms by (simp add: lastIndexByte_None)
  then have "netSplitHostPort host = Inl (addrError host missingPort)" unfolding netSplitHostPort_def by simp
  moreover obtain m where "addrError host missingPort = ErrText m" by (simp add: addrError_def)
  ultimately show ?thesis using addrError_missing by (simp add: splitHostPort_def)
qed

text \<open>Splitting a target gives back the host and the port it was joined from, with brackets
  around a host that contains colons; a target without a colon is a host and gets the
  default port.\<close>

theorem splitHostPort_join:
  assumes "CHR ''['' \<notin> set host" and "CHR '']'' \<notin> set host"
  shows "splitHostPort (''['' @ host @ '']:'' @ decimal (unat port)) d = Inr (host, port)
    \<and> (CHR '':'' \<notin> set host \<longrightarrow>
         splitHostPort (host @ '':'' @ decimal (unat port)) d = Inr (host, port) \<and> splitHostPort host d = Inr (host, d))"
proof (intro conjI impI)
  let ?p = "decimal (unat port)"
  have "lastIndexByte (CHR '':'') ((CHR ''['' # host @ '']'') @ CHR '':'' # ?p) = Some (length (CHR ''['' # host @ '']''))"
    by (rule lastIndexByte_append) (rule decimal_no)
  moreover have "indexByte (CHR '']'') ((CHR ''['' # host) @ CHR '']'' # '':'' @ ?p) = Some (length (CHR ''['' # host))"
    by (rule indexByte_append) (use assms in simp)
  ultimately show "splitHostPort (''['' @ host @ '']:'' @ ?p) d = Inr (host, port)"
    using assms decimal_no [of "unat port"]
    by (simp add: splitHostPort_def netSplitHostPort_def splitBrackets_def parseUint16_decimal)
  assume colon: "CHR '':'' \<notin> set host"
  have "lastIndexByte (CHR '':'') (host @ CHR '':'' # ?p) = Some (length host)"
    by (rule lastIndexByte_append) (rule decimal_no)
  moreover have "(host @ CHR '':'' # ?p) ! 0 \<noteq> CHR ''[''"
    using assms(1) by (cases host) auto
  ultimately show "splitHostPort (host @ '':'' @ ?p) d = Inr (host, port)"
    using assms colon decimal_no [of "unat port"]
    by (simp add: splitHostPort_def netSplitHostPort_def splitBrackets_def parseUint16_decimal)
  show "splitHostPort host d = Inr (host, d)"
    by (rule splitHostPort_default [OF colon])
qed

theorem splitHostPort_join_witness:
  "splitHostPort ''[::1]:80'' 443 = Inr (''::1'', 80) \<and> splitHostPort ''web.alice'' 443 = Inr (''web.alice'', 443)"
proof -
  have "decimal 80 = ''80''" by (simp add: decimal.simps char_of_def bit_Suc_0_iff)
  then show ?thesis
    using splitHostPort_join [of "''::1''" 80 443] splitHostPort_join [of "''web.alice''" 80 443] by simp
qed

section \<open>What a proxy client gets\<close>

lemma openServiceTunnel_store:
  assumes "openServiceTunnel clk faults answer host port origin originPort g = (Inr t, g')"
  shows "t = gw_nextRef g \<and> gw_nextRef g' = Suc t \<and> (\<forall>u. u \<noteq> t \<longrightarrow> gw_tunnel g' u = gw_tunnel g u)"
  using assms
proof (cases rule: openServiceTunnel_cases)
  case (local r h)
  from connection_tunnels.open_fresh(1,3) [OF local(2)] connection_tunnels.open_fresh_next [OF local(2)]
  show ?thesis by simp
next
  case (remote q g1)
  have "gw_nextRef g1 = gw_nextRef g" "gw_tunnel g1 = gw_tunnel g"
    using remote(2) lookupRemotePeer_frame [of g clk faults host] by (auto simp: same_but_routes_def)
  with peer_tunnels.open_fresh(1,3) [OF remote(3)] peer_tunnels.open_fresh_next [OF remote(3)]
  show ?thesis by simp
qed

lemma openServiceTunnel_failed:
  assumes "openServiceTunnel clk faults answer host port origin originPort g = (Inl e, g')"
  shows "same_but_routes g g'"
proof -
  have "same_but_routes g g'" if "lookupConnectionService host port g = Some x" for x
    using assms that by (cases x; cases answer)
      (auto simp: openServiceTunnel_def Let_def connection_openTunnel_def split: prod.splits)
  moreover have "same_but_routes g g'" if "lookupConnectionService host port g = None"
    using assms that lookupRemotePeer_frame [of g clk faults host]
    by (cases answer) (auto simp: openServiceTunnel_def Let_def peer_openTunnel_def invalidateRoutes_def same_but_routes_def
        split: prod.splits option.splits)
  ultimately show ?thesis by (cases "lookupConnectionService host port g") auto
qed

lemma socksOpen_tunnel:
  assumes "socksOpen clk faults answer remote s g = (t, bridging, s1, g1)"
  shows "(case t of None \<Rightarrow> \<not> bridging \<and> same_but_routes g g1
     | Some t \<Rightarrow> t = gw_nextRef g \<and> gw_nextRef g1 = Suc t)"
  using assms
  by (auto simp: socksOpen_def dest: openServiceTunnel_failed openServiceTunnel_store split: prod.splits sum.splits)

lemma connectOpen_tunnel:
  assumes "connectOpen parseIP atoi clk faults answer hijack request g = (t, status, g1)"
  shows "(case t of None \<Rightarrow> status \<noteq> Established \<and> same_but_routes g g1
     | Some t \<Rightarrow> t = gw_nextRef g \<and> gw_nextRef g1 = Suc t)"
  using assms
  by (auto simp: connectOpen_def dest: openServiceTunnel_failed openServiceTunnel_store
      split: prod.splits sum.splits option.splits)

lemma closeTunnel_done:
  assumes "case t of None \<Rightarrow> same_but_routes g g1 | Some t \<Rightarrow> t = gw_nextRef g \<and> gw_nextRef g1 = Suc t"
    and "gw_nextRef g \<le> u" and "u < gw_nextRef (closeTunnel t g1)"
  shows "tn_done (gw_tunnel (closeTunnel t g1) u)"
  using assms by (auto simp: closeTunnel_def modify_tunnel_def same_but_routes_def split: option.splits)


text \<open>C37: A SOCKS client that offers no authentication and asks to connect to a service gets the two
  answers of the protocol: success exactly if the tunnel to that host and port could be
  opened, for the origin of its socket, and host unreachable otherwise.\<close>

theorem socks_connect:
  assumes "sk_in s = (5 # of_nat (length methods) # methods) @ encodeRequest 1 reserved address port @ rest"
    and "length methods < 256" and "0 \<in> set methods" and "addressOk address" and "\<forall>i. sk_fault s i = None"
  shows "socksOpen clk faults answer remote s g =
    (case openServiceTunnel clk faults answer (addressText address) port (fst (splitOrigin remote)) (snd (splitOrigin remote)) g of
       (r, g1) \<Rightarrow>
         (case r of Inl _ \<Rightarrow> None | Inr t \<Rightarrow> Some t, case r of Inl _ \<Rightarrow> False | Inr _ \<Rightarrow> True,
          s\<lparr>sk_in := rest, sk_writes := Suc (Suc (sk_writes s)),
            sk_out := sk_out s @ [[5, 0], [5, case r of Inl _ \<Rightarrow> 4 | Inr _ \<Rightarrow> 0, 0, 1, 0, 0, 0, 0, 0, 0]]\<rparr>, g1))"
proof -
  let ?s1 = "s\<lparr>sk_in := encodeRequest 1 reserved address port @ rest, sk_writes := Suc (sk_writes s), sk_out := sk_out s @ [[5, 0]]\<rparr>"
  have auth: "Authenticate s = (Inr (), ?s1)"
    unfolding Authenticate_iff using assms by (intro exI [of _ methods] exI) auto
  have "ParseRequest ?s1 = (Inr (addressText address, port), ?s1\<lparr>sk_in := rest\<rparr>)"
    by (rule ParseRequest_encoded [OF assms(4)]) simp
  with auth show ?thesis
    using assms(5)
    by (auto simp: socksOpen_def SendReply_def socketWrite_def socks_consts split: prod.split sum.split)
qed

definition sample_socket :: socket where
  "sample_socket = \<lparr>sk_in = [5, 1, 0] @ encodeRequest 1 0 (DomainName ''web.alice'') 80, sk_end = ErrEOF, sk_out = [],
     sk_writes = 0, sk_fault = (\<lambda>_. None), sk_closed = False\<rparr>"

theorem socks_connect_witness:
  "fst (socksOpen (\<lambda>_. 0) (\<lambda>_. None) (Inr 9) (OtherAddr ''pipe'') sample_socket sample_gateway) = Some 1"
proof -
  let ?o = "openServiceTunnel (\<lambda>_. 0) (\<lambda>_. None) (Inr 9) ''web.alice'' 80 ''pipe'' 0 sample_gateway"
  have "fst ?o = Inr (gw_nextRef sample_gateway)"
    by (simp add: openServiceTunnel_def sample_lookup(1) Let_def connection_tunnels.open_result)
  moreover have "gw_nextRef sample_gateway = 1" by (simp add: sample_gateway_defs Let_def)
  ultimately obtain g1 where "?o = (Inr 1, g1)" by (metis prod.collapse)
  then show ?thesis
    using socks_connect [of sample_socket "[0]" 0 "DomainName ''web.alice''" 80 "[]" "\<lambda>_. 0" "\<lambda>_. None" "Inr 9"
        "OtherAddr ''pipe''" sample_gateway]
    by (simp add: sample_socket_def splitOrigin_def)
qed


end
