(* ===== verification/Convergence.thy ===== *)
theory Convergence
  imports Presence
begin

text \<open>
  The recorded node of a user under concurrency. \<open>presence_step\<close> has one rule for each atomic
  part of a login, a disconnect, the release of a node and the heartbeat, so that its runs
  are all interleavings of the goroutines of one node. The ghost component \<open>pr_stranded\<close>
  collects the users whose row was pointed at this node by a login that never became a
  registered connection, or by a background record that came after the disconnect.
\<close>

datatype release = ReleaseCheck string | ReleaseClear string

datatype beat = BeatIdle | BeatSnapshot "string list" | BeatMarked "string list" | BeatReleasing "string list"

record presence =
  pr_gateway :: gateway
  pr_releases :: "release list"
  pr_beat :: beat
  pr_connecting :: "string list"
  pr_stranded :: "string set"

definition recordLogin :: "gotime \<Rightarrow> string \<Rightarrow> string \<Rightarrow> location \<Rightarrow> gateway \<Rightarrow> gateway" where
  "recordLogin now userId ip loc g =
     g\<lparr>gw_database := snd (db_UpsertUserOnConnect None now userId ip loc (gs_NodeID (gw_settings g)) (gw_database g))\<rparr>"

inductive presence_step :: "presence \<Rightarrow> presence \<Rightarrow> bool" where
  login: "userId \<noteq> [] \<Longrightarrow>
    presence_step s (s\<lparr>pr_gateway := recordLogin now userId ip loc (pr_gateway s),
                       pr_connecting := userId # pr_connecting s\<rparr>)"
| abandoned: "userId \<in> set (pr_connecting s) \<Longrightarrow>
    presence_step s (s\<lparr>pr_connecting := remove1 userId (pr_connecting s),
                       pr_stranded := insert userId (pr_stranded s)\<rparr>)"
| connected: "userId \<in> set (pr_connecting s) \<Longrightarrow> mget (pm_Extensions perms) ''peer'' = None \<Longrightarrow>
    presence_step s (s\<lparr>pr_gateway := snd (acceptConnection ident perms userId remote usage (pr_gateway s)),
                       pr_connecting := remove1 userId (pr_connecting s)\<rparr>)"
| late_record: "userId \<noteq> [] \<Longrightarrow>
    presence_step s (s\<lparr>pr_gateway := recordLogin now userId ip loc (pr_gateway s),
                       pr_stranded := (if indexed (pr_gateway s) userId = []
                                       then insert userId (pr_stranded s) else pr_stranded s)\<rparr>)"
| disconnected: "r \<in> set (gw_connectionsList (pr_gateway s)) \<Longrightarrow>
    presence_step s (s\<lparr>pr_gateway := deleteConnection r (pr_gateway s),
                       pr_releases := ReleaseCheck (cn_user (gw_connection (pr_gateway s) r)) # pr_releases s\<rparr>)"
| release_check: "ReleaseCheck userId \<in> set (pr_releases s) \<Longrightarrow>
    presence_step s (s\<lparr>pr_releases := (if releaseCheck userId (pr_gateway s) then [ReleaseClear userId] else [])
                                      @ remove1 (ReleaseCheck userId) (pr_releases s)\<rparr>)"
| release_clear: "ReleaseClear userId \<in> set (pr_releases s) \<Longrightarrow>
    presence_step s (s\<lparr>pr_gateway := releaseClear None now userId (pr_gateway s),
                       pr_releases := remove1 (ReleaseClear userId) (pr_releases s)\<rparr>)"
| beat_snapshot: "pr_beat s = BeatIdle \<Longrightarrow>
    presence_step s (s\<lparr>pr_beat := BeatSnapshot (connectedUserIds (pr_gateway s))\<rparr>)"
| beat_failed: "pr_beat s = BeatSnapshot userIds \<Longrightarrow> presence_step s (s\<lparr>pr_beat := BeatIdle\<rparr>)"
| beat_mark: "pr_beat s = BeatSnapshot userIds \<Longrightarrow>
    presence_step s (s\<lparr>pr_gateway := snd (markOnline None now userIds (pr_gateway s)),
                       pr_beat := BeatMarked userIds\<rparr>)"
| beat_check: "pr_beat s = BeatMarked userIds \<Longrightarrow>
    presence_step s (s\<lparr>pr_beat := BeatReleasing (departed userIds (pr_gateway s))\<rparr>)"
| beat_release: "pr_beat s = BeatReleasing (userId # userIds) \<Longrightarrow>
    presence_step s (s\<lparr>pr_beat := BeatReleasing userIds, pr_releases := ReleaseCheck userId # pr_releases s\<rparr>)"
| beat_end: "pr_beat s = BeatReleasing [] \<Longrightarrow> presence_step s (s\<lparr>pr_beat := BeatIdle\<rparr>)"

section \<open>The invariant\<close>

fun beat_users :: "beat \<Rightarrow> string set" where
  "beat_users BeatIdle = {}"
| "beat_users (BeatSnapshot userIds) = {}"
| "beat_users (BeatMarked userIds) = set userIds"
| "beat_users (BeatReleasing userIds) = set userIds"

text \<open>Who still has a release ahead of them, or none to expect.\<close>

definition accounted :: "presence \<Rightarrow> string \<Rightarrow> bool" where
  "accounted s u \<longleftrightarrow> indexed (pr_gateway s) u \<noteq> [] \<or> ReleaseCheck u \<in> set (pr_releases s)
     \<or> ReleaseClear u \<in> set (pr_releases s) \<or> u \<in> beat_users (pr_beat s) \<or> u \<in> set (pr_connecting s)
     \<or> u \<in> pr_stranded s"

definition presence_ok :: "presence \<Rightarrow> bool" where
  "presence_ok s \<longleftrightarrow> registry_ok (pr_gateway s) \<and> db_wf (gw_database (pr_gateway s))
     \<and> gs_NodeID (gw_settings (pr_gateway s)) \<noteq> [] \<and> [] \<notin> set (pr_connecting s)
     \<and> (\<forall>u. u \<noteq> [] \<and> user_node (gw_database (pr_gateway s)) u = Some (gs_NodeID (gw_settings (pr_gateway s)))
            \<longrightarrow> accounted s u)"

lemma connectedUserIds_iff:
  assumes "registry_ok g"
  shows "u \<in> set (connectedUserIds g) \<longleftrightarrow> u \<noteq> [] \<and> indexed g u \<noteq> []"
proof -
  have "u \<in> set (connectedUserIds g) \<longleftrightarrow> (\<exists>rs. (u, rs) \<in> set (gw_connectionsIndex g) \<and> u \<noteq> [] \<and> rs \<noteq> [])"
    by (force simp: connectedUserIds_def)
  then show ?thesis
    by (auto simp: mwf_in_mget [OF registry_okD(4) [OF assms]] indexed_def nullable_def split: option.splits)
qed

lemma indexed_database [simp]: "indexed (g\<lparr>gw_database := db\<rparr>) u = indexed g u"
  by (simp add: indexed_def)

lemma registry_ok_database [simp]: "registry_ok (g\<lparr>gw_database := db\<rparr>) = registry_ok g"
  by (simp add: registry_ok_def)

lemma recordLogin_node:
  "u \<noteq> userId \<Longrightarrow> user_node (gw_database (recordLogin now userId ip loc g)) u = user_node (gw_database g) u"
  by (auto simp: recordLogin_def user_node_def db_UpsertUserOnConnect_def Let_def gomap_simps split: option.splits)

lemma gateway_db_steps [simp]:
  "gw_settings (recordLogin now userId ip loc g) = gw_settings g"
  "indexed (recordLogin now userId ip loc g) u = indexed g u"
  "registry_ok (recordLogin now userId ip loc g) = registry_ok g"
  "gw_settings (releaseClear f now userId g) = gw_settings g"
  "indexed (releaseClear f now userId g) u = indexed g u"
  "registry_ok (releaseClear f now userId g) = registry_ok g"
  "gw_settings (snd (markOnline f now userIds g)) = gw_settings g"
  "indexed (snd (markOnline f now userIds g)) u = indexed g u"
  "registry_ok (snd (markOnline f now userIds g)) = registry_ok g"
  by (simp_all add: recordLogin_def releaseClear_def markOnline_def case_prod_beta Let_def)

lemma db_wf_steps:
  "db_wf (gw_database g) \<Longrightarrow> db_wf (gw_database (recordLogin now userId ip loc g))"
  "db_wf (gw_database g) \<Longrightarrow> db_wf (gw_database (releaseClear f now userId g))"
  "db_wf (gw_database g) \<Longrightarrow> db_wf (gw_database (snd (markOnline f now userIds g)))"
  by (simp_all add: recordLogin_def releaseClear_def markOnline_def case_prod_beta Let_def db_wf_ops)

lemma releaseClear_node:
  assumes "db_wf (gw_database g)" and "gs_NodeID (gw_settings g) \<noteq> []"
  shows "user_node (gw_database (releaseClear None now userId g)) u =
    (if u = userId \<and> user_node (gw_database g) u = Some (gs_NodeID (gw_settings g)) then Some []
     else user_node (gw_database g) u)"
  using presence.clear_node [OF assms, of now userId u] by (auto simp: releaseClear_def)

lemma markOnline_node:
  assumes "db_wf (gw_database g)" and "gs_NodeID (gw_settings g) \<noteq> []" and "u \<notin> set userIds"
  shows "user_node (gw_database (snd (markOnline None now userIds g))) u = user_node (gw_database g) u"
  using presence.mark_node [OF assms(1,2), of now userIds onlineStaleThreshold u] assms(3)
  by (simp add: markOnline_def case_prod_beta Let_def option.map_id0 [unfolded id_def])

lemma indexed_deleteConnection:
  "u \<noteq> cn_user (gw_connection g r) \<Longrightarrow> indexed (deleteConnection r g) u = indexed g u"
  "gw_settings (deleteConnection r g) = gw_settings g" "gw_database (deleteConnection r g) = gw_database g"
  by (simp_all add: deleteConnection_def Let_def indexed_mput)

lemma indexed_acceptConnection:
  assumes "mget (pm_Extensions perms) ''peer'' = None"
  shows "indexed (snd (acceptConnection ident perms userId remote usage g)) userId \<noteq> []"
    and "u \<noteq> userId \<Longrightarrow> indexed (snd (acceptConnection ident perms userId remote usage g)) u = indexed g u"
    and "gw_settings (snd (acceptConnection ident perms userId remote usage g)) = gw_settings g"
    and "gw_database (snd (acceptConnection ident perms userId remote usage g)) = gw_database g"
  using assms
  by (simp_all add: acceptConnection_def addConnection_def newConnection_def Let_def indexed_def gomap_simps)

lemma presence_ok_step:
  assumes "presence_step s s'" and "presence_ok s"
  shows "presence_ok s'"
  using assms
proof (induction rule: presence_step.induct)
  case (login userId s now ip loc)
  then show ?case
    by (auto simp: presence_ok_def db_wf_steps accounted_def recordLogin_node)
next
  case (abandoned userId s)
  then show ?case
    by (auto simp: presence_ok_def accounted_def dest: notin_set_remove1) (metis in_set_remove1)
next
  case (connected userId s perms ident remote usage)
  then show ?case
    by (auto simp: presence_ok_def accounted_def registry_ok_acceptConnection indexed_acceptConnection
        dest: notin_set_remove1)
       (metis in_set_remove1 indexed_acceptConnection(1,2))
next
  case (late_record userId s now ip loc)
  then show ?case
    by (auto simp: presence_ok_def db_wf_steps accounted_def) (metis recordLogin_node)+
next
  case (disconnected r s)
  then show ?case
    by (auto simp: presence_ok_def accounted_def registry_ok_deleteConnection indexed_deleteConnection(2,3))
       (metis indexed_deleteConnection(1))+
next
  case (release_check userId s)
  then show ?case
    by (auto simp: presence_ok_def accounted_def releaseCheck_def) (metis in_set_remove1 release.distinct(1) release.inject)+
next
  case (release_clear userId s now)
  then show ?case
    by (auto simp: presence_ok_def accounted_def db_wf_steps releaseClear_node split: if_splits)
       (metis in_set_remove1 release.inject(2))
next
  case (beat_snapshot s)
  then show ?case by (auto simp: presence_ok_def accounted_def)
next
  case (beat_failed s userIds)
  then show ?case by (auto simp: presence_ok_def accounted_def)
next
  case (beat_mark s userIds now)
  then show ?case
    by (auto simp: presence_ok_def accounted_def db_wf_steps) (metis markOnline_node)+
next
  case (beat_check s userIds)
  then show ?case by (auto simp: presence_ok_def accounted_def departed_def connectedUserIds_iff)
next
  case (beat_release s userId userIds)
  then show ?case by (auto simp: presence_ok_def accounted_def)
next
  case (beat_end s)
  then show ?case by (auto simp: presence_ok_def accounted_def)
qed

text \<open>The node at its start: whoever the database already has on it counts as stranded.\<close>

definition presence_start :: "database \<Rightarrow> flagsCache \<Rightarrow> gwSettings \<Rightarrow> presence" where
  "presence_start db flags settings =
     \<lparr>pr_gateway = newGateway db flags settings, pr_releases = [], pr_beat = BeatIdle, pr_connecting = [],
      pr_stranded = {u. user_node db u = Some (gs_NodeID settings)}\<rparr>"

lemma presence_ok_start:
  "db_wf db \<Longrightarrow> gs_NodeID settings \<noteq> [] \<Longrightarrow> presence_ok (presence_start db flags settings)"
  using registry_ok_newGateway [of db flags settings]
  by (simp add: presence_ok_def presence_start_def accounted_def) (simp add: newGateway_def)

lemma presence_ok_reachable: "presence_step\<^sup>*\<^sup>* s s' \<Longrightarrow> presence_ok s \<Longrightarrow> presence_ok s'"
  by (induction rule: rtranclp_induct) (auto intro: presence_ok_step)


definition sample_presence :: presence where
  "sample_presence =
     (let s = presence_start empty_database [] sample_gwSettings;
          g = recordLogin 0 ''alice'' ''10.1.2.3'' zero_location (pr_gateway s)
      in s\<lparr>pr_gateway := snd (acceptConnection ''k0'' sample_permissions ''alice'' ''10.1.2.3:40000'' (newUsage 0) g)\<rparr>)"

lemma sample_presence_reachable:
  "presence_step\<^sup>*\<^sup>* (presence_start empty_database [] sample_gwSettings) sample_presence"
proof -
  let ?s = "presence_start empty_database [] sample_gwSettings"
  let ?g = "recordLogin 0 ''alice'' ''10.1.2.3'' zero_location (pr_gateway ?s)"
  let ?s1 = "?s\<lparr>pr_gateway := ?g, pr_connecting := [''alice'']\<rparr>"
  have "presence_step ?s ?s1"
    using presence_step.login [of "''alice''" ?s 0 "''10.1.2.3''" zero_location] by (simp add: presence_start_def)
  moreover have "presence_step ?s1 sample_presence"
    using presence_step.connected [of "''alice''" ?s1 sample_permissions "''k0''" "''10.1.2.3:40000''" "newUsage 0"]
    by (simp add: sample_presence_def sample_permissions_def presence_start_def Let_def)
  ultimately show ?thesis by (meson converse_rtranclp_into_rtranclp rtranclp.rtrancl_refl)
qed

lemma sample_presence_fields:
  "user_node (gw_database (pr_gateway sample_presence)) ''alice'' = Some ''node-a''"
  "pr_stranded sample_presence = {}" "gs_NodeID (gw_settings (pr_gateway sample_presence)) = ''node-a''"
  "pr_releases sample_presence = []" "pr_beat sample_presence = BeatIdle" "pr_connecting sample_presence = []"
  by (simp_all add: sample_presence_def presence_start_def Let_def acceptConnection_def addConnection_def
      recordLogin_def newGateway_def sample_gwSettings_def db_UpsertUserOnConnect_def empty_database_def
      user_node_def connect_model_def save_user_def mput_def)


text \<open>The user \<open>u\<close> is recorded on the node \<open>g\<close> but has no connection to it.\<close>

definition stranded_on :: "string \<Rightarrow> gateway \<Rightarrow> bool" where
  "stranded_on u g \<longleftrightarrow> registry_ok g \<and> db_wf (gw_database g) \<and> gs_NodeID (gw_settings g) \<noteq> [] \<and> indexed g u = []
     \<and> user_node (gw_database g) u = Some (gs_NodeID (gw_settings g))"

lemma releaseUserNode_simps [simp]:
  "gw_settings (releaseUserNode f t w g) = gw_settings g"
  "indexed (releaseUserNode f t w g) v = indexed g v"
  "registry_ok (releaseUserNode f t w g) = registry_ok g"
  by (simp_all add: releaseUserNode_def)

lemma db_wf_releaseUserNode: "db_wf (gw_database g) \<Longrightarrow> db_wf (gw_database (releaseUserNode f t w g))"
  by (simp add: releaseUserNode_def db_wf_steps)

lemma stranded_release: "stranded_on u g \<Longrightarrow> w \<noteq> u \<Longrightarrow> stranded_on u (releaseUserNode None t w g)"
  by (simp add: stranded_on_def db_wf_releaseUserNode) (simp add: releaseUserNode_def releaseClear_node)

lemma stranded_releases:
  "stranded_on u g \<Longrightarrow> u \<notin> set ws \<Longrightarrow> stranded_on u (fold (\<lambda>w. releaseUserNode None t w) ws g)"
  by (induction ws arbitrary: g) (simp, metis fold_simps(2) list.set_intros(1,2) stranded_release)

lemma stranded_mark: "stranded_on u g \<Longrightarrow> u \<notin> set ws \<Longrightarrow> stranded_on u (snd (markOnline None t ws g))"
  by (simp add: stranded_on_def db_wf_steps markOnline_node)

lemma stranded_not_connected: "stranded_on u g \<Longrightarrow> u \<notin> set (connectedUserIds g)"
  by (simp add: stranded_on_def connectedUserIds_iff)

lemma stranded_beat:
  assumes "stranded_on u g"
  shows "stranded_on u (onlineBeat None (\<lambda>_. None) t3 t4 g)"
proof -
  have u: "u \<notin> set (connectedUserIds g)" using assms by (rule stranded_not_connected)
  obtain res g1 where m: "markOnline None t3 (connectedUserIds g) g = (res, g1)" by (metis surj_pair)
  have g1: "stranded_on u g1" using stranded_mark [OF assms u, of t3] m by simp
  have "u \<notin> set (departed (connectedUserIds g) g1)" using u by (simp add: departed_def)
  with assms m g1 stranded_releases [OF g1] show ?thesis
    by (simp add: onlineBeat_def Let_def split: sum.splits)
qed

lemma onlineBeat_settings: "gw_settings (onlineBeat f rf t3 t4 g) = gw_settings g"
proof -
  have "gw_settings (fold (\<lambda>w. releaseUserNode (rf w) t4 w) ws h) = gw_settings h" for ws h
    by (induction ws arbitrary: h) simp_all
  moreover obtain res g1 where "markOnline f t3 (connectedUserIds g) g = (res, g1)" by (metis surj_pair)
  moreover from this have "gw_settings g1 = gw_settings g"
    using gateway_db_steps(7) [of f t3 "connectedUserIds g" g] by simp
  ultimately show ?thesis by (simp add: onlineBeat_def Let_def split: sum.splits)
qed

lemma recordLogin_enabled:
  "case mget (db_users (gw_database g)) u of None \<Rightarrow> True | Some r \<Rightarrow> ur_disabled r \<noteq> Some True \<Longrightarrow>
   user_node (gw_database (recordLogin t u ip loc g)) u = Some (gs_NodeID (gw_settings g))"
  by (auto simp: recordLogin_def db_UpsertUserOnConnect_def user_node_def Let_def gomap_simps
      connect_conflict_def connect_model_def save_user_def split: option.splits)

lemma releaseUserNode_disabled:
  "map_option ur_disabled (mget (db_users (gw_database (releaseUserNode f t w g))) u) =
   map_option ur_disabled (mget (db_users (gw_database g)) u)"
  by (auto simp: releaseUserNode_def releaseClear_def db_ClearUserNodeID_def update_users_row option.map_comp
      comp_def intro!: map_option_cong split: option.splits)

text \<open>The background record of a login can undo the release of a user's node. If it runs after the
  user's last connection has closed, the row points at this node again, and neither the
  release of any user nor any number of heartbeats of this node changes that, although
  the user is not connected here.\<close>

theorem late_record_strands_user:
  assumes "registry_ok g" and "db_wf (gw_database g)" and "gs_NodeID (gw_settings g) \<noteq> []"
    and "u \<noteq> []" and "indexed g u = []"
    and "case mget (db_users (gw_database g)) u of None \<Rightarrow> True | Some r \<Rightarrow> ur_disabled r \<noteq> Some True"
    and "g' = recordLogin t2 u ip loc (releaseUserNode None t1 u g)"
  shows "u \<notin> set (connectedUserIds g')
    \<and> user_node (gw_database ((onlineBeat None (\<lambda>_. None) t3 t4 ^^ n) g')) u = Some (gs_NodeID (gw_settings g))"
proof -
  have "case mget (db_users (gw_database (releaseUserNode None t1 u g))) u of
      None \<Rightarrow> True | Some r \<Rightarrow> ur_disabled r \<noteq> Some True"
    using assms(6) releaseUserNode_disabled [of None t1 u g u] by (auto split: option.splits)
  from recordLogin_enabled [OF this, of t2 ip loc] have "stranded_on u g'"
    using assms by (simp add: stranded_on_def db_wf_steps db_wf_releaseUserNode)
  moreover have "gw_settings g' = gw_settings g" using assms(7) by simp
  ultimately have "stranded_on u ((onlineBeat None (\<lambda>_. None) t3 t4 ^^ n) g')
      \<and> gw_settings ((onlineBeat None (\<lambda>_. None) t3 t4 ^^ n) g') = gw_settings g"
    by (induction n) (simp_all add: stranded_beat onlineBeat_settings)
  with \<open>stranded_on u g'\<close> show ?thesis
    using stranded_not_connected by (auto simp: stranded_on_def)
qed

theorem late_record_strands_user_witness:
  "user_node (gw_database (onlineBeat None (\<lambda>_. None) 3 4
     (recordLogin 2 ''alice'' ''10.1.2.3'' zero_location (releaseUserNode None 1 ''alice''
        (newGateway empty_database [] sample_gwSettings))))) ''alice'' = Some ''node-a''"
  using late_record_strands_user [where g = "newGateway empty_database [] sample_gwSettings" and u = "''alice''"
      and n = 1 and ?t1.0 = 1 and ?t2.0 = 2 and ?t3.0 = 3 and ?t4.0 = 4 and ip = "''10.1.2.3''" and loc = zero_location,
      OF registry_ok_newGateway _ _ _ _ _ refl]
  by (simp add: newGateway_def sample_gwSettings_def indexed_def db_wf_empty) (simp add: empty_database_def)

end
