(* ===== verification/Node.thy ===== *)
theory Node
  imports Cli Proxy Convergence
begin

text \<open>
  A whole node as one transition system. Its state is the gateway, the logins that were
  accepted and have not become connections yet, and the goroutines that handlers have
  started (\<open>task\<close>); its steps are the handlers of the other theories, one step for each,
  in any order, with any answers of clients, peers, clock and database. The main loop of a
  connection (\<^verbatim>\<open>handleConnection\<close> of \<^verbatim>\<open>gateway/connection.go\<close>) is here as well. Two things are
  shown of every reachable state: that its tables are well formed, and that everything it
  does for a client is backed by the certificate the client authenticated with.
\<close>

section \<open>The loop of a connection\<close>

text \<open>What the select of the loop picks up, with what the ssh library answers in the handlers.\<close>

datatype connEvent =
    ConnDone
  | RequestsClosed
  | ChannelsClosed
  | RequestEvent fault sshRequest
  | ChannelEvent "nat \<Rightarrow> gotime" "nat \<Rightarrow> fault" "ref res" fault newChannel

text \<open>One turn: whether the loop goes on, the goroutines it started, and the gateway.\<close>

definition connectionEvent :: "ref \<Rightarrow> connEvent \<Rightarrow> gateway \<Rightarrow> bool \<times> task list \<times> gateway" where
  "connectionEvent r ev g =
     (case ev of
        ConnDone \<Rightarrow> (False, [], g)
      | RequestsClosed \<Rightarrow> (False, [], g)
      | ChannelsClosed \<Rightarrow> (False, [], g)
      | RequestEvent replyFault request \<Rightarrow>
          (case handleRequest replyFault request (gw_connection g r) of
             (err, c, _) \<Rightarrow> (err = None, [], modify_connection r (\<lambda>_. c) g))
      | ChannelEvent clk faults accept closeFault nc \<Rightarrow>
          (case handleChannel clk faults accept closeFault r nc g of
             (err, _, tasks, g') \<Rightarrow> (err = None, tasks, g')))"

text \<open>
  The loop alone, without other goroutines, and its deferred part; None while it waits for
  the next event.
\<close>

fun connectionLoop :: "fault \<Rightarrow> gotime \<Rightarrow> ref \<Rightarrow> connEvent list \<Rightarrow> gateway \<Rightarrow> (task list \<times> gateway) option" where
  "connectionLoop fault now r [] g = None"
| "connectionLoop fault now r (ev # evs) g =
     (case connectionEvent r ev g of
        (True, tasks, g') \<Rightarrow> map_option (\<lambda>(ts, g''). (tasks @ ts, g'')) (connectionLoop fault now r evs g')
      | (False, tasks, g') \<Rightarrow> Some (tasks, endConnection fault now r g'))"

section \<open>Well-formed gateways\<close>

definition tunnels_ok :: "gateway \<Rightarrow> bool" where
  "tunnels_ok g \<longleftrightarrow>
     (\<forall>r. let c = gw_connection g r
          in distinct (cn_tunnels c)
             \<and> cn_tunnelsOpened c = cn_tunnelsClosed c + of_nat (length (cn_tunnels c))
             \<and> (\<forall>t \<in> set (cn_tunnels c). t < gw_nextRef g \<and> tn_connection (gw_tunnel g t) = Some r))"

definition caches_ok :: "gateway \<Rightarrow> bool" where
  "caches_ok g \<longleftrightarrow>
     rc_invar (gw_routes g) \<and> msize (rc_entries (gw_routes g)) \<le> routeCacheMaxEntries
     \<and> mwf (gw_loginFlags g) \<and> msize (gw_loginFlags g) \<le> userFlagsMaxEntries
     \<and> gs_RevokeLoginFlags (gw_settings g) \<in> {None, Some revokeUserFlags}"

definition gateway_wf :: "gateway \<Rightarrow> bool" where
  "gateway_wf g \<longleftrightarrow> registry_ok g \<and> peers_ok g \<and> tunnels_ok g \<and> caches_ok g \<and> db_wf (gw_database g)"

text \<open>What never changes: the settings, and who a connection belongs to and what it may do.\<close>

definition same_identity :: "connection \<Rightarrow> connection \<Rightarrow> bool" where
  "same_identity c c' \<longleftrightarrow> cn_user c' = cn_user c \<and> cn_nodeId c' = cn_nodeId c
     \<and> cn_permitPortForwarding c' = cn_permitPortForwarding c \<and> cn_administrator c' = cn_administrator c"

definition static :: "gateway \<Rightarrow> gateway \<Rightarrow> bool" where
  "static g g' \<longleftrightarrow> gw_settings g' = gw_settings g \<and> gw_nextRef g \<le> gw_nextRef g'
     \<and> (\<forall>r < gw_nextRef g. same_identity (gw_connection g r) (gw_connection g' r))"

text \<open>A step that keeps the tables well formed and registers no connection.\<close>

definition safe_step :: "gateway \<Rightarrow> gateway \<Rightarrow> bool" where
  "safe_step g g' \<longleftrightarrow>
     (gateway_wf g \<longrightarrow> gateway_wf g' \<and> static g g' \<and> set (gw_connectionsList g') \<subseteq> set (gw_connectionsList g))"

lemma same_identity_refl [simp]: "same_identity c c"
  by (simp add: same_identity_def)

lemma static_refl [simp]: "static g g"
  by (simp add: static_def)

lemma static_trans: "static g g1 \<Longrightarrow> static g1 g2 \<Longrightarrow> static g g2"
  by (auto simp: static_def same_identity_def)

lemma safe_step_refl [simp]: "safe_step g g"
  by (simp add: safe_step_def)

lemma safe_step_trans [trans]: "safe_step g g1 \<Longrightarrow> safe_step g1 g2 \<Longrightarrow> safe_step g g2"
  by (auto simp: safe_step_def intro: static_trans)

lemma safe_step_fold: "(\<And>x g. safe_step g (f x g)) \<Longrightarrow> safe_step g (fold f xs g)"
  by (induction xs arbitrary: g) (auto intro: safe_step_trans)

section \<open>The atomic changes of a gateway\<close>

lemma tunnels_okD:
  assumes "tunnels_ok g"
  shows "distinct (cn_tunnels (gw_connection g r))"
    and "cn_tunnelsOpened (gw_connection g r) = cn_tunnelsClosed (gw_connection g r) + of_nat (length (cn_tunnels (gw_connection g r)))"
    and "t \<in> set (cn_tunnels (gw_connection g r)) \<Longrightarrow> t < gw_nextRef g \<and> tn_connection (gw_tunnel g t) = Some r"
  using assms by (auto simp: tunnels_ok_def Let_def)

lemma tunnels_ok_cong:
  assumes "tunnels_ok g" and "gw_nextRef g \<le> gw_nextRef g'"
    and "\<And>r. cn_tunnels (gw_connection g' r) = cn_tunnels (gw_connection g r)
        \<and> cn_tunnelsOpened (gw_connection g' r) = cn_tunnelsOpened (gw_connection g r)
        \<and> cn_tunnelsClosed (gw_connection g' r) = cn_tunnelsClosed (gw_connection g r)"
    and "\<And>t. t < gw_nextRef g \<Longrightarrow> tn_connection (gw_tunnel g' t) = tn_connection (gw_tunnel g t)"
  shows "tunnels_ok g'"
  using assms(1,2,4) unfolding tunnels_ok_def Let_def by (simp add: assms(3)) (metis less_le_trans)

lemma accept_wf:
  assumes "gateway_wf g"
  shows "gateway_wf (snd (acceptConnection ident perms user remote usage g))
    \<and> static g (snd (acceptConnection ident perms user remote usage g))"
proof -
  have "tunnels_ok g \<Longrightarrow> tunnels_ok (snd (acceptConnection ident perms user remote usage g))"
    by (auto simp: tunnels_ok_def acceptConnection_def addConnection_def newConnection_def Let_def less_Suc_eq)
  moreover have "peers_ok g \<Longrightarrow> peers_ok (snd (acceptConnection ident perms user remote usage g))"
    by (auto simp: peers_ok_def acceptConnection_def addConnection_def Let_def intro: less_SucI)
  moreover have "caches_ok (snd (acceptConnection ident perms user remote usage g)) = caches_ok g"
    "gw_database (snd (acceptConnection ident perms user remote usage g)) = gw_database g"
    "static g (snd (acceptConnection ident perms user remote usage g))"
    by (simp_all add: caches_ok_def static_def acceptConnection_def addConnection_def Let_def)
  ultimately show ?thesis
    using assms by (simp add: gateway_wf_def registry_ok_acceptConnection)
qed

text \<open>A change of one connection that keeps its identity and its tunnels.\<close>

lemma safe_modify_connection:
  assumes "\<And>c. same_identity c (f c) \<and> cn_tunnels (f c) = cn_tunnels c
      \<and> cn_tunnelsOpened (f c) = cn_tunnelsOpened c \<and> cn_tunnelsClosed (f c) = cn_tunnelsClosed c"
  shows "safe_step g (modify_connection r f g)"
proof -
  have "tunnels_ok g \<Longrightarrow> tunnels_ok (modify_connection r f g)"
    by (erule tunnels_ok_cong) (simp_all add: modify_connection_def assms)
  moreover have "registry_ok g \<Longrightarrow> registry_ok (modify_connection r f g)"
    using assms by (intro registry_ok_modify_connection) (simp_all add: same_identity_def)
  moreover have "peers_ok (modify_connection r f g) = peers_ok g" "caches_ok (modify_connection r f g) = caches_ok g"
    "gw_database (modify_connection r f g) = gw_database g" "static g (modify_connection r f g)"
    "gw_connectionsList (modify_connection r f g) = gw_connectionsList g"
    using assms by (simp_all add: peers_ok_def caches_ok_def static_def modify_connection_def)
  ultimately show ?thesis by (simp add: safe_step_def gateway_wf_def)
qed

lemma safe_database:
  assumes "db_wf (gw_database g) \<Longrightarrow> db_wf db"
  shows "safe_step g (g\<lparr>gw_database := db\<rparr>)"
  using assms by (simp add: safe_step_def gateway_wf_def peers_ok_def tunnels_ok_def caches_ok_def static_def Let_def)

lemma safe_routes:
  assumes "caches_ok g \<Longrightarrow> rc_invar routes \<and> msize (rc_entries routes) \<le> routeCacheMaxEntries"
  shows "safe_step g (g\<lparr>gw_routes := routes\<rparr>)"
  using assms by (simp add: safe_step_def gateway_wf_def peers_ok_def registry_ok_def indexed_def tunnels_ok_def
      caches_ok_def static_def Let_def)

lemma safe_flags:
  assumes "caches_ok g \<Longrightarrow> mwf flags \<and> msize flags \<le> userFlagsMaxEntries"
  shows "safe_step g (g\<lparr>gw_loginFlags := flags\<rparr>)"
  using assms by (simp add: safe_step_def gateway_wf_def peers_ok_def registry_ok_def indexed_def tunnels_ok_def
      caches_ok_def static_def Let_def)

lemma tunnels_ok_newTunnel:
  assumes "tunnels_ok g"
  shows "tunnels_ok (snd (newTunnel conn ch ty d m g))"
proof -
  let ?g = "snd (newTunnel conn ch ty d m g)"
  have fresh: "gw_nextRef g \<notin> set (cn_tunnels (gw_connection g r))" for r
    using tunnels_okD(3) [OF assms, of "gw_nextRef g" r] by blast
  have conn: "gw_connection ?g r = (if conn = Some r then addTunnel (gw_nextRef g) (gw_connection g r) else gw_connection g r)" for r
    by (auto simp: newTunnel_def Let_def modify_connection_def split: option.splits)
  have old: "t \<in> set (cn_tunnels (gw_connection g r)) \<Longrightarrow>
      t < gw_nextRef ?g \<and> tn_connection (gw_tunnel ?g t) = Some r" for t r
    using tunnels_okD(3) [OF assms, of t r] by (auto simp: newTunnel_store)
  show ?thesis
    unfolding tunnels_ok_def Let_def
    using tunnels_okD(1,2) [OF assms] fresh old
    by (auto simp: conn addTunnel_def newTunnel_store make_tunnel_def algebra_simps)
qed

lemma safe_newTunnel: "safe_step g (snd (newTunnel conn ch ty d m g))"
proof -
  let ?g = "snd (newTunnel conn ch ty d m g)"
  note same = same_but_objects_fields [OF newTunnel_frame [of g conn ch ty d m]]
  have next_ref: "gw_nextRef g \<le> gw_nextRef ?g" by (simp add: newTunnel_store)
  have "registry_ok g \<Longrightarrow> registry_ok ?g"
    by (erule registry_ok_same_but_objects [OF _ newTunnel_frame next_ref])
  moreover have "peers_ok g \<Longrightarrow> peers_ok ?g"
    using next_ref by (auto simp: peers_ok_def same intro: less_le_trans)
  moreover have "static g ?g"
    using next_ref unfolding static_def same
    by (auto simp: newTunnel_def Let_def modify_connection_def same_identity_def addTunnel_def split: option.splits)
  ultimately show ?thesis
    by (simp add: safe_step_def gateway_wf_def tunnels_ok_newTunnel caches_ok_def same)
qed

lemma safe_modify_tunnel:
  assumes "\<And>t. tn_connection (f t) = tn_connection t"
  shows "safe_step g (modify_tunnel t f g)"
proof -
  have "tunnels_ok g \<Longrightarrow> tunnels_ok (modify_tunnel t f g)"
    by (erule tunnels_ok_cong) (simp_all add: modify_tunnel_def assms)
  then show ?thesis
    by (simp add: safe_step_def gateway_wf_def peers_ok_def registry_ok_def indexed_def caches_ok_def static_def
        modify_tunnel_def)
qed

lemma deleteTunnel_counts:
  assumes "distinct ts" and "t \<in> set ts" and "opened = closed + of_nat (length ts)"
  shows "opened = closed + 1 + (of_nat (length (filter (\<lambda>x. x \<noteq> t) ts)) :: u64)"
proof -
  have "filter (\<lambda>x. x \<noteq> t) ts = remove1 t ts"
    using assms(1) by (simp add: distinct_remove1_removeAll removeAll_filter_not_eq eq_commute)
  moreover have "length ts = Suc (length (remove1 t ts))"
    using assms(2) length_pos_if_in_set [OF assms(2)] by (simp add: length_remove1)
  ultimately show ?thesis using assms(3) by simp
qed

lemma safe_finishTunnel:
  assumes "t \<in> set (cn_tunnels (gw_connection g r))"
  shows "safe_step g (finishTunnel t g)"
proof -
  have "tunnels_ok (finishTunnel t g) \<and> registry_ok (finishTunnel t g) \<and> static g (finishTunnel t g)"
    if ok: "tunnels_ok g" "registry_ok g"
  proof -
    have finish: "finishTunnel t g = modify_connection r (deleteTunnel t) g"
      using tunnels_okD(3) [OF ok(1) assms] by (simp add: finishTunnel_def)
    have "tunnels_ok (modify_connection r (deleteTunnel t) g)"
      using tunnels_okD [OF ok(1)] deleteTunnel_counts [OF _ assms tunnels_okD(2) [OF ok(1)]]
      by (auto simp: tunnels_ok_def modify_connection_def deleteTunnel_def Let_def)
    moreover have "registry_ok (modify_connection r (deleteTunnel t) g)"
      using ok(2) by (rule registry_ok_modify_connection) (simp add: deleteTunnel_def)
    moreover have "static g (modify_connection r (deleteTunnel t) g)"
      by (simp add: static_def modify_connection_def same_identity_def deleteTunnel_def)
    ultimately show ?thesis by (simp add: finish)
  qed
  moreover have "peers_ok (finishTunnel t g) = peers_ok g" "caches_ok (finishTunnel t g) = caches_ok g"
    "gw_database (finishTunnel t g) = gw_database g" "gw_connectionsList (finishTunnel t g) = gw_connectionsList g"
    by (simp_all add: finishTunnel_def peers_ok_def caches_ok_def modify_connection_def split: option.splits)
  ultimately show ?thesis by (simp add: safe_step_def gateway_wf_def)
qed

lemma safe_deleteConnection: "safe_step g (deleteConnection r g)"
  by (simp add: safe_step_def gateway_wf_def registry_ok_deleteConnection)
     (simp add: peers_ok_def tunnels_ok_def caches_ok_def static_def deleteConnection_def Let_def)

text \<open>A change of the peers alone.\<close>

definition same_but_peers :: "gateway \<Rightarrow> gateway \<Rightarrow> bool" where
  "same_but_peers g g' \<longleftrightarrow>
     (\<exists>ps pe n. g' = g\<lparr>gw_peers := ps, gw_peer := pe, gw_nextRef := n\<rparr> \<and> gw_nextRef g \<le> n)"

lemma safe_peers:
  assumes "peers_ok g \<Longrightarrow> peers_ok g'" and "same_but_peers g g'"
  shows "safe_step g g'"
proof -
  obtain ps pe n where g': "g' = g\<lparr>gw_peers := ps, gw_peer := pe, gw_nextRef := n\<rparr>" and n: "gw_nextRef g \<le> n"
    using assms(2) unfolding same_but_peers_def by blast
  have "tunnels_ok g \<Longrightarrow> tunnels_ok g'"
    using n by (intro tunnels_ok_cong [of g g']) (simp_all add: g')
  moreover have "registry_ok g \<Longrightarrow> registry_ok g'"
    using n by (auto simp: g' registry_ok_def indexed_def)
  moreover have "static g g'" "caches_ok g' = caches_ok g" "gw_database g' = gw_database g"
    "gw_connectionsList g' = gw_connectionsList g"
    using n by (simp_all add: g' static_def caches_ok_def)
  ultimately show ?thesis using assms(1) by (simp add: safe_step_def gateway_wf_def)
qed

lemma same_but_peersI:
  "g' = g\<lparr>gw_peers := gw_peers g', gw_peer := gw_peer g', gw_nextRef := gw_nextRef g'\<rparr> \<Longrightarrow>
     gw_nextRef g \<le> gw_nextRef g' \<Longrightarrow> same_but_peers g g'"
  unfolding same_but_peers_def by blast

lemma same_but_peers_ops:
  "same_but_peers g g" "same_but_peers g (snd (newPeer n g))" "same_but_peers g (removePeer p g)"
  "same_but_peers g (peer_close p g)" "same_but_peers g (snd (addPeer p g))"
  by (rule same_but_peersI; simp add: newPeer_def removePeer_def peer_close_def addPeer_def split: option.split)+

lemma same_but_peers_trans: "same_but_peers g g1 \<Longrightarrow> same_but_peers g1 g2 \<Longrightarrow> same_but_peers g g2"
proof -
  assume "same_but_peers g g1" and "same_but_peers g1 g2"
  then obtain ps pe n ps' pe' n' where "g1 = g\<lparr>gw_peers := ps, gw_peer := pe, gw_nextRef := n\<rparr>" "gw_nextRef g \<le> n"
      "g2 = g1\<lparr>gw_peers := ps', gw_peer := pe', gw_nextRef := n'\<rparr>" "gw_nextRef g1 \<le> n'"
    unfolding same_but_peers_def by blast
  then have "g2 = g\<lparr>gw_peers := ps', gw_peer := pe', gw_nextRef := n'\<rparr>" "gw_nextRef g \<le> n'" by simp_all
  then show ?thesis unfolding same_but_peers_def by blast
qed

lemmas safe_removePeer = safe_peers [OF peers_ok_remove same_but_peers_ops(3)]
lemmas safe_peer_close = safe_peers [OF peers_ok_close same_but_peers_ops(4)]

lemma safe_connectToPeer: "safe_step g (snd (connectToPeer fmt dial node g))"
proof (rule safe_peers)
  have added: "same_but_peers g (snd (addPeer p (snd (newPeer n g))))" for p n
    by (rule same_but_peers_trans [OF same_but_peers_ops(2,5)])
  show "same_but_peers g (snd (connectToPeer fmt dial node g))"
    by (cases fmt dial node g rule: connectToPeer_cases)
       (simp_all add: added same_but_peers_ops(1) same_but_peers_trans [OF added same_but_peers_ops(4)])
qed (rule connectToPeer_table(1))

lemma safe_endPeer: "safe_step g (endPeer p g)"
  unfolding endPeer_def by (rule safe_step_trans [OF safe_peer_close safe_removePeer])

lemma safe_closeConnection: "safe_step g (closeConnection r g)"
  unfolding closeConnection_def
  by (rule safe_modify_connection) (simp add: connection_close_def same_identity_def)

section \<open>The handlers are made of safe steps\<close>

lemma safe_openTunnel:
  "safe_step g (snd (connection_openTunnel answer r ty d m g))" "safe_step g (snd (peer_openTunnel answer p ty d m g))"
  by (cases answer; simp add: connection_openTunnel_def peer_openTunnel_def case_prod_beta safe_newTunnel)+

lemma fold_rc_invalidate_ok:
  "rc_invar c \<Longrightarrow> msize (rc_entries c) \<le> routeCacheMaxEntries \<Longrightarrow>
     rc_invar (fold rc_invalidate us c) \<and> msize (rc_entries (fold rc_invalidate us c)) \<le> routeCacheMaxEntries"
proof (induction us arbitrary: c)
  case (Cons u us)
  have "msize (rc_entries (rc_invalidate u c)) \<le> routeCacheMaxEntries"
    using rc_invalidate_laws(3) [of u c] Cons.prems(2) by linarith
  with Cons.IH [of "rc_invalidate u c"] Cons.prems(1) show ?case by (simp add: rc_invalidate_laws(2))
qed simp

lemma safe_invalidateRoutes: "safe_step g (invalidateRoutes host g)"
  unfolding invalidateRoutes_def by (rule safe_routes) (simp add: caches_ok_def fold_rc_invalidate_ok)

lemma safe_useRoute: "safe_step g (snd (useRoute now now' user nodeId cached g))"
proof -
  have "safe_step g (g\<lparr>gw_routes := rc_put now now' user nodeId (gw_routes g)\<rparr>)"
    by (rule safe_routes) (simp add: caches_ok_def rc_put_invar rc_put_size)
  moreover have "safe_step g (g\<lparr>gw_routes := rc_invalidate user (gw_routes g)\<rparr>)"
    using fold_rc_invalidate_ok [of "gw_routes g" "[user]"] by (intro safe_routes) (simp add: caches_ok_def)
  ultimately show ?thesis by (simp add: useRoute_def split: option.split)
qed

lemma safe_remoteRound: "safe_step g (snd (remoteRound clk faults i user g))"
  by (simp add: remoteRound_def safe_useRoute split: option.split sum.split)

lemma safe_lookupRemoteUsers: "safe_step g (snd (lookupRemoteUsers clk faults i users g))"
proof (induction users arbitrary: i g)
  case (Cons user users)
  obtain p g1 where round: "remoteRound clk faults i user g = (p, g1)" by (metis surj_pair)
  have "safe_step g g1" using safe_remoteRound [of g clk faults i user] round by simp
  then have "safe_step g (snd (lookupRemoteUsers clk faults (Suc i) users g1))"
    using Cons.IH [of g1 "Suc i"] by (rule safe_step_trans)
  with Cons.IH [of g "Suc i"] round \<open>safe_step g g1\<close> show ?case
    by (simp add: lookupRemoteUsers_Cons del: lookupRemoteUsers.simps split: option.split)
qed simp

lemma safe_lookupRemotePeer: "safe_step g (snd (lookupRemotePeer clk faults host g))"
  by (simp add: lookupRemotePeer_def safe_lookupRemoteUsers)

lemma safe_openServiceTunnel: "safe_step g (snd (openServiceTunnel clk faults answer host port oa op g))"
proof (cases "lookupConnectionService host port g")
  case (Some found)
  then show ?thesis by (simp add: openServiceTunnel_def Let_def safe_openTunnel split: prod.split)
next
  case None
  obtain p g1 where remote: "lookupRemotePeer clk faults host g = (p, g1)" by (metis surj_pair)
  have "safe_step g g1" using safe_lookupRemotePeer [of g clk faults host] remote by simp
  moreover have "safe_step g1 (snd (openServiceTunnel clk faults answer host port oa op g))"
  proof (cases p)
    case (Some q)
    obtain res g2 where o: "peer_openTunnel answer q ''direct-tcpip''
        (marshalTunnelData \<lparr>td_Host = host, td_Port = ucast port, td_OriginAddress = oa, td_OriginPort = op\<rparr>)
        (serviceMetadata host (unat port) oa) g1 = (res, g2)" by (metis surj_pair)
    have "safe_step g1 g2" using safe_openTunnel(2) [of g1 answer q "''direct-tcpip''"] o by (metis snd_conv)
    with Some None remote o show ?thesis
      by (cases res) (auto simp: openServiceTunnel_def Let_def intro: safe_step_trans safe_invalidateRoutes)
  qed (simp add: openServiceTunnel_def None remote Let_def)
  ultimately show ?thesis by (rule safe_step_trans)
qed

lemma handleChannel_gateway:
  "handleChannel clk faults accept closeFault r nc g = (err, refused, tasks, g') \<Longrightarrow>
     g' = g \<or> (\<exists>host. g' = snd (lookupRemotePeer clk faults host g))"
  by (auto simp: handleChannel_def handleTunnelChannel_def Let_def
      split: sum.splits if_splits option.splits prod.splits) (metis snd_conv)+

lemma safe_handleChannel:
  "handleChannel clk faults accept closeFault r nc g = (err, refused, tasks, g') \<Longrightarrow> safe_step g g'"
  using handleChannel_gateway safe_lookupRemotePeer by (metis safe_step_refl)

lemma safe_close_tunnel: "safe_step g (modify_tunnel t tunnel_close g)"
  by (rule safe_modify_tunnel) (simp add: tunnel_close_def)

lemma safe_startTunnel: "safe_step g (snd (snd (startTunnel answer tk g)))"
proof -
  obtain this g1 where n: "newTunnel (Some (tk_connection tk)) (tk_channel tk) (nc_ChannelType (tk_newChannel tk))
      (nc_ExtraData (tk_newChannel tk)) (thisMetadata tk g) g = (this, g1)" by (metis surj_pair)
  obtain res g2 where o: "openTarget answer tk (otherMetadata tk g1) g1 = (res, g2)" by (metis surj_pair)
  have "safe_step g g1" using safe_newTunnel n by (metis snd_conv)
  also have "safe_step g1 g2"
    using o safe_openTunnel by (simp add: openTarget_def split: target.splits) (metis snd_conv)+
  also have "safe_step g2 (snd (snd (startTunnel answer tk g)))"
    using n o safe_close_tunnel safe_step_trans [OF safe_invalidateRoutes safe_close_tunnel]
    by (cases res; cases "tk_target tk") (simp_all add: startTunnel_def Let_def)
  finally show ?thesis .
qed

lemma safe_handleRequest:
  assumes "handleRequest f rq (gw_connection g r) = (err, c, reply)"
  shows "safe_step g (modify_connection r (\<lambda>_. c) g)"
proof -
  have "modify_connection r (\<lambda>_. c) g = modify_connection r (\<lambda>x. x\<lparr>cn_services := cn_services c\<rparr>) g"
    using handleRequest_keeps [OF assms] by (simp add: modify_connection_def)
  then show ?thesis
    using safe_modify_connection [of "\<lambda>x. x\<lparr>cn_services := cn_services c\<rparr>"] by (simp add: same_identity_def)
qed

lemma safe_connectionEvent: "connectionEvent r ev g = (continue, tasks, g') \<Longrightarrow> safe_step g g'"
  by (auto simp: connectionEvent_def split: connEvent.splits prod.splits
      intro: safe_handleRequest safe_handleChannel)

lemma safe_kickUser: "safe_step g (snd (kickUser caller user g))"
proof -
  have loop: "safe_step h (snd (kickLoop caller user rs h))" for rs h
    by (induction rs arbitrary: h) (auto intro: safe_step_trans safe_closeConnection)
  have "safe_step g (case gs_RevokeLoginFlags (gw_settings g) of
      None \<Rightarrow> g | Some revoke \<Rightarrow> g\<lparr>gw_loginFlags := revoke user (gw_loginFlags g)\<rparr>)"
  proof (cases "gs_RevokeLoginFlags (gw_settings g)")
    case (Some revoke)
    have "mwf (revoke user (gw_loginFlags g)) \<and> msize (revoke user (gw_loginFlags g)) \<le> userFlagsMaxEntries"
      if "caches_ok g"
      using that Some order_trans [OF msize_mdel_le [of user "gw_loginFlags g"]]
      by (auto simp: caches_ok_def revokeUserFlags_def mwf_mdel)
    with Some show ?thesis by (simp add: safe_flags)
  qed simp
  then show ?thesis unfolding kickUser_def Let_def by (rule safe_step_trans) (rule loop)
qed

lemma safe_ScavengeConnections: "safe_step g (ScavengeConnections clk timeout g)"
proof -
  have "safe_step h (scavengeLoop clk timeout i rs h)" for i rs h
  proof (induction rs arbitrary: i h)
    case (Cons r rs)
    from safe_step_trans [OF safe_closeConnection Cons.IH] Cons.IH show ?case by simp
  qed simp
  then show ?thesis by (simp add: ScavengeConnections_def)
qed

lemma safe_releaseUserNode: "safe_step g (releaseUserNode fault now userId g)"
  by (simp add: releaseUserNode_def releaseClear_def safe_database db_wf_ops)

lemma safe_endConnection: "safe_step g (endConnection fault now r g)"
  unfolding endConnection_def by (rule safe_step_trans [OF safe_deleteConnection safe_releaseUserNode])

lemma safe_onlineBeat: "safe_step g (onlineBeat fault releaseFault now now' g)"
proof -
  have mark: "safe_step g (snd (markOnline fault now userIds g))" for userIds
    by (simp add: markOnline_def case_prod_beta safe_database db_wf_ops)
  show ?thesis
  proof (cases "markOnline fault now (connectedUserIds g) g")
    case (Pair res g1)
    with mark [of "connectedUserIds g"] have "safe_step g g1" by simp
    moreover have "safe_step g1 (fold (\<lambda>userId. releaseUserNode (releaseFault userId) now' userId) us g1)" for us
      by (rule safe_step_fold) (rule safe_releaseUserNode)
    ultimately show ?thesis
      using Pair by (auto simp: onlineBeat_def Let_def split: sum.split intro: safe_step_trans)
  qed
qed

lemma safe_registerNode: "safe_step g (snd (registerNode fmt fault now now' online g))"
proof -
  have "db_PutNode fault now' n md db = (res, db') \<Longrightarrow> db_wf db \<Longrightarrow> db_wf db'" for n md db res db'
    using db_wf_ops(7) by (metis snd_conv)
  then show ?thesis
    by (auto simp: registerNode_def Let_def split: prod.split sum.split intro!: safe_database)
qed

lemma safe_peerRound: "safe_step g (snd (peerRound fmt putFault listFault clk now now' ping g))"
proof -
  have "safe_step h (evictPeers ping ps h)" for ps h
  proof (induction ps arbitrary: h)
    case (Cons p ps)
    from safe_step_trans [OF safe_step_trans [OF safe_removePeer safe_peer_close] Cons.IH] Cons.IH
    show ?case by (simp split: option.split)
  qed simp
  with safe_registerNode show ?thesis by (simp add: peerRound_def Let_def) (rule safe_step_trans)
qed

lemma safe_gateway_Close: "safe_step g (gateway_Close fmt fault now now' g)"
proof -
  have "safe_step g (g\<lparr>gw_done := True\<rparr>)"
    by (simp add: safe_step_def gateway_wf_def registry_ok_def indexed_def peers_ok_def tunnels_ok_def caches_ok_def
        static_def Let_def)
  then show ?thesis
    unfolding gateway_Close_def Let_def
    by (rule safe_step_trans) (rule safe_step_trans [OF safe_step_fold safe_step_trans [OF safe_step_fold safe_registerNode]]
        | rule safe_closeConnection safe_peer_close)+
qed

lemma service_write_gateway [simp]:
  "fst (snd (service_write env d s)) = fst s" "fst (snd (service_marshal env v s)) = fst s"
  "fst (snd (printResult env res s)) = fst s" "fst (snd (service_help env r s)) = fst s"
  "fst (snd (service_version env s)) = fst s" "fst (snd (service_status env r user s)) = fst s"
proof -
  show w: "fst (snd (service_write env d s)) = fst s" for d
    by (cases s) (simp add: service_write_def split: option.split)
  show m: "fst (snd (service_marshal env v s)) = fst s" for v
    by (simp add: service_marshal_def w split: option.split)
  show "fst (snd (printResult env res s)) = fst s" by (simp add: printResult_def m split: sum.split)
qed (simp_all add: service_help_def service_version_def service_status_def service_write_def service_marshal_def Let_def
  split: option.split prod.split)

lemma service_ping_gateway [simp]: "fst (snd (service_ping env s)) = fst s"
proof -
  obtain res s1 where w: "service_write env (Report (PingReport (gs_Version (gw_settings (fst s))) (sv_clk env 0))) s = (res, s1)"
    by (metis surj_pair)
  then have "fst s1 = fst s" by (metis service_write_gateway(1) snd_conv)
  with w show ?thesis by (simp add: service_ping_def Let_def split: option.split sum.split)
qed

lemma safe_reports:
  "safe_step (fst s) (fst (snd (service_reportStatus sh env r s)))"
  "safe_step (fst s) (fst (snd (service_reportScreenshot sh env r s)))"
  by (cases s; simp add: service_reportStatus_def service_reportScreenshot_def conn_reportStatus_def conn_reportScreenshot_def
      case_prod_beta safe_database db_wf_ops split: sum.split option.split)+

lemma safe_handleCommand: "safe_step (fst s) (fst (snd (handleCommand sh env r command s)))"
  using safe_reports safe_kickUser
  by (simp add: handleCommand_def Let_def ret_def service_kickUser_def service_listUsers_def service_listOnlineUsers_def
      service_listLocalOnlineUsers_def service_getUser_def case_prod_beta)

section \<open>Logins\<close>

definition auth_state :: "gateway \<Rightarrow> authState" where
  "auth_state g = \<lparr>au_userFlags = gw_loginFlags g, au_database = gw_database g\<rparr>"

definition with_auth_state :: "authState \<Rightarrow> gateway \<Rightarrow> gateway" where
  "with_auth_state st g = g\<lparr>gw_loginFlags := au_userFlags st, gw_database := au_database st\<rparr>"

definition auth_state_ok :: "authState \<Rightarrow> bool" where
  "auth_state_ok st \<longleftrightarrow> mwf (au_userFlags st) \<and> msize (au_userFlags st) \<le> userFlagsMaxEntries \<and> db_wf (au_database st)"

lemma safe_with_auth_state:
  assumes "auth_state_ok (auth_state g) \<Longrightarrow> auth_state_ok st"
  shows "safe_step g (with_auth_state st g)"
proof -
  have "safe_step g (with_auth_state st g)" if "auth_state_ok st"
    unfolding with_auth_state_def
    using that by (intro safe_step_trans [OF safe_flags [of g "au_userFlags st"] safe_database]) (auto simp: auth_state_ok_def)
  moreover have "gateway_wf g \<Longrightarrow> auth_state_ok (auth_state g)"
    by (simp add: gateway_wf_def caches_ok_def auth_state_ok_def auth_state_def)
  ultimately show ?thesis using assms by (auto simp: safe_step_def)
qed

lemma getUserFlags_ok:
  "mwf c \<Longrightarrow> msize c \<le> n \<Longrightarrow> getUserFlags now u c = (res, c') \<Longrightarrow> mwf c' \<and> msize c' \<le> n"
  using order_trans [OF msize_mdel_le [of u c]]
  by (auto simp: getUserFlags_def mwf_mdel split: option.splits if_splits)

lemma authenticate_state_ok:
  assumes "auth_state_ok st"
  shows "auth_state_ok (fst (snd (authenticate verify geoip settings fault clk meta key st)))"
proof -
  obtain flags cache where f: "getUserFlags (clk 1) (cm_User meta) (au_userFlags st) = (flags, cache)" by (metis surj_pair)
  have cache: "mwf cache" "msize cache \<le> userFlagsMaxEntries"
    using getUserFlags_ok [OF _ _ f] assms by (auto simp: auth_state_ok_def)
  obtain res db where u: "db_UpsertUserOnConnect fault (clk 2) (cm_User meta) (cm_RemoteIP meta)
      (lookupLocation geoip (cm_RemoteIP meta)) (as_NodeID settings) (au_database st) = (res, db)" by (metis surj_pair)
  have "db_wf db" using db_wf_ops(3) [of "au_database st"] assms u by (metis auth_state_ok_def snd_conv)
  then show ?thesis
    using assms cache
    by (auto simp: authenticate_def f [unfolded One_nat_def] u Let_def auth_state_ok_def putUserFlags_wf putUserFlags_size
        split: sum.split option.split)
qed

lemma safe_login:
  assumes "publickeyAuth (publicKeyCallback verify geoip settings fault clk meta) check req (auth_state g) = (outcome, st)"
  shows "safe_step g (with_auth_state st g)"
proof (rule safe_with_auth_state)
  assume "auth_state_ok (auth_state g)"
  moreover have "st = fst (snd (authenticate verify geoip settings fault clk meta (pk_key req) (auth_state g)))"
    using assms publickeyAuth_state [of "publicKeyCallback verify geoip settings fault clk meta" check req "auth_state g"]
    by (simp add: publicKeyCallback_def case_prod_beta)
  ultimately show "auth_state_ok st" by (simp add: authenticate_state_ok)
qed

lemma safe_record:
  "safe_step g (with_auth_state (snd (recordLoginWrite geoip settings fault now meta (auth_state g))) g)"
  "safe_step g (with_auth_state (recordLoginCache now now' user res (auth_state g)) g)"
proof -
  show "safe_step g (with_auth_state (snd (recordLoginWrite geoip settings fault now meta (auth_state g))) g)"
    by (rule safe_with_auth_state)
       (simp add: recordLoginWrite_def auth_state_ok_def case_prod_beta db_wf_ops)
  show "safe_step g (with_auth_state (recordLoginCache now now' user res (auth_state g)) g)"
    by (rule safe_with_auth_state)
       (simp add: recordLoginCache_def auth_state_ok_def putUserFlags_wf putUserFlags_size split: sum.split)
qed

section \<open>The transition system\<close>

record nodeState =
  ns_gateway :: gateway
  ns_connecting :: "(string \<times> permissions) list"
  ns_tasks :: "task list"

inductive node_step ::
    "(certificate \<Rightarrow> bool) \<Rightarrow> authSettings \<Rightarrow> nodeState \<Rightarrow> nodeState \<Rightarrow> bool" for verify settings where
  login: "publickeyAuth (publicKeyCallback verify geoip settings fault clk meta) check req (auth_state (ns_gateway s)) =
      (outcome, st) \<Longrightarrow>
    node_step verify settings s (s\<lparr>ns_gateway := with_auth_state st (ns_gateway s),
      ns_connecting := (case outcome of AuthAccepted perms \<Rightarrow> (cm_User meta, perms) # ns_connecting s | _ \<Rightarrow> ns_connecting s)\<rparr>)"
| record_write: "node_step verify settings s (s\<lparr>ns_gateway :=
      with_auth_state (snd (recordLoginWrite geoip settings fault now meta (auth_state (ns_gateway s)))) (ns_gateway s)\<rparr>)"
| record_cache: "node_step verify settings s (s\<lparr>ns_gateway :=
      with_auth_state (recordLoginCache now now' user res (auth_state (ns_gateway s))) (ns_gateway s)\<rparr>)"
| accept: "(user, perms) \<in> set (ns_connecting s) \<Longrightarrow>
    node_step verify settings s (s\<lparr>ns_gateway := snd (acceptConnection ident perms user remote usage (ns_gateway s)),
      ns_connecting := remove1 (user, perms) (ns_connecting s)\<rparr>)"
| event: "r \<in> set (gw_connectionsList (ns_gateway s)) \<Longrightarrow> connectionEvent r ev (ns_gateway s) = (continue, tasks, g') \<Longrightarrow>
    node_step verify settings s (s\<lparr>ns_gateway := g', ns_tasks := tasks @ ns_tasks s\<rparr>)"
| ended: "r \<in> set (gw_connectionsList (ns_gateway s)) \<Longrightarrow>
    node_step verify settings s (s\<lparr>ns_gateway := endConnection fault now r (ns_gateway s)\<rparr>)"
| session_command: "RunSession r ch \<in> set (ns_tasks s) \<Longrightarrow> handleCommand sh env r command (ns_gateway s, io) = (out, g', io') \<Longrightarrow>
    node_step verify settings s (s\<lparr>ns_gateway := g'\<rparr>)"
| tunnel_started: "RunTunnel tk \<in> set (ns_tasks s) \<Longrightarrow> startTunnel answer tk (ns_gateway s) = (this, other, g') \<Longrightarrow>
    node_step verify settings s (s\<lparr>ns_gateway := g', ns_tasks := remove1 (RunTunnel tk) (ns_tasks s)\<rparr>)"
| task_ended: "node_step verify settings s (s\<lparr>ns_tasks := remove1 t (ns_tasks s)\<rparr>)"
| tunnel_closed: "node_step verify settings s (s\<lparr>ns_gateway := modify_tunnel t tunnel_close (ns_gateway s)\<rparr>)"
| tunnel_finished: "t \<in> set (cn_tunnels (gw_connection (ns_gateway s) r)) \<Longrightarrow>
    node_step verify settings s (s\<lparr>ns_gateway := finishTunnel t (ns_gateway s)\<rparr>)"
| service_tunnel: "node_step verify settings s
    (s\<lparr>ns_gateway := snd (openServiceTunnel clk faults answer host port originAddress originPort (ns_gateway s))\<rparr>)"
| scavenged: "node_step verify settings s (s\<lparr>ns_gateway := ScavengeConnections clk timeout (ns_gateway s)\<rparr>)"
| online_beat: "node_step verify settings s (s\<lparr>ns_gateway := onlineBeat fault releaseFault now now' (ns_gateway s)\<rparr>)"
| peer_connected: "node_step verify settings s (s\<lparr>ns_gateway := snd (connectToPeer fmt dial node (ns_gateway s))\<rparr>)"
| peer_ended: "node_step verify settings s (s\<lparr>ns_gateway := endPeer p (ns_gateway s)\<rparr>)"
| peer_round: "node_step verify settings s
    (s\<lparr>ns_gateway := snd (peerRound fmt putFault listFault clk now now' ping (ns_gateway s))\<rparr>)"
| closed: "node_step verify settings s (s\<lparr>ns_gateway := gateway_Close fmt fault now now' (ns_gateway s)\<rparr>)"

definition node_start :: "gateway \<Rightarrow> nodeState" where
  "node_start g = \<lparr>ns_gateway = g, ns_connecting = [], ns_tasks = []\<rparr>"

abbreviation node_reachable :: "(certificate \<Rightarrow> bool) \<Rightarrow> authSettings \<Rightarrow> gateway \<Rightarrow> nodeState \<Rightarrow> bool" where
  "node_reachable verify settings g s \<equiv> (node_step verify settings)\<^sup>*\<^sup>* (node_start g) s"

lemma node_step_safe:
  assumes "node_step verify settings s s'"
  shows "safe_step (ns_gateway s) (ns_gateway s')
    \<or> (\<exists>ident perms user remote usage. (user, perms) \<in> set (ns_connecting s)
          \<and> s' = s\<lparr>ns_gateway := snd (acceptConnection ident perms user remote usage (ns_gateway s)),
              ns_connecting := remove1 (user, perms) (ns_connecting s)\<rparr>)"
  using assms
proof (induction rule: node_step.induct)
  case (accept user perms s ident remote usage)
  then show ?case by blast
next
  case (session_command r ch s sh env command io out g' io')
  then show ?case using safe_handleCommand [of "(ns_gateway s, io)" sh env r command] by simp
next
  case (tunnel_started tk s answer this other g')
  then show ?case using safe_startTunnel [of "ns_gateway s" answer tk] by simp
next
  case (event r s ev continue tasks g')
  then show ?case using safe_connectionEvent by simp
next
  case (tunnel_finished t s r)
  then show ?case by (simp add: safe_finishTunnel)
qed (simp_all add: safe_login safe_record safe_endConnection safe_close_tunnel safe_openServiceTunnel
    safe_ScavengeConnections safe_onlineBeat safe_connectToPeer safe_endPeer safe_peerRound safe_gateway_Close)

section \<open>What backs a connection\<close>

text \<open>A connection is backed by a certificate that was valid when its client authenticated.\<close>

definition backed :: "(certificate \<Rightarrow> bool) \<Rightarrow> authSettings \<Rightarrow> connection \<Rightarrow> bool" where
  "backed verify settings c \<longleftrightarrow>
     (\<exists>cert now.
        if cn_nodeId c = []
        then ct_SignatureKey cert \<in> set (as_CAPublicKeys settings) \<and> cert_valid_for verify now (cn_user c) cert
          \<and> (cn_permitPortForwarding c \<longrightarrow> mget (pm_Extensions (ct_Permissions cert)) ''permit-port-forwarding'' \<noteq> None)
        else ct_SignatureKey cert \<in> set (as_PeerCAPublicKeys settings) \<and> cert_valid_for verify now PeerUser cert
          \<and> ct_KeyId cert = cn_nodeId c \<and> cn_user c = [] \<and> \<not> cn_permitPortForwarding c \<and> \<not> cn_administrator c)"

text \<open>What a goroutine may do for the connection it belongs to.\<close>

definition task_backed :: "(certificate \<Rightarrow> bool) \<Rightarrow> authSettings \<Rightarrow> gateway \<Rightarrow> task \<Rightarrow> bool" where
  "task_backed verify settings g t =
     (case t of
        RunSession r ch \<Rightarrow> backed verify settings (gw_connection g r) \<and> cn_nodeId (gw_connection g r) = []
      | BridgePostgres r ch address \<Rightarrow> backed verify settings (gw_connection g r) \<and> cn_nodeId (gw_connection g r) \<noteq> []
          \<and> address = gs_PostgresAddress (gw_settings g) \<and> address \<noteq> []
      | RunTunnel tk \<Rightarrow> backed verify settings (gw_connection g (tk_connection tk))
          \<and> (cn_permitPortForwarding (gw_connection g (tk_connection tk)) \<or> cn_nodeId (gw_connection g (tk_connection tk)) \<noteq> [])
          \<and> (case tk_target tk of
               PeerTarget p \<Rightarrow> cn_nodeId (gw_connection g (tk_connection tk)) = []
             | ConnectionTarget c h p \<Rightarrow> True)
      | DiscardRequests r ch \<Rightarrow> True)"

fun task_owner :: "task \<Rightarrow> ref" where
  "task_owner (RunSession r ch) = r"
| "task_owner (BridgePostgres r ch address) = r"
| "task_owner (RunTunnel tk) = tk_connection tk"
| "task_owner (DiscardRequests r ch) = r"

definition node_inv :: "(certificate \<Rightarrow> bool) \<Rightarrow> authSettings \<Rightarrow> nodeState \<Rightarrow> bool" where
  "node_inv verify settings s \<longleftrightarrow> gateway_wf (ns_gateway s)
     \<and> (\<forall>(user, perms) \<in> set (ns_connecting s). \<forall>ident remote usage.
          backed verify settings (newConnection ident perms user remote usage))
     \<and> (\<forall>r \<in> set (gw_connectionsList (ns_gateway s)). backed verify settings (gw_connection (ns_gateway s) r))
     \<and> (\<forall>t \<in> set (ns_tasks s). task_owner t < gw_nextRef (ns_gateway s) \<and> task_backed verify settings (ns_gateway s) t)"

lemma backed_cong: "same_identity c c' \<Longrightarrow> backed verify settings c' = backed verify settings c"
  by (simp add: backed_def same_identity_def)

lemma task_backed_cong:
  assumes "static g g'" and "task_owner t < gw_nextRef g"
  shows "task_backed verify settings g' t = task_backed verify settings g t"
proof -
  have "same_identity (gw_connection g (task_owner t)) (gw_connection g' (task_owner t))" "gw_settings g' = gw_settings g"
    using assms by (simp_all add: static_def)
  then show ?thesis
    using backed_cong [of "gw_connection g (task_owner t)" "gw_connection g' (task_owner t)" verify settings]
    by (cases t) (auto simp: task_backed_def same_identity_def split: target.split)
qed

lemma login_backed:
  assumes "publickeyAuth (publicKeyCallback verify geoip settings fault clk meta) check req st = (AuthAccepted perms, st')"
  shows "backed verify settings (newConnection ident perms (cm_User meta) remote usage)"
proof -
  obtain bg where auth: "authenticate verify geoip settings fault clk meta (pk_key req) st = (Inr perms, st', bg)"
    using publickeyAuth_accepted [OF assms] by (auto simp: publicKeyCallback_def split: prod.splits)
  show ?thesis
  proof (cases "cm_User meta = PeerUser")
    case True
    then have "authenticatePeer verify settings (clk 0) meta (pk_key req) = Inr perms"
      using auth by (simp add: authenticate_def)
    then obtain cert where "ct_SignatureKey cert \<in> set (as_PeerCAPublicKeys settings)"
        "cert_valid_for verify (clk 0) PeerUser cert" "ct_KeyId cert \<noteq> []"
        "perms = \<lparr>pm_CriticalOptions = [], pm_Extensions = [(''peer'', []), (''identity'', ct_KeyId cert)]\<rparr>"
      using True by (auto simp: authenticatePeer_iff)
    then show ?thesis
      by (auto simp: backed_def newConnection_def Let_def intro!: exI [of _ cert] exI [of _ "clk 0"])
  next
    case False
    from auth this obtain cert a where "ct_SignatureKey cert \<in> set (as_CAPublicKeys settings)"
        "cert_valid_for verify (clk 0) (cm_User meta) cert" "perms = grantedPermissions a (ct_Permissions cert)"
      by (rule authenticate_certified) blast
    then show ?thesis
      by (auto simp: backed_def newConnection_def granted_simps Let_def intro!: exI [of _ cert] exI [of _ "clk 0"])
  qed
qed

lemma channel_tasks_backed:
  assumes "handleChannel clk faults accept closeFault r nc g = (err, refused, tasks, g')" and "t \<in> set tasks"
    and "backed verify settings (gw_connection g r)"
  shows "task_owner t = r \<and> task_backed verify settings g t"
proof (cases t)
  case (RunSession r' ch)
  then show ?thesis
    using assms
    by (auto simp: handleChannel_def handleSessionChannel_def task_backed_def Let_def
        split: if_splits option.splits sum.splits prod.splits elim!: handleTunnelChannel_tasks)
next
  case (DiscardRequests r' ch)
  then show ?thesis
    using assms
    by (auto simp: handleChannel_def handleSessionChannel_def task_backed_def Let_def
        split: if_splits option.splits sum.splits prod.splits elim!: handleTunnelChannel_tasks)
next
  case (RunTunnel tk)
  obtain res tasks' where "handleTunnelChannel clk faults accept r nc g = (res, tasks', g')" "t \<in> set tasks'"
    by (rule handleChannel_tunnel [OF assms(1,2)]) (use RunTunnel in auto)
  then show ?thesis
    by (cases rule: handleTunnelChannel_tasks) (use RunTunnel assms(3) in \<open>auto simp: task_backed_def\<close>)
next
  case (BridgePostgres r' ch address)
  obtain res tasks' where "handleTunnelChannel clk faults accept r nc g = (res, tasks', g')" "t \<in> set tasks'"
    by (rule handleChannel_tunnel [OF assms(1,2)]) (use BridgePostgres in auto)
  then show ?thesis
    by (cases rule: handleTunnelChannel_tasks) (use BridgePostgres assms(3) in \<open>auto simp: task_backed_def\<close>)
qed

lemma event_tasks_backed:
  assumes "connectionEvent r ev g = (continue, tasks, g')" and "t \<in> set tasks" and "backed verify settings (gw_connection g r)"
  shows "task_owner t = r \<and> task_backed verify settings g t"
  using assms channel_tasks_backed
  by (auto simp: connectionEvent_def split: connEvent.splits prod.splits)

lemma node_inv_frame:
  assumes "node_inv verify settings s" and "safe_step (ns_gateway s) (ns_gateway s')"
    and "\<And>user perms. (user, perms) \<in> set (ns_connecting s') \<Longrightarrow> (user, perms) \<in> set (ns_connecting s)
      \<or> (\<forall>ident remote usage. backed verify settings (newConnection ident perms user remote usage))"
    and "\<And>t. t \<in> set (ns_tasks s') \<Longrightarrow> t \<in> set (ns_tasks s)
      \<or> task_owner t < gw_nextRef (ns_gateway s) \<and> task_backed verify settings (ns_gateway s) t"
  shows "node_inv verify settings s'"
proof -
  let ?g = "ns_gateway s" and ?g' = "ns_gateway s'"
  have wf: "gateway_wf ?g" using assms(1) by (simp add: node_inv_def)
  then have safe: "gateway_wf ?g'" "static ?g ?g'" "set (gw_connectionsList ?g') \<subseteq> set (gw_connectionsList ?g)"
    using assms(2) by (simp_all add: safe_step_def)
  have "backed verify settings (gw_connection ?g' r)" if "r \<in> set (gw_connectionsList ?g')" for r
  proof -
    have r: "r \<in> set (gw_connectionsList ?g)" using that safe(3) by blast
    then have "r < gw_nextRef ?g" using wf registry_okD(3) by (auto simp: gateway_wf_def)
    then show ?thesis using assms(1) r safe(2) backed_cong by (auto simp: node_inv_def static_def)
  qed
  moreover have "task_owner t < gw_nextRef ?g' \<and> task_backed verify settings ?g' t" if "t \<in> set (ns_tasks s')" for t
  proof -
    have t: "task_owner t < gw_nextRef ?g" "task_backed verify settings ?g t"
      using assms(4) [OF that] assms(1) by (auto simp: node_inv_def)
    then show ?thesis
      using task_backed_cong [OF safe(2) t(1)] safe(2) by (auto simp: static_def)
  qed
  moreover have "backed verify settings (newConnection ident perms user remote usage)"
    if "(user, perms) \<in> set (ns_connecting s')" for user perms ident remote usage
    using assms(3) [OF that] assms(1) by (auto simp: node_inv_def)
  ultimately show ?thesis using safe(1) by (auto simp: node_inv_def)
qed

lemma node_inv_accept:
  assumes "node_inv verify settings s" and "(user, perms) \<in> set (ns_connecting s)"
  shows "node_inv verify settings (s\<lparr>ns_gateway := snd (acceptConnection ident perms user remote usage (ns_gateway s)),
      ns_connecting := remove1 (user, perms) (ns_connecting s)\<rparr>)"
proof -
  let ?g = "ns_gateway s" and ?g' = "snd (acceptConnection ident perms user remote usage (ns_gateway s))"
  have wf: "gateway_wf ?g" using assms(1) by (simp add: node_inv_def)
  from accept_wf [OF this] have wf': "gateway_wf ?g'" "static ?g ?g'" by blast+
  have new: "gw_connectionsList ?g' = gw_nextRef ?g # gw_connectionsList ?g"
    "gw_connection ?g' (gw_nextRef ?g) = newConnection ident perms user remote usage"
    by (simp_all add: acceptConnection_def addConnection_def Let_def)
  have "backed verify settings (gw_connection ?g' r)" if "r \<in> set (gw_connectionsList ?g)" for r
  proof -
    have "r < gw_nextRef ?g" using that wf registry_okD(3) by (auto simp: gateway_wf_def)
    then show ?thesis using assms(1) that wf'(2) backed_cong by (auto simp: node_inv_def static_def)
  qed
  moreover have "backed verify settings (gw_connection ?g' (gw_nextRef ?g))"
    using assms by (auto simp: new node_inv_def)
  moreover have "task_owner t < gw_nextRef ?g' \<and> task_backed verify settings ?g' t" if "t \<in> set (ns_tasks s)" for t
  proof -
    have t: "task_owner t < gw_nextRef ?g" "task_backed verify settings ?g t"
      using that assms(1) by (auto simp: node_inv_def)
    then show ?thesis using task_backed_cong [OF wf'(2) t(1)] wf'(2) by (auto simp: static_def)
  qed
  moreover have "backed verify settings (newConnection i p u rm us)"
    if "(u, p) \<in> set (remove1 (user, perms) (ns_connecting s))" for u p i rm us
  proof -
    have "(u, p) \<in> set (ns_connecting s)" using that set_remove1_subset by (rule rev_subsetD)
    with assms(1) show ?thesis by (auto simp: node_inv_def)
  qed
  ultimately show ?thesis using wf'(1) by (auto simp: node_inv_def new)
qed

lemma node_inv_step:
  assumes "node_step verify settings s s'" and "node_inv verify settings s"
  shows "node_inv verify settings s'"
  using node_step_safe [OF assms(1)]
proof
  assume safe: "safe_step (ns_gateway s) (ns_gateway s')"
  note frame = node_inv_frame [OF assms(2) safe]
  have same: "ns_connecting s' = ns_connecting s \<Longrightarrow> ns_tasks s' = ns_tasks s \<Longrightarrow> ?thesis" by (rule frame) auto
  show ?thesis
    using assms(1)
  proof (cases rule: node_step.cases)
    case (login geoip fault clk meta check req outcome st)
    then show ?thesis
      using login_backed [of verify geoip settings fault clk meta check req "auth_state (ns_gateway s)"]
      by (intro frame) (auto split: authOutcome.splits)
  next
    case (event r ev continue tasks g')
    have r: "backed verify settings (gw_connection (ns_gateway s) r)" "r < gw_nextRef (ns_gateway s)"
      using assms(2) event(2) registry_okD(3) by (auto simp: node_inv_def gateway_wf_def)
    with event event_tasks_backed [OF event(3) _ r(1)] show ?thesis by (intro frame) auto
  next
    case (accept user perms ident remote usage)
    with assms(2) show ?thesis by (simp add: node_inv_accept)
  next
    case (tunnel_started tk answer this other g')
    then show ?thesis by (intro frame) (auto dest: set_remove1_subset [THEN subsetD])
  next
    case (task_ended t)
    then show ?thesis by (intro frame) (auto dest: set_remove1_subset [THEN subsetD])
  qed ((rule same, simp, simp)+)
next
  assume "\<exists>ident perms user remote usage. (user, perms) \<in> set (ns_connecting s)
      \<and> s' = s\<lparr>ns_gateway := snd (acceptConnection ident perms user remote usage (ns_gateway s)),
          ns_connecting := remove1 (user, perms) (ns_connecting s)\<rparr>"
  then show ?thesis using assms(2) node_inv_accept by blast
qed

section \<open>Nodes from their start\<close>

lemma newGateway_wf:
  assumes "db_wf db" and "gs_RevokeLoginFlags s \<in> {None, Some revokeUserFlags}"
  shows "gateway_wf (newGateway db [] s)"
  using assms registry_ok_newGateway [of db "[]" s]
  by (auto simp: gateway_wf_def peers_ok_def tunnels_ok_def caches_ok_def newGateway_def zero_connection_def
      newConnection_def rc_fresh mwf_empty msize_empty Let_def)

lemma startNode_gateway:
  assumes "startNode env cmd = Some (Inr n)" and "db_wf (en_database env)"
  shows "gateway_wf (rn_gateway n)" and "gw_connectionsList (rn_gateway n) = []"
proof -
  obtain hostSigner nodeSigner where "gateway_Open (en_format env) (en_putFault env) (en_now env) (en_now' env)
      (en_database env) [] (gatewaySettings cmd hostSigner nodeSigner) = Inr (rn_gateway n)"
    using assms(1) by (auto simp: startNode_def bind_run_Inr)
  then obtain now now' fault where start: "rn_gateway n = newGateway (en_database env) [] (gatewaySettings cmd hostSigner nodeSigner)
      \<or> rn_gateway n = snd (registerNode (en_format env) fault now now' True
            (newGateway (en_database env) [] (gatewaySettings cmd hostSigner nodeSigner)))"
    by (auto simp: gateway_Open_def Let_def split: if_splits prod.splits sum.splits) (metis snd_conv)
  have wf: "gateway_wf (newGateway (en_database env) [] (gatewaySettings cmd hostSigner nodeSigner))"
    using assms(2) by (intro newGateway_wf) (simp_all add: gatewaySettings_def)
  from start wf show "gateway_wf (rn_gateway n)"
    using safe_registerNode by (auto simp: safe_step_def)
  from start show "gw_connectionsList (rn_gateway n) = []"
    by (auto simp: registerNode_frame newGateway_def)
qed

lemma node_inv_reachable:
  assumes "node_reachable verify settings g s" and "gateway_wf g" and "gw_connectionsList g = []"
  shows "node_inv verify settings s \<and> static g (ns_gateway s)"
  using assms(1)
proof (induction rule: rtranclp_induct)
  case base
  show ?case using assms(2,3) by (simp add: node_inv_def node_start_def)
next
  case (step s s')
  have "static (ns_gateway s) (ns_gateway s')"
    using node_step_safe [OF step.hyps(2)] step.IH accept_wf by (auto simp: safe_step_def node_inv_def)
  with step node_inv_step show ?case by (blast intro: static_trans)
qed

text \<open>C5: Whatever a node goes through after its start, its state is well formed: the index of
  connections agrees with their list, the table of peers with the peers, every tunnel
  listed at a connection exists and belongs to it, both caches are within their bounds,
  and the tables of the database have consistent keys. In particular the numbers of
  tunnels a status report shows always add up, also when the 64-bit counters wrap around.\<close>

theorem node_well_formed:
  assumes "startNode env cmd = Some (Inr n)" and "db_wf (en_database env)"
    and "node_reachable verify (rn_auth n) (rn_gateway n) s"
  shows "gateway_wf (ns_gateway s)
    \<and> (let status = conn_gatherStatus seconds now now' (gw_tunnel (ns_gateway s)) (gw_connection (ns_gateway s) r)
       in cs_TunnelsActive status = cs_TunnelsOpened status - cs_TunnelsClosed status)"
proof -
  have wf: "gateway_wf (ns_gateway s)"
    using node_inv_reachable [OF assms(3) startNode_gateway [OF assms(1,2)]] by (simp add: node_inv_def)
  then have "tunnels_ok (ns_gateway s)" by (simp add: gateway_wf_def)
  from tunnels_okD(2) [OF this, of r] wf show ?thesis by (simp add: conn_gatherStatus_def Let_def)
qed

text \<open>C1: Whatever a node goes through after its start, every goroutine that serves a channel is
  backed by the certificate its client authenticated with. A session runs only for a
  user; a tunnel runs only for a user whose certificate permits port forwarding or for a
  peer, and to another node only for a user; and the database is bridged only to a client
  with a certificate for the name peer, signed by one of the authorities in the peer
  authority file, and only by a node with a database of its own, to that database.\<close>

theorem goroutines_backed:
  assumes "startNode env cmd = Some (Inr n)" and "db_wf (en_database env)"
    and "node_reachable verify (rn_auth n) (rn_gateway n) s" and "t \<in> set (ns_tasks s)"
  shows "task_backed verify (rn_auth n) (ns_gateway s) t
    \<and> (case t of
         BridgePostgres r ch address \<Rightarrow>
           co_String cmd ''postgres-peer'' = [] \<and> co_String cmd ''peer-ca-public-key'' \<noteq> []
           \<and> address = co_String cmd ''postgres-host'' @ CHR '':'' # decimal (unat (co_Uint cmd ''postgres-port''))
       | _ \<Rightarrow> True)"
proof -
  have "node_inv verify (rn_auth n) s" and same: "static (rn_gateway n) (ns_gateway s)"
    using node_inv_reachable [OF assms(3) startNode_gateway [OF assms(1,2)]] by simp_all
  then have t: "task_backed verify (rn_auth n) (ns_gateway s) t" using assms(4) by (simp add: node_inv_def)
  obtain nodeSigner settings where "gw_settings (rn_gateway n) = gatewaySettings cmd (rn_hostSigner n) nodeSigner"
    using assms(1) by (rule startNode_parts)
  then have "gs_PostgresAddress (gw_settings (ns_gateway s)) = postgresAddress cmd"
    using same by (simp add: static_def gatewaySettings_def)
  moreover have "as_PeerCAPublicKeys (rn_auth n) = []" if "co_String cmd ''peer-ca-public-key'' = []"
    using assms(1) that by (auto simp: startNode_def bind_run_Inr)
  ultimately show ?thesis
    using t by (auto simp: task_backed_def backed_def postgresAddress_def split: task.split if_splits)
qed

text \<open>
  A run of a node that trusts a peer authority: a peer logs in, becomes a connection and asks
  for the database.
\<close>

definition sample_peer_command :: command where
  "sample_peer_command = sample_cli_command\<lparr>co_String := (co_String sample_cli_command)(''peer-ca-public-key'' := ''ca.pub'', ''node-address'' := ''a:22'')\<rparr>"

lemma sample_peer_node:
  obtains n where "startNode sample_runEnv sample_peer_command = Some (Inr n)"
    "as_PeerCAPublicKeys (rn_auth n) = [[1, 2]]"
    "gs_PostgresAddress (gw_settings (rn_gateway n)) \<noteq> []" "gw_connectionsList (rn_gateway n) = []"
    "rn_hostSigner n = \<lparr>sg_key = [1], sg_certificate = None\<rparr>"
proof -
  have host: "parseHostSigner sample_cliEnv sample_peer_command = parseHostSigner sample_cliEnv sample_cli_command"
    by (simp add: parseHostSigner_def sample_peer_command_def)
  have "\<exists>n. startNode sample_runEnv sample_peer_command = Some (Inr n) \<and> as_PeerCAPublicKeys (rn_auth n) = [[1, 2]]
      \<and> rn_hostSigner n = \<lparr>sg_key = [1], sg_certificate = None\<rparr>"
    using sample_host sample_ca host
    by (simp add: startNode_def sample_run_env sample_peer_command_def sample_flags listenFlags_def Let_def parseCaPublicKeys_def
        parseIdleTimeout_def parseNodeSigner_def listeners_def databaseSettings_def parsePostgresPassword_def db_Open_def
        gateway_Open_def registerNode_def db_PutNode_def keyMarshal_def)
  then obtain n where n: "startNode sample_runEnv sample_peer_command = Some (Inr n)" "as_PeerCAPublicKeys (rn_auth n) = [[1, 2]]"
      and host_key: "rn_hostSigner n = \<lparr>sg_key = [1], sg_certificate = None\<rparr>"
    by blast
  obtain nodeSigner settings where
      "gw_settings (rn_gateway n) = gatewaySettings sample_peer_command (rn_hostSigner n) nodeSigner"
    using n(1) by (rule startNode_parts)
  then have "gs_PostgresAddress (gw_settings (rn_gateway n)) \<noteq> []"
    by (simp add: gatewaySettings_def postgresAddress_def sample_peer_command_def sample_flags)
  moreover have "db_wf (en_database sample_runEnv)" by (simp add: sample_runEnv_def cliEnv.defs db_wf_empty)
  ultimately show thesis using that [OF n] startNode_gateway(2) [OF n(1)] host_key by blast
qed

definition sample_peer_cert :: certificate where
  "sample_peer_cert = (sample_cert [])\<lparr>ct_SignatureKey := [1, 2]\<rparr>"

lemma sample_peer_cert_valid: "cert_valid_for (\<lambda>_. True) (sample_clock 0) ''peer'' sample_peer_cert"
  by (simp add: cert_valid_for_def sample_peer_cert_def sample_defs UserCert_def CertTimeInfinity_def
      sourceAddressCriticalOption_def unixSeconds_def second_def)

lemma sample_peer_login:
  assumes "as_PeerCAPublicKeys settings = [[1, 2]]"
  shows "publickeyAuth (publicKeyCallback (\<lambda>_. True) None settings None sample_clock (sample_meta ''peer'')) (\<lambda>_. True)
      \<lparr>pk_isQuery = False, pk_signatureOk = True, pk_key = CertKey sample_peer_cert\<rparr> st =
    (AuthAccepted \<lparr>pm_CriticalOptions = [], pm_Extensions = [(''peer'', []), (''identity'', ''node-a'')]\<rparr>, st)"
proof -
  have "authenticatePeer (\<lambda>_. True) settings (sample_clock 0) (sample_meta ''peer'') (CertKey sample_peer_cert) =
      Inr \<lparr>pm_CriticalOptions = [], pm_Extensions = [(''peer'', []), (''identity'', ''node-a'')]\<rparr>"
    using assms sample_peer_cert_valid by (simp add: authenticatePeer_iff) (simp add: sample_peer_cert_def sample_defs)
  then show ?thesis
    by (simp add: publickeyAuth_def publicKeyCallback_def authenticate_def sourceAddressOk_def sample_meta_def PeerUser_def)
qed

definition sample_peer_permissions :: permissions where
  "sample_peer_permissions = \<lparr>pm_CriticalOptions = [], pm_Extensions = [(''peer'', []), (''identity'', ''node-a'')]\<rparr>"

definition sample_postgres_event :: connEvent where
  "sample_postgres_event = ChannelEvent (\<lambda>_. 0) (\<lambda>_. None) (Inr 5) None
     \<lparr>nc_ChannelType = ''direct-tcpip'', nc_ExtraData = postgresRequest\<rparr>"

lemma sample_peer_run:
  assumes "as_PeerCAPublicKeys settings = [[1, 2]]" and "gs_PostgresAddress (gw_settings g) \<noteq> []"
  obtains s where "node_reachable (\<lambda>_. True) settings g s"
    "BridgePostgres (gw_nextRef g) 5 (gs_PostgresAddress (gw_settings g)) \<in> set (ns_tasks s)"
proof -
  let ?step = "node_step (\<lambda>_. True) settings"
  have id: "with_auth_state (auth_state g) g = g" by (simp add: with_auth_state_def auth_state_def)
  define s1 where "s1 = \<lparr>ns_gateway = g, ns_connecting = [(''peer'', sample_peer_permissions)], ns_tasks = []\<rparr>"
  define s2 where "s2 = \<lparr>ns_gateway = snd (acceptConnection ''k'' sample_peer_permissions ''peer'' ''10.9.9.9:1'' (newUsage 0) g),
      ns_connecting = [], ns_tasks = []\<rparr>"
  have one: "?step (node_start g) s1"
    using node_step.login [of "\<lambda>_. True" None settings None sample_clock "sample_meta ''peer''" "\<lambda>_. True"
        "\<lparr>pk_isQuery = False, pk_signatureOk = True, pk_key = CertKey sample_peer_cert\<rparr>" "node_start g",
        OF sample_peer_login [OF assms(1)]]
    by (simp add: s1_def node_start_def id sample_meta_def sample_peer_permissions_def)
  have two: "?step s1 s2"
    using node_step.accept [of "''peer''" sample_peer_permissions s1 "\<lambda>_. True" settings "''k''" "''10.9.9.9:1''" "newUsage 0"]
    by (simp add: s1_def s2_def)
  let ?g = "ns_gateway s2" and ?r = "gw_nextRef g"
  have conn: "?r \<in> set (gw_connectionsList ?g)" "cn_nodeId (gw_connection ?g ?r) = ''node-a''" "gw_settings ?g = gw_settings g"
    by (simp_all add: s2_def acceptConnection_def addConnection_def newConnection_def sample_peer_permissions_def
        nullable_def Let_def)
  have "connectionEvent ?r sample_postgres_event ?g =
      (True, [DiscardRequests ?r 5, BridgePostgres ?r 5 (gs_PostgresAddress (gw_settings g))], ?g)"
    using conn assms(2)
    by (simp add: connectionEvent_def sample_postgres_event_def handleChannel_def handleTunnelChannel_def
        unmarshal_postgresRequest handlePostgresChannel_def result_defs Let_def)
  from node_step.event [OF conn(1) this] have three: "?step s2 (s2\<lparr>ns_tasks :=
      [DiscardRequests ?r 5, BridgePostgres ?r 5 (gs_PostgresAddress (gw_settings g))]\<rparr>)"
    by (simp add: s2_def)
  have "node_reachable (\<lambda>_. True) settings g (s2\<lparr>ns_tasks :=
      [DiscardRequests ?r 5, BridgePostgres ?r 5 (gs_PostgresAddress (gw_settings g))]\<rparr>)"
    by (rule converse_rtranclp_into_rtranclp, rule one, rule converse_rtranclp_into_rtranclp, rule two,
        rule r_into_rtranclp, rule three)
  then show thesis by (rule that) simp
qed

lemma sample_database: "db_wf (en_database sample_runEnv)"
  by (simp add: sample_runEnv_def cliEnv.defs db_wf_empty)

theorem goroutines_backed_witness:
  "\<exists>n s r address. startNode sample_runEnv sample_peer_command = Some (Inr n)
     \<and> node_reachable (\<lambda>_. True) (rn_auth n) (rn_gateway n) s \<and> BridgePostgres r 5 address \<in> set (ns_tasks s)
     \<and> address = ''db:'' @ decimal 5432 \<and> cn_nodeId (gw_connection (ns_gateway s) r) \<noteq> []"
proof -
  obtain n where n: "startNode sample_runEnv sample_peer_command = Some (Inr n)" "as_PeerCAPublicKeys (rn_auth n) = [[1, 2]]"
      "gs_PostgresAddress (gw_settings (rn_gateway n)) \<noteq> []"
    by (rule sample_peer_node)
  obtain s where s: "node_reachable (\<lambda>_. True) (rn_auth n) (rn_gateway n) s"
      "BridgePostgres (gw_nextRef (rn_gateway n)) 5 (gs_PostgresAddress (gw_settings (rn_gateway n))) \<in> set (ns_tasks s)"
    by (rule sample_peer_run [OF n(2,3)])
  have address: "gs_PostgresAddress (gw_settings (rn_gateway n)) = ''db:'' @ decimal 5432"
    and "cn_nodeId (gw_connection (ns_gateway s) (gw_nextRef (rn_gateway n))) \<noteq> []"
    using goroutines_backed [OF n(1) sample_database s]
    by (auto simp: task_backed_def sample_peer_command_def sample_flags)
  with n(1) s show ?thesis by auto
qed

theorem node_well_formed_witness:
  "\<exists>n s. startNode sample_runEnv sample_peer_command = Some (Inr n)
     \<and> node_reachable (\<lambda>_. True) (rn_auth n) (rn_gateway n) s \<and> ns_tasks s \<noteq> [] \<and> gateway_wf (ns_gateway s)"
proof -
  obtain n where n: "startNode sample_runEnv sample_peer_command = Some (Inr n)" "as_PeerCAPublicKeys (rn_auth n) = [[1, 2]]"
      "gs_PostgresAddress (gw_settings (rn_gateway n)) \<noteq> []"
    by (rule sample_peer_node)
  obtain s where s: "node_reachable (\<lambda>_. True) (rn_auth n) (rn_gateway n) s"
      "BridgePostgres (gw_nextRef (rn_gateway n)) 5 (gs_PostgresAddress (gw_settings (rn_gateway n))) \<in> set (ns_tasks s)"
    by (rule sample_peer_run [OF n(2,3)])
  from node_well_formed [OF n(1) sample_database s(1), of "\<lambda>_. 0" 0 0 0] n(1) s show ?thesis by auto
qed

end
