(* ===== verification/Serving.thy ===== *)
theory Serving
  imports Cli
begin

text \<open>
  \<^verbatim>\<open>cli/run.go\<close> after the start-up: one goroutine for each listener, one for each socket that
  the ssh and the SOCKS listener accept, and one for each listener that the shutdown
  closes, all counted by a \<^verbatim>\<open>sync.WaitGroup\<close> whose end \<^verbatim>\<open>run\<close> waits for. The goroutines are
  steps of one machine, so that every interleaving is covered; what a handler does is in
  the other theories. A listener is named by its flag. The http servers count their
  connections themselves.
\<close>

text \<open>\<^verbatim>\<open>Stopping\<close> holds the listeners whose closing goroutine is still to be started.\<close>

datatype runPhase = Serving | Stopping "string list" | Joining | Exited | Aborted

record runState =
  ru_listeners :: "string list"
  ru_open :: "string list"
  ru_loops :: "string list"
  ru_handlers :: "(string \<times> ref) list"
  ru_stopped :: "string list"
  ru_closers :: "string list"
  ru_waitGroup :: int
  ru_phase :: runPhase

definition startsHandlers :: "string \<Rightarrow> bool" where
  "startsHandlers name \<longleftrightarrow> name = ''listen-ssh'' \<or> name = ''listen-socks''"

definition serve :: "string list \<Rightarrow> runState" where
  "serve names = \<lparr>ru_listeners = names, ru_open = names, ru_loops = names, ru_handlers = [], ru_stopped = [],
     ru_closers = [], ru_waitGroup = int (length names), ru_phase = Serving\<rparr>"

text \<open>
  An accept loop ends at the first error of its listener, which closing the listener
  causes; it then closes the channel \<^verbatim>\<open>quit\<close> looks at (\<open>ru_stopped\<close>). The goroutine that
  closes a listener of the ssh server closes the gateway next, and only then ends. After
  thirty seconds a shutdown is aborted.
\<close>

inductive run_step :: "runState \<Rightarrow> runState \<Rightarrow> bool" where
  accept_socket: "name \<in> set (ru_loops s) \<Longrightarrow> name \<in> set (ru_open s) \<Longrightarrow> startsHandlers name \<Longrightarrow> ru_phase s \<noteq> Aborted \<Longrightarrow>
    run_step s (s\<lparr>ru_handlers := (name, socket) # ru_handlers s, ru_waitGroup := ru_waitGroup s + 1\<rparr>)"
| accept_failed: "name \<in> set (ru_loops s) \<Longrightarrow> ru_phase s \<noteq> Aborted \<Longrightarrow>
    run_step s (s\<lparr>ru_loops := remove1 name (ru_loops s), ru_stopped := name # ru_stopped s,
                  ru_waitGroup := ru_waitGroup s - 1\<rparr>)"
| handler_ended: "h \<in> set (ru_handlers s) \<Longrightarrow> ru_phase s \<noteq> Aborted \<Longrightarrow>
    run_step s (s\<lparr>ru_handlers := remove1 h (ru_handlers s), ru_waitGroup := ru_waitGroup s - 1\<rparr>)"
| quit: "ru_phase s = Serving \<Longrightarrow> signal \<or> ru_stopped s \<noteq> [] \<Longrightarrow>
    run_step s (s\<lparr>ru_phase := Stopping (ru_listeners s)\<rparr>)"
| closer_started: "ru_phase s = Stopping (name # names) \<Longrightarrow>
    run_step s (s\<lparr>ru_phase := Stopping names, ru_closers := name # ru_closers s, ru_waitGroup := ru_waitGroup s + 1\<rparr>)"
| wait_started: "ru_phase s = Stopping [] \<Longrightarrow> run_step s (s\<lparr>ru_phase := Joining\<rparr>)"
| listener_closed: "name \<in> set (ru_closers s) \<Longrightarrow> name \<in> set (ru_open s) \<Longrightarrow> ru_phase s \<noteq> Aborted \<Longrightarrow>
    run_step s (s\<lparr>ru_open := remove1 name (ru_open s)\<rparr>)"
| closer_ended: "name \<in> set (ru_closers s) \<Longrightarrow> name \<notin> set (ru_open s) \<Longrightarrow> ru_phase s \<noteq> Aborted \<Longrightarrow>
    run_step s (s\<lparr>ru_closers := remove1 name (ru_closers s), ru_waitGroup := ru_waitGroup s - 1\<rparr>)"
| wait_ended: "ru_phase s = Joining \<Longrightarrow> ru_waitGroup s = 0 \<Longrightarrow> run_step s (s\<lparr>ru_phase := Exited\<rparr>)"
| deadline: "ru_phase s = Joining \<or> (\<exists>names. ru_phase s = Stopping names) \<Longrightarrow> run_step s (s\<lparr>ru_phase := Aborted\<rparr>)"

section \<open>The wait group\<close>

definition run_goroutines :: "runState \<Rightarrow> nat" where
  "run_goroutines s = length (ru_loops s) + length (ru_handlers s) + length (ru_closers s)"

text \<open>The closing goroutines that a phase has yet to start.\<close>

fun unstarted :: "string list \<Rightarrow> runPhase \<Rightarrow> string list" where
  "unstarted names Serving = names"
| "unstarted names (Stopping rest) = rest"
| "unstarted names _ = []"

definition run_ok :: "runState \<Rightarrow> bool" where
  "run_ok s \<longleftrightarrow> ru_waitGroup s = int (run_goroutines s) \<and> distinct (ru_open s) \<and> distinct (ru_loops s)
     \<and> (ru_phase s \<noteq> Aborted \<longrightarrow> set (ru_open s) \<subseteq> set (ru_closers s) \<union> set (unstarted (ru_listeners s) (ru_phase s)))
     \<and> (ru_phase s = Exited \<longrightarrow> run_goroutines s = 0)"

lemma length_remove1_less: "x \<in> set xs \<Longrightarrow> length xs = Suc (length (remove1 x xs))"
  by (induction xs) auto

lemma run_ok_step:
  assumes "run_step s s'" and "run_ok s"
  shows "run_ok s'"
  using assms
proof (cases rule: run_step.cases)
  case (accept_failed name)
  then show ?thesis using assms(2) length_remove1_less [of name "ru_loops s"]
    by (auto simp: run_ok_def run_goroutines_def)
next
  case (handler_ended h)
  then show ?thesis using assms(2) length_remove1_less [of h "ru_handlers s"]
    by (auto simp: run_ok_def run_goroutines_def)
next
  case (closer_ended name)
  have "set (ru_closers s) \<subseteq> insert name (set (remove1 name (ru_closers s)))"
    by (metis in_set_remove1 insertCI subsetI)
  then show ?thesis using closer_ended assms(2) length_remove1_less [of name "ru_closers s"]
    by (auto simp: run_ok_def run_goroutines_def)
next
  case wait_ended
  then show ?thesis using assms(2) by (simp add: run_ok_def) (simp add: run_goroutines_def)
qed (auto simp: run_ok_def run_goroutines_def dest: set_remove1_subset [THEN subsetD])

lemma run_ok_reachable:
  assumes "run_step\<^sup>*\<^sup>* (serve names) s" and "distinct names"
  shows "run_ok s"
  using assms(1)
proof (induction rule: rtranclp_induct)
  case base
  then show ?case using assms(2) by (simp add: run_ok_def serve_def run_goroutines_def)
qed (rule run_ok_step)

lemma startNode_distinct: "startNode env cmd = Some (Inr n) \<Longrightarrow> distinct (rn_listeners n)"
  by (auto simp: listenFlags_def dest: startNode_listeners)

text \<open>C15: \<^verbatim>\<open>run\<close> returns only when nothing it started is left. In every interleaving the counter of the
  wait group is the number of goroutines that are running, so it is never negative and is
  never raised from zero while \<^verbatim>\<open>run\<close> waits on it; and when \<^verbatim>\<open>run\<close> has returned, no accept
  loop, no handler and no closing goroutine is left, every listener that was opened is
  closed, and nothing happens any more.\<close>

theorem run_returns_clean:
  assumes "startNode env cmd = Some (Inr n)" and "run_step\<^sup>*\<^sup>* (serve (rn_listeners n)) s"
  shows "ru_waitGroup s = int (length (ru_loops s) + length (ru_handlers s) + length (ru_closers s))
    \<and> (\<forall>s'. run_step s s' \<and> ru_phase s = Joining \<and> ru_waitGroup s < ru_waitGroup s' \<longrightarrow> 0 < ru_waitGroup s)
    \<and> (ru_phase s = Exited \<longrightarrow>
         ru_loops s = [] \<and> ru_handlers s = [] \<and> ru_closers s = [] \<and> ru_open s = [] \<and> (\<nexists>s'. run_step s s'))"
proof -
  have ok: "run_ok s" using run_ok_reachable [OF assms(2)] startNode_distinct [OF assms(1)] by blast
  then have count: "ru_waitGroup s = int (length (ru_loops s) + length (ru_handlers s) + length (ru_closers s))"
    by (simp add: run_ok_def run_goroutines_def)
  moreover have "0 < ru_waitGroup s" if "run_step s s'" "ru_phase s = Joining" "ru_waitGroup s < ru_waitGroup s'" for s'
    using that
  proof (cases rule: run_step.cases)
    case (accept_socket name socket)
    then have "0 < length (ru_loops s)" by auto
    then show ?thesis using count by linarith
  qed auto
  moreover have "ru_loops s = [] \<and> ru_handlers s = [] \<and> ru_closers s = [] \<and> ru_open s = []" if "ru_phase s = Exited"
    using ok that by (auto simp: run_ok_def run_goroutines_def)
  ultimately show ?thesis by (auto elim: run_step.cases)
qed

section \<open>The end of the shutdown\<close>

fun phase_rank :: "string list \<Rightarrow> runPhase \<Rightarrow> nat" where
  "phase_rank names Serving = 4 + 2 * length names"
| "phase_rank names (Stopping rest) = 3 + 2 * length rest"
| "phase_rank names Joining = 2"
| "phase_rank names Exited = 1"
| "phase_rank names Aborted = 0"

definition remaining :: "runState \<Rightarrow> nat" where
  "remaining s = run_goroutines s + length (ru_open s) + phase_rank (ru_listeners s) (ru_phase s)"

definition no_new_sockets :: "runState \<Rightarrow> bool" where
  "no_new_sockets s \<longleftrightarrow> (\<forall>name. name \<in> set (ru_open s) \<longrightarrow> \<not> startsHandlers name)"

lemma remaining_decreases:
  assumes "run_step s s'" and "no_new_sockets s"
  shows "remaining s' < remaining s" and "no_new_sockets s'"
proof -
  show "no_new_sockets s'"
    using assms by (cases rule: run_step.cases) (auto simp: no_new_sockets_def dest: set_remove1_subset [THEN subsetD])
  from assms show "remaining s' < remaining s"
  proof (cases rule: run_step.cases)
    case (accept_failed name)
    then show ?thesis using length_remove1_less [of name "ru_loops s"] by (simp add: remaining_def run_goroutines_def)
  next
    case (handler_ended h)
    then show ?thesis using length_remove1_less [of h "ru_handlers s"] by (simp add: remaining_def run_goroutines_def)
  next
    case (listener_closed name)
    then show ?thesis using length_remove1_less [of name "ru_open s"] by (simp add: remaining_def run_goroutines_def)
  next
    case (closer_ended name)
    then show ?thesis using length_remove1_less [of name "ru_closers s"] by (simp add: remaining_def run_goroutines_def)
  qed (auto simp: remaining_def run_goroutines_def no_new_sockets_def)
qed

lemma run_steps_bounded: "(run_step ^^ k) s s' \<Longrightarrow> no_new_sockets s \<Longrightarrow> k + remaining s' \<le> remaining s"
proof (induction k arbitrary: s)
  case (Suc k)
  from Suc.prems(1) obtain s1 where s1: "run_step s s1" "(run_step ^^ k) s1 s'"
    by (metis relpowp_Suc_E2)
  from remaining_decreases [OF s1(1) Suc.prems(2)] Suc.IH [OF s1(2)] show ?case by simp
qed simp

text \<open>Unless the deadline strikes, a state that is not final has a next step.\<close>

lemma run_progress:
  assumes "run_ok s" and "ru_phase s \<noteq> Exited" and "ru_phase s \<noteq> Aborted"
  obtains s' where "run_step s s'" "ru_phase s' \<noteq> Aborted"
proof (cases "ru_phase s")
  case Serving
  then show ?thesis by (intro that [OF run_step.quit [of s True]]) simp_all
next
  case (Stopping names)
  then show ?thesis
    by (cases names) (auto intro: that [OF run_step.closer_started] that [OF run_step.wait_started])
next
  case Joining
  show ?thesis
  proof (cases "run_goroutines s = 0")
    case True
    with assms(1) Joining show ?thesis by (intro that [OF run_step.wait_ended]) (simp_all add: run_ok_def)
  next
    case False
    then consider "ru_loops s \<noteq> []" | "ru_handlers s \<noteq> []" | "ru_closers s \<noteq> []"
      by (auto simp: run_goroutines_def)
    then show ?thesis
    proof cases
      case 1
      then show ?thesis by (intro that [OF run_step.accept_failed [OF hd_in_set]]) (simp_all add: Joining)
    next
      case 2
      then show ?thesis by (intro that [OF run_step.handler_ended [OF hd_in_set]]) (simp_all add: Joining)
    next
      case 3
      then have "hd (ru_closers s) \<in> set (ru_closers s)" by simp
      then show ?thesis
        by (cases "hd (ru_closers s) \<in> set (ru_open s)")
          (auto simp: Joining intro: that [OF run_step.listener_closed] that [OF run_step.closer_ended])
    qed
  qed
qed (use assms in simp_all)


section \<open>A run of the sample node\<close>

text \<open>A connection is accepted, a signal arrives, both listeners are closed and everything ends.\<close>

definition sample_serving :: runState where
  "sample_serving = \<lparr>ru_listeners = [''listen-ssh'', ''listen-http''], ru_open = [''listen-http''],
     ru_loops = [''listen-ssh'', ''listen-http''], ru_handlers = [(''listen-ssh'', 7)], ru_stopped = [],
     ru_closers = [''listen-ssh''], ru_waitGroup = 4, ru_phase = Stopping [''listen-http'']\<rparr>"

lemma sample_serving_reachable: "run_step\<^sup>*\<^sup>* (serve [''listen-ssh'', ''listen-http'']) sample_serving"
proof -
  let ?s0 = "serve [''listen-ssh'', ''listen-http'']"
  let ?s1 = "?s0\<lparr>ru_handlers := [(''listen-ssh'', 7)], ru_waitGroup := 3\<rparr>"
  let ?s2 = "?s1\<lparr>ru_phase := Stopping [''listen-ssh'', ''listen-http'']\<rparr>"
  let ?s3 = "?s2\<lparr>ru_phase := Stopping [''listen-http''], ru_closers := [''listen-ssh''], ru_waitGroup := 4\<rparr>"
  have 1: "run_step ?s0 ?s1"
    using run_step.accept_socket [of "''listen-ssh''" ?s0 7] by (simp add: serve_def startsHandlers_def)
  have 2: "run_step ?s1 ?s2"
    using run_step.quit [of ?s1 True] by (simp add: serve_def)
  have 3: "run_step ?s2 ?s3"
    using run_step.closer_started [of ?s2 "''listen-ssh''" "[''listen-http'']"] by (simp add: serve_def)
  have 4: "run_step ?s3 sample_serving"
    using run_step.listener_closed [of "''listen-ssh''" ?s3] by (simp add: serve_def sample_serving_def)
  show ?thesis
    by (rule converse_rtranclp_into_rtranclp, rule 1, rule converse_rtranclp_into_rtranclp, rule 2,
        rule converse_rtranclp_into_rtranclp, rule 3, rule r_into_rtranclp, rule 4)
qed

lemma sample_node_listeners:
  "startNode sample_runEnv sample_cli_command = Some (Inr n) \<Longrightarrow> rn_listeners n = [''listen-ssh'', ''listen-http'']"
  by (simp add: startNode_listeners sample_flags listenFlags_def)

theorem run_returns_clean_witness:
  "\<exists>n. startNode sample_runEnv sample_cli_command = Some (Inr n)
     \<and> run_step\<^sup>*\<^sup>* (serve (rn_listeners n)) sample_serving \<and> ru_waitGroup sample_serving = 4"
proof -
  obtain n where n: "startNode sample_runEnv sample_cli_command = Some (Inr n)" using sample_node_starts by blast
  have reach: "run_step\<^sup>*\<^sup>* (serve (rn_listeners n)) sample_serving"
    using sample_serving_reachable by (simp add: sample_node_listeners [OF n])
  have "ru_waitGroup sample_serving = 4"
    using run_returns_clean [OF n reach] by (simp add: sample_serving_def)
  with n reach show ?thesis by blast
qed


end
