(* ===== verification/DbTest.thy ===== *)
theory DbTest
  imports Postgres
begin

text \<open>
  \<^verbatim>\<open>db/dbtest/dbtest.go\<close>: the databases of the integration tests. A statement for the
  administrative database is retried while the server starts, until a deadline; the loop
  is written as the code has it, with None for one that does not end, and is proved to
  end. The answers of the server to the attempts and the clock are parameters.
\<close>

section \<open>Statements for the administrative database\<close>

definition testDatabasePort :: u16 where "testDatabasePort = 5432"
definition testDatabaseUser :: string where "testDatabaseUser = ''gatewaysshd''"
definition testDatabasePassword :: string where "testDatabasePassword = ''gatewaysshd''"
definition adminConnectTimeoutSeconds :: nat where "adminConnectTimeoutSeconds = 10"
definition adminConnectBudget :: duration where "adminConnectBudget = 60 * second"
definition adminRetryInterval :: duration where "adminRetryInterval = second div 2"

text \<open>
  What happens at the i-th attempt: opening with a connection string, executing a
  statement, closing, and the clock when it is read. \<open>ae_sqlState\<close> is the state that
  \<^verbatim>\<open>errors.As\<close> finds in an error of the driver.
\<close>

record adminEnv =
  ae_start :: gotime
  ae_now :: "nat \<Rightarrow> gotime"
  ae_open :: "string \<Rightarrow> nat \<Rightarrow> fault"
  ae_exec :: "string \<Rightarrow> nat \<Rightarrow> fault"
  ae_close :: "nat \<Rightarrow> fault"
  ae_sqlState :: "goerror \<Rightarrow> string option"

definition isTransientExecError :: "adminEnv \<Rightarrow> goerror \<Rightarrow> bool" where
  "isTransientExecError env err = (case ae_sqlState env err of Some code \<Rightarrow> code = ''57P03'' | None \<Rightarrow> False)"

partial_function (option) execAdminLoop ::
    "adminEnv \<Rightarrow> string \<Rightarrow> string \<Rightarrow> gotime \<Rightarrow> nat \<Rightarrow> fault option" where
  "execAdminLoop env source query deadline i =
     (case ae_open env source i of
        Some openErr \<Rightarrow>
          if timeAfter (ae_now env i) deadline then Some (Some (ErrText ''dbtest: connect to admin database''))
          else execAdminLoop env source query deadline (Suc i)
      | None \<Rightarrow>
          (case ae_exec env query i of
             None \<Rightarrow> Some (ae_close env i)
           | Some execErr \<Rightarrow>
               if isTransientExecError env execErr \<and> ae_now env i < deadline
               then execAdminLoop env source query deadline (Suc i)
               else Some (Some execErr)))"

definition adminDsn :: "string \<Rightarrow> string" where
  "adminDsn host = ''host='' @ host @ '' port='' @ decimal (unat testDatabasePort) @ '' user='' @ testDatabaseUser
     @ '' password='' @ testDatabasePassword @ '' dbname=postgres sslmode=disable connect_timeout=''
     @ decimal adminConnectTimeoutSeconds"

definition execAdmin :: "adminEnv \<Rightarrow> string \<Rightarrow> string \<Rightarrow> fault option" where
  "execAdmin env host query = execAdminLoop env (adminDsn host) query (ae_start env + adminConnectBudget) 0"

section \<open>The database of a test\<close>

datatype 'a testing = Skipped | Fatal string | Done 'a

text \<open>The names have no characters that the quotes of \<^verbatim>\<open>%q\<close> would escape.\<close>

definition quoteName :: "string \<Rightarrow> string" where
  "quoteName name = CHR 0x22 # name @ [CHR 0x22]"

definition databaseName :: "nat \<Rightarrow> u64 \<Rightarrow> string \<Rightarrow> string" where
  "databaseName pid serial ksuid =
     ''gatewaysshdtest'' @ decimal pid @ CHR ''_'' # decimal (unat serial) @ CHR ''_'' # ksuid"

text \<open>The counter is advanced also when a later step fails.\<close>

definition AcquireDatabaseWithSettings ::
    "adminEnv \<Rightarrow> (string \<Rightarrow> unit res) \<Rightarrow> fault \<Rightarrow> fault \<Rightarrow> fault \<Rightarrow> string \<Rightarrow> nat \<Rightarrow> string \<Rightarrow> u64 \<Rightarrow>
     (pool \<times> dbSettings) testing option \<times> u64" where
  "AcquireDatabaseWithSettings env parseConfig openFault poolFault migrateFault host pid ksuid databaseSerial =
     (if host = [] then (Some Skipped, databaseSerial)
      else
        let serial = databaseSerial + 1; name = databaseName pid serial ksuid;
            settings = \<lparr>ds_Host = host, ds_Port = testDatabasePort, ds_User = testDatabaseUser,
              ds_Password = testDatabasePassword, ds_DatabaseName = name, ds_SSLMode = [], ds_PeerAddress = [],
              ds_PeerSigner = None, ds_PeerHostPublicKey = None\<rparr>
        in (case execAdmin env host (''CREATE DATABASE '' @ quoteName name) of
              None \<Rightarrow> None
            | Some (Some e) \<Rightarrow> Some (Fatal ''failed to create test database'')
            | Some None \<Rightarrow>
                (case db_Open parseConfig openFault poolFault settings of
                   Inl e \<Rightarrow> Some (Fatal ''failed to open test database'')
                 | Inr database \<Rightarrow>
                     (case migrateFault of
                        Some e \<Rightarrow> Some (Fatal ''failed to migrate test database'')
                      | None \<Rightarrow> Some (Done (database, settings)))),
            serial))"

definition AcquireDatabase ::
    "adminEnv \<Rightarrow> (string \<Rightarrow> unit res) \<Rightarrow> fault \<Rightarrow> fault \<Rightarrow> fault \<Rightarrow> string \<Rightarrow> nat \<Rightarrow> string \<Rightarrow> u64 \<Rightarrow>
     pool testing option \<times> u64" where
  "AcquireDatabase env parseConfig openFault poolFault migrateFault host pid ksuid databaseSerial =
     (case AcquireDatabaseWithSettings env parseConfig openFault poolFault migrateFault host pid ksuid databaseSerial of
        (r, serial) \<Rightarrow> (map_option (\<lambda>t. case t of Skipped \<Rightarrow> Skipped | Fatal m \<Rightarrow> Fatal m | Done (database, _) \<Rightarrow> Done database) r,
                        serial))"

definition releaseDatabase :: "adminEnv \<Rightarrow> fault \<Rightarrow> string \<Rightarrow> string \<Rightarrow> unit testing option" where
  "releaseDatabase env closeFault host name =
     (case closeFault of
        Some e \<Rightarrow> Some (Fatal ''failed to close test database'')
      | None \<Rightarrow>
          (case execAdmin env host (''DROP DATABASE '' @ quoteName name @ '' WITH (FORCE)'') of
             None \<Rightarrow> None
           | Some (Some e) \<Rightarrow> Some (Fatal ''failed to drop test database'')
           | Some None \<Rightarrow> Some (Done ())))"

text \<open>
  A statement for the database of a test is not retried. Whatever happens to it, the
  connection is closed; the last call of \<^verbatim>\<open>Fatalf\<close> decides the message.
\<close>

definition closeDatabase :: "fault \<Rightarrow> fault \<Rightarrow> fault" where
  "closeDatabase poolFault closeFault = (case poolFault of Some e \<Rightarrow> Some e | None \<Rightarrow> closeFault)"

definition ExecSQL :: "fault \<Rightarrow> (string \<Rightarrow> fault) \<Rightarrow> fault \<Rightarrow> fault \<Rightarrow> string \<Rightarrow> unit testing" where
  "ExecSQL openFault exec poolFault closeFault query =
     (case openFault of
        Some e \<Rightarrow> Fatal ''failed to open test database for raw sql''
      | None \<Rightarrow>
          (case closeDatabase poolFault closeFault of
             Some e \<Rightarrow> Fatal ''failed to close test database''
           | None \<Rightarrow> (case exec query of Some e \<Rightarrow> Fatal ''failed to execute'' | None \<Rightarrow> Done ())))"

lemma ExecSQL_Done: "ExecSQL openFault exec poolFault closeFault query = Done () \<longleftrightarrow>
    openFault = None \<and> exec query = None \<and> poolFault = None \<and> closeFault = None"
  by (simp add: ExecSQL_def closeDatabase_def split: option.splits)

section \<open>The retries end\<close>

text \<open>Between two attempts the loop waits for the retry interval.\<close>

definition clock_advances :: "adminEnv \<Rightarrow> bool" where
  "clock_advances env \<longleftrightarrow> ae_start env \<le> ae_now env 0 \<and> (\<forall>i. ae_now env i + adminRetryInterval \<le> ae_now env (Suc i))"

definition retried :: "adminEnv \<Rightarrow> string \<Rightarrow> string \<Rightarrow> nat \<Rightarrow> bool" where
  "retried env source query i \<longleftrightarrow>
     (case ae_open env source i of
        Some e \<Rightarrow> ae_now env i \<le> ae_start env + adminConnectBudget
      | None \<Rightarrow> (case ae_exec env query i of
                   None \<Rightarrow> False
                 | Some e \<Rightarrow> isTransientExecError env e \<and> ae_now env i < ae_start env + adminConnectBudget))"

lemma clock_advances_by:
  assumes "clock_advances env"
  shows "ae_start env + int i * adminRetryInterval \<le> ae_now env i"
proof (induction i)
  case (Suc i)
  have "ae_now env i + adminRetryInterval \<le> ae_now env (Suc i)" using assms by (simp add: clock_advances_def)
  with Suc.IH show ?case by (simp add: distrib_right)
qed (use assms in \<open>simp add: clock_advances_def\<close>)

lemma not_retried:
  assumes "clock_advances env" and "120 < i"
  shows "\<not> retried env source query i"
proof -
  have "121 * adminRetryInterval \<le> int i * adminRetryInterval"
    using assms(2) by (intro mult_right_mono) (simp_all add: adminRetryInterval_def second_def)
  then have "ae_start env + adminConnectBudget < ae_now env i"
    using clock_advances_by [OF assms(1), of i] by (simp add: adminConnectBudget_def adminRetryInterval_def second_def)
  then show ?thesis by (auto simp: retried_def split: option.splits)
qed

lemma execAdminLoop_step:
  "execAdminLoop env source query (ae_start env + adminConnectBudget) i =
     (if retried env source query i then execAdminLoop env source query (ae_start env + adminConnectBudget) (Suc i)
      else case ae_open env source i of
             Some e \<Rightarrow> Some (Some (ErrText ''dbtest: connect to admin database''))
           | None \<Rightarrow> (case ae_exec env query i of None \<Rightarrow> Some (ae_close env i) | Some e \<Rightarrow> Some (Some e)))"
  by (subst execAdminLoop.simps) (auto simp: retried_def timeAfter_def split: option.splits)

lemma execAdminLoop_skips:
  "(\<And>j. j < i \<Longrightarrow> retried env source query j) \<Longrightarrow>
     execAdminLoop env source query (ae_start env + adminConnectBudget) 0 =
     execAdminLoop env source query (ae_start env + adminConnectBudget) i"
proof (induction i)
  case (Suc i)
  then have "execAdminLoop env source query (ae_start env + adminConnectBudget) 0 =
      execAdminLoop env source query (ae_start env + adminConnectBudget) i" by simp
  with Suc.prems [of i] show ?case by (subst (asm) (2) execAdminLoop_step) simp
qed simp

text \<open>C39: An administrative statement of the tests is attempted at most 122 times, so it always returns:
  the result is that of the first attempt that is not a failure to connect or a server in
  recovery within the budget of one minute. It is an error unless the statement was executed
  and the connection closed at that attempt.\<close>

theorem execAdmin_returns:
  assumes "clock_advances env"
  shows "\<exists>i r. i \<le> 121 \<and> execAdmin env host query = Some r
    \<and> (\<forall>j < i. retried env (adminDsn host) query j) \<and> \<not> retried env (adminDsn host) query i
    \<and> (r = None \<longleftrightarrow> ae_open env (adminDsn host) i = None \<and> ae_exec env query i = None \<and> ae_close env i = None)"
proof -
  let ?retried = "retried env (adminDsn host) query"
  define i where "i = (LEAST i. \<not> ?retried i)"
  have last: "\<not> ?retried i" unfolding i_def by (rule LeastI, rule not_retried [OF assms, of 121]) simp
  have before: "?retried j" if "j < i" for j using not_less_Least that unfolding i_def by blast
  have "i \<le> 121" unfolding i_def by (rule Least_le, rule not_retried [OF assms]) simp
  moreover have "\<exists>r. execAdmin env host query = Some r
      \<and> (r = None \<longleftrightarrow> ae_open env (adminDsn host) i = None \<and> ae_exec env query i = None \<and> ae_close env i = None)"
    using execAdminLoop_skips [OF before, of i] execAdminLoop_step [of env "adminDsn host" query i] last
    by (auto simp: execAdmin_def split: option.splits)
  ultimately show ?thesis using last before by blast
qed

definition sample_adminEnv :: adminEnv where
  "sample_adminEnv = \<lparr>ae_start = 0, ae_now = (\<lambda>i. int i * second), ae_open = (\<lambda>_ i. if i = 0 then Some (ErrExternal 1) else None),
     ae_exec = (\<lambda>_ i. if i = 1 then Some (ErrExternal 2) else None), ae_close = (\<lambda>_. None),
     ae_sqlState = (\<lambda>e. if e = ErrExternal 2 then Some ''57P03'' else None)\<rparr>"

theorem execAdmin_returns_witness:
  "clock_advances sample_adminEnv \<and> execAdmin sample_adminEnv ''db'' ''SELECT 1'' = Some None"
proof -
  have advances: "clock_advances sample_adminEnv"
    by (simp add: clock_advances_def sample_adminEnv_def adminRetryInterval_def second_def)
  let ?retried = "retried sample_adminEnv (adminDsn ''db'') ''SELECT 1''"
  have early: "?retried 0" "?retried 1"
    by (simp_all add: retried_def sample_adminEnv_def isTransientExecError_def adminConnectBudget_def second_def)
  obtain i r where r: "execAdmin sample_adminEnv ''db'' ''SELECT 1'' = Some r" and i: "\<not> ?retried i"
      and result: "r = None \<longleftrightarrow> ae_open sample_adminEnv (adminDsn ''db'') i = None \<and> ae_exec sample_adminEnv ''SELECT 1'' i = None
        \<and> ae_close sample_adminEnv i = None"
    using execAdmin_returns [OF advances, of "''db''" "''SELECT 1''"] by blast
  have "i \<noteq> 0" "i \<noteq> 1" using i early by metis+
  with result have "r = None" by (simp add: sample_adminEnv_def)
  with r have "execAdmin sample_adminEnv ''db'' ''SELECT 1'' = Some None" by simp
  with advances show ?thesis by simp
qed

section \<open>The names of the databases\<close>

lemma decimal_inject: "decimal m = decimal n \<longleftrightarrow> m = n"
proof
  assume "decimal m = decimal n"
  then have "parseUintLoop (max m n) 0 (decimal m) = parseUintLoop (max m n) 0 (decimal n)" by (rule arg_cong)
  then show "m = n" unfolding parseUintLoop_decimal [OF max.cobounded1] parseUintLoop_decimal [OF max.cobounded2] by simp
qed (rule arg_cong)

lemma underscore_decimal: "CHR ''_'' \<notin> set (decimal n)"
  using set_decimal [of n] by (auto simp: isDigit_def)

lemma append_at_underscore:
  "CHR ''_'' \<notin> set xs \<Longrightarrow> CHR ''_'' \<notin> set ys \<Longrightarrow>
     xs @ CHR ''_'' # us = ys @ CHR ''_'' # vs \<longleftrightarrow> xs = ys \<and> us = vs"
proof (induction xs arbitrary: ys)
  case Nil
  then show ?case by (cases ys) auto
next
  case (Cons x xs)
  then show ?case by (cases ys) auto
qed

text \<open>
  Two tests never share a database: the names differ for different processes, and within a
  process for different values of the counter, whatever the random part is.
\<close>

lemma databaseName_inject:
  "databaseName pid serial ksuid = databaseName pid' serial' ksuid' \<longleftrightarrow> pid = pid' \<and> serial = serial' \<and> ksuid = ksuid'"
  by (simp add: databaseName_def append_at_underscore underscore_decimal decimal_inject)
     (simp only: word_unat_eq_iff [of serial])

end
