(* ===== verification/Spec2Isabelle.thy ===== *)
theory Spec2Isabelle
  imports Migration Node Serving DbTest
begin

text \<open>
  gatewaysshd is an ssh server where the machines of many users meet: a user exposes services
  by name through a connection, other users reach them through tunnels, and several nodes
  form a mesh that shares one postgres database. This development models the program and
  proves what makes it correct. Paths are relative to \<^verbatim>\<open>src/\<close>.

  \<^bold>\<open>The parts and how they interact.\<close> The command (\<^verbatim>\<open>cli\<close>) reads the flags, opens the listeners and
  the database (\<^verbatim>\<open>db\<close>), migrates it, and opens the gateway. The authenticator (\<^verbatim>\<open>auth\<close>) decides a
  login with the certificate of the client and the row of the user. The gateway (\<^verbatim>\<open>gateway\<close>)
  then keeps the connection, its services and tunnels; answers its requests, channels and
  commands; records in the database which node a user is on; finds, dials and watches the
  other nodes; and serves the SOCKS and http proxies.

  \<^bold>\<open>How the code is represented.\<close> A struct is a record, a Go map an association list
  (\<open>gomap\<close>, \<open>mget\<close>, \<open>mput\<close>, \<open>mdel\<close>), an error a value of \<open>goerror\<close>, and a fallible call has a result in
  \<open>'a res\<close>. Fixed-width integers are words; a time is an integer number of nanoseconds. An
  object that is shared by pointer lives in a store of the gateway under a number (\<open>ref\<close>).
  Clock readings, answers of the ssh library, errors of the database (\<open>fault\<close>) and of sockets
  are arguments. A goroutine that a handler starts is a value (\<open>task\<close>); a loop around \<^verbatim>\<open>select\<close>
  consumes the list of the events it picks up and is None while it waits; and where the
  interleaving of goroutines matters, their atomic steps are the rules of an inductive
  relation (\<open>presence_step\<close>, \<open>node_step\<close>, \<open>run_step\<close>).

  \<^bold>\<open>The theories, from the bottom.\<close>
  \<^item> \<open>Prelude\<close>: errors, results, Go maps, times, bytes; \<open>GoStrings\<close>: the functions of \<^verbatim>\<open>strings\<close>,
    \<^verbatim>\<open>strconv\<close>, \<^verbatim>\<open>net\<close> and \<^verbatim>\<open>encoding/csv\<close> that the program computes with; \<open>Json\<close>: the syntax check
    of \<^verbatim>\<open>encoding/json\<close>; \<open>TtlCache\<close>: the contract of an expiring, bounded cache.
  \<^item> \<open>Wire\<close>: the payload encoding of the vendored ssh library (\<^verbatim>\<open>ssh/messages.go\<close>) and the tunnel and
    forward requests of \<^verbatim>\<open>gateway/utils.go\<close>; \<open>Cert\<close>: its certificate checks (\<^verbatim>\<open>ssh/certs.go\<close>,
    \<^verbatim>\<open>ssh/server.go\<close>) and signers; \<open>Keys\<close>: its textual key format (\<^verbatim>\<open>ssh/keys.go\<close>) with base64.
  \<^item> \<open>Models\<close>, \<open>Database\<close>: \<^verbatim>\<open>db/models.go\<close>, \<^verbatim>\<open>db/users.go\<close>, \<^verbatim>\<open>db/nodes.go\<close>, each query one transaction on two
    tables; \<open>Postgres\<close>: \<^verbatim>\<open>db/db.go\<close>, \<^verbatim>\<open>db/ssh.go\<close> and the parser of connection strings in the vendored
    driver; \<open>Migration\<close>: \<^verbatim>\<open>db/migrations/migrations.go\<close>, \<^verbatim>\<open>db/migration.go\<close>; \<open>DbTest\<close>:
    \<^verbatim>\<open>db/dbtest/dbtest.go\<close>.
  \<^item> \<open>Auth\<close>: \<^verbatim>\<open>auth/auth.go\<close>, with \<open>authenticate\<close> the whole callback.
  \<^item> \<open>Usage\<close>, \<open>Tunnel\<close>, \<open>Connection\<close>, \<open>RouteCache\<close>: \<^verbatim>\<open>gateway/utils.go\<close>, \<^verbatim>\<open>gateway/tunnel.go\<close>, the state and
    the global requests in \<^verbatim>\<open>gateway/connection.go\<close>, \<^verbatim>\<open>gateway/routecache.go\<close>; \<open>Gateway\<close>: the registry of
    connections and the service lookup of \<^verbatim>\<open>gateway/gateway.go\<close>; \<open>Routing\<close>: the choice of a peer
    and the opening of tunnels; \<open>Channels\<close>: the channel handlers of \<^verbatim>\<open>gateway/connection.go\<close>;
    \<open>Presence\<close>, \<open>Convergence\<close>: heartbeat, release, kicking, scavenging and listings, alone and
    interleaved; \<open>Peering\<close>: \<^verbatim>\<open>gateway/peer.go\<close>, \<^verbatim>\<open>util/sshconfig/sshconfig.go\<close>, and the opening and closing
    of the gateway; \<open>Service\<close>: \<^verbatim>\<open>gateway/service.go\<close>, \<^verbatim>\<open>gateway/session.go\<close>; \<open>Socks\<close>, \<open>Proxy\<close>:
    \<^verbatim>\<open>util/socks/socks.go\<close>, \<^verbatim>\<open>gateway/socks.go\<close>, \<^verbatim>\<open>gateway/httpproxy.go\<close>.
  \<^item> \<open>Flags\<close>, \<open>Cli\<close>, \<open>Serving\<close>: \<^verbatim>\<open>cli/flags.go\<close>, \<^verbatim>\<open>cli/cli.go\<close>, \<^verbatim>\<open>cli/http.go\<close>, \<^verbatim>\<open>cli/run.go\<close>; \<open>Node\<close>: a whole node,
    with every goroutine of the gateway, from its start.

  \<^bold>\<open>Interfaces.\<close> Four locales state what one component relies on in another, and each is
  interpreted on the definitions of the model: \<open>payload_codec\<close> (encoding and decoding of a
  payload; both payloads of the gateway), \<open>ttl_cache\<close> (what a lookup returns after any
  operations; the cache of login flags and the route cache), \<open>presence_store\<close> (what the queries
  do to the recorded node of a user; the database), and \<open>tunnel_opener\<close> (what opening a tunnel
  keeps; connections and peers).

  \<^bold>\<open>What is shown.\<close>
  \<^item> Who gets in: an accepted login has a valid certificate of the right authority, users never
    become peers, the flags that decide are fresh, disabled users are refused (\<open>Auth\<close>). In every
    state that a started node can reach, each goroutine belongs to a connection that such a
    certificate opened, and may do what it does (\<open>Node\<close>); a node without the flags of the mesh
    has no peers at all (this theory).
  \<^item> State: every reachable state of a node is well formed (\<open>gateway_wf\<close> in \<open>Node\<close>, over
    \<open>registry_ok\<close>, \<open>peers_ok\<close>, \<open>tunnels_ok\<close>, \<open>caches_ok\<close> and \<open>db_wf\<close>), with 64-bit counters that wrap
    around.
  \<^item> Tunnels: who may open which tunnel and where it leads, the longest matching user name,
    routes and their cache, what the target decodes, and that tunnels are closed again
    (\<open>Gateway\<close>, \<open>Routing\<close>, \<open>Channels\<close>, \<open>Proxy\<close>).
  \<^item> Presence: the database shows a user on a node only while connected, under every
    interleaving, up to the users the theorem names (\<open>Convergence\<close>).
  \<^item> Mesh: registered nodes are dialled with the pinned key, dead peers are evicted (\<open>Peering\<close>),
    configured nodes connect and bridge the database in one hop (this theory).
  \<^item> Sessions: what each command may read and change, exit status, kicking (\<open>Service\<close>).
  \<^item> Migrations are executed exactly once over any number of failed attempts, and an upgrade
    followed by a downgrade is undone (\<open>Migration\<close>).
  \<^item> Formats: payloads, SOCKS requests, keys and connection strings are read back as they were
    written, with their exact exceptions (\<open>Wire\<close>, \<open>Socks\<close>, \<open>Keys\<close>, \<open>Postgres\<close>).
  \<^item> Ends: key files are read to their end (\<open>Flags\<close>), a start-up always returns and is consistent
    (\<open>Cli\<close>), a shutdown ends with every listener, connection and goroutine closed (\<open>Cli\<close>, \<open>Serving\<close>),
    and administrative statements are retried at most 122 times (\<open>DbTest\<close>).

  Each theorem with a hypothesis is followed by a witness that applies it to concrete values.
  A theorem may describe a flaw: for instance that a key file with a blank last line is
  refused, or that an empty password makes the driver read the next setting as the password.

  \<^bold>\<open>Bounds.\<close> Only the trimming of white space counts its steps (\<open>dropSpaces\<close>), and starts with the length
  of the string, of which each step removes a character. The loops that might not end (\<open>publicKeysLoop\<close>,
  \<open>execAdminLoop\<close>) are partial functions and proved to return; the other non-structural loops
  have termination proofs. The bounds that appear are those of the code: 4096 entries and a
  minute for login flags, the size and fifteen seconds of the route cache, ninety seconds for a
  heartbeat, 10000 levels of JSON, sixty seconds in steps of half a second for administrative
  statements.

  \<^bold>\<open>Parameters.\<close> Signature checks of certificates, binary encodings of keys (\<open>keyFormat\<close>), private
  key files, the geoip database, the ssh handshake and its channels, the postgres server, the
  router and the reverse proxy of http are arguments, with what is relied on as
  hypotheses: that an encoded key can be parsed (\<open>keyOk\<close>), that private key files hold plain
  keys, that a handshake which both sides accept succeeds, that a timer does not fire early.

  \<^bold>\<open>Not modelled.\<close> The bytes that are copied through tunnels; log messages; the JSON text of a
  location and of the listings, which are kept as values; the time-outs of sockets; the
  rounding of times in the database; the debug server, the recovery from panics, the main
  program, the parsing of arguments and the scripts of the release, which have no state of
  the program; and the rest of the vendored libraries.
\<close>

section \<open>A node on its own\<close>

lemma newCommand_default:
  "mget given name = None \<Longrightarrow> map_of cliFlags name = Some (StringFlag v) \<Longrightarrow> co_String (newCommand version commit given) name = v"
  by (simp add: newCommand_def flagValueOf_def)

lemma off_by_default:
  "map_of cliFlags ''listen-socks'' = Some (StringFlag [])" "map_of cliFlags ''listen-http-proxy'' = Some (StringFlag [])"
  "map_of cliFlags ''node-id'' = Some (StringFlag [])" "map_of cliFlags ''peer-ca-public-key'' = Some (StringFlag [])"
  by (simp_all add: cliFlags_def)

lemma startNode_no_peers:
  "startNode env cmd = Some (Inr n) \<Longrightarrow> co_String cmd ''peer-ca-public-key'' = [] \<Longrightarrow> as_PeerCAPublicKeys (rn_auth n) = []"
  by (auto simp: startNode_def bind_run_Inr)

lemma startNode_unregistered:
  assumes "startNode env cmd = Some (Inr n)" and "co_String cmd ''node-id'' = []"
  shows "gw_database (rn_gateway n) = en_database env"
  using assms by (auto simp: startNode_def bind_run_Inr gateway_Open_def gatewaySettings_def newGateway_def)


text \<open>The sample node with the default flags, except for the name of its authority file.\<close>

definition sample_given :: "(string, flagValue) gomap" where
  "sample_given = [(''ca-public-key'', StringFlag ''ca.pub'')]"

lemma sample_default_flags:
  "co_String (newCommand version commit sample_given) ''ca-public-key'' = ''ca.pub''"
  "co_String (newCommand version commit sample_given) ''node-certificate'' = []"
  "co_String (newCommand version commit sample_given) ''postgres-password-file'' = []"
  "co_String (newCommand version commit sample_given) ''postgres-peer'' = []"
  "co_String (newCommand version commit sample_given) ''node-id'' = []"
  "co_String (newCommand version commit sample_given) ''peer-ca-public-key'' = []"
  "co_String (newCommand version commit sample_given) ''listen-debug'' \<noteq> []"
  "co_Uint (newCommand version commit sample_given) ''postgres-port'' = 5432"
  by (simp_all add: newCommand_def flagValueOf_def sample_given_def cliFlags_def)

lemma sample_default_starts: "\<exists>n. startNode sample_runEnv (newCommand version commit sample_given) = Some (Inr n)"
proof -
  let ?cmd = "newCommand version commit sample_given"
  have host: "parseHostSigner sample_cliEnv ?cmd = Inr \<lparr>sg_key = [1], sg_certificate = None\<rparr>"
    using ParseAuthorizedKey_marshalled [OF sample_key_ok [of "[1, 2]"]]
    by (simp add: parseHostSigner_def sample_cliEnv_def)
  have "\<exists>opened'. openListeners sample_runEnv ?cmd opened names = Inr opened'" for opened names
    by (induction names arbitrary: opened) (auto simp: sample_run_env)
  then obtain opened where opened: "listeners sample_runEnv ?cmd = Inr opened"
    by (metis listeners_def sample_run_env(2) bind_res_simps(2))
  have "en_DebugServer sample_runEnv path = Inr ()" for path by (simp add: sample_runEnv_def cliEnv.defs)
  with host opened show ?thesis
    by (simp add: startNode_def sample_run_env sample_default_flags sample_ca parseCaPublicKeys_def parseIdleTimeout_def
        parseNodeSigner_def databaseSettings_def parsePostgresPassword_def db_Open_def gateway_Open_def gatewaySettings_def)
qed


section \<open>Two nodes\<close>

lemma startNode_registers:
  assumes "startNode env cmd = Some (Inr n)" and "co_String cmd ''node-id'' \<noteq> []"
  obtains node where "mget (db_nodes (gw_database (rn_gateway n))) (nd_ID node) = Some node"
    "nd_ID node = co_String cmd ''node-id''" "nd_Address node = co_String cmd ''node-address''"
    "nd_HostPublicKey node = MarshalAuthorizedKey (en_format env) (publishedHostKey (rn_hostSigner n))"
    "nd_Online node" "nd_OnlineAt node = en_now env"
proof -
  obtain nodeSigner where opened: "gateway_Open (en_format env) (en_putFault env) (en_now env) (en_now' env) (en_database env) []
      (gatewaySettings cmd (rn_hostSigner n) nodeSigner) = Inr (rn_gateway n)"
    using assms(1) by (auto simp: startNode_def bind_run_Inr)
  let ?g = "newGateway (en_database env) [] (gatewaySettings cmd (rn_hostSigner n) nodeSigner)"
  have id: "gs_NodeID (gw_settings ?g) = co_String cmd ''node-id''"
      "gs_HostPublicKey (gw_settings ?g) = Some (publishedHostKey (rn_hostSigner n))"
    by (simp_all add: newGateway_def gatewaySettings_def)
  have "en_putFault env = None"
    using opened assms(2) by (auto simp: gateway_Open_def registerNode_def db_PutNode_def gatewaySettings_def newGateway_def Let_def
        split: option.splits)
  with opened assms(2) have "rn_gateway n = snd (registerNode (en_format env) None (en_now env) (en_now' env) True ?g)"
    by (auto simp: gateway_Open_def gatewaySettings_def split: prod.splits sum.splits)
  moreover obtain node where "snd (registerNode (en_format env) None (en_now env) (en_now' env) True ?g) =
      ?g\<lparr>gw_database := (gw_database ?g)\<lparr>db_nodes := mput (gs_NodeID (gw_settings ?g)) node (db_nodes (gw_database ?g))\<rparr>\<rparr>"
      "nd_ID node = gs_NodeID (gw_settings ?g)" "nd_Address node = gs_NodeAddress (gw_settings ?g)"
      "nd_HostPublicKey node = MarshalAuthorizedKey (en_format env) (publishedHostKey (rn_hostSigner n))"
      "nd_Online node = True" "nd_OnlineAt node = en_now env"
    using id assms(2) by (metis registerNode_row)
  ultimately show thesis using id by (intro that [of node]) (simp_all add: gomap_simps newGateway_def gatewaySettings_def)
qed

lemma startNode_hostKey:
  assumes "startNode env cmd = Some (Inr n)" and "\<And>raw s. en_ParsePrivateKey env raw = Inr s \<Longrightarrow> sg_certificate s = None"
  shows "publishedHostKey (rn_hostSigner n) = PlainKey (sg_key (rn_hostSigner n))"
    and "(case signer_PublicKey (rn_hostSigner n) of PlainKey k \<Rightarrow> k | CertKey c \<Rightarrow> ct_Key c) = sg_key (rn_hostSigner n)"
proof -
  have host: "parseHostSigner (cli_env env) cmd = Inr (rn_hostSigner n)" using assms(1) by (rule startNode_parts)
  show "publishedHostKey (rn_hostSigner n) = PlainKey (sg_key (rn_hostSigner n))"
  proof (rule parseHostSigner_key [OF host])
    fix raw key
    assume "en_ParsePrivateKey (cli_env env) raw = Inr key" "sg_key (rn_hostSigner n) = sg_key key"
      "sg_certificate key = None \<Longrightarrow> publishedHostKey (rn_hostSigner n) = PlainKey (sg_key key)"
    then show ?thesis using assms(2) [of raw key] by (simp add: cli_env_def)
  qed
  then show "(case signer_PublicKey (rn_hostSigner n) of PlainKey k \<Rightarrow> k | CertKey c \<Rightarrow> ct_Key c) = sg_key (rn_hostSigner n)"
    by (auto simp: publishedHostKey_def split: publicKey.splits)
qed

text \<open>
  An ssh handshake with a node succeeds when the client accepts the host key of the node and
  the node accepts the certificate that the client presents for its user name.
\<close>

definition accepts_client :: "(certificate \<Rightarrow> bool) \<Rightarrow> (nat \<Rightarrow> gotime) \<Rightarrow> string \<Rightarrow> runningNode \<Rightarrow> clientConfig \<Rightarrow> bool" where
  "accepts_client verify clk remoteIP n config \<longleftrightarrow>
     cc_HostKeyCallback config (signer_PublicKey (rn_hostSigner n)) = Inr ()
     \<and> (\<exists>signer perms st' background. cc_Signer config = Some signer
          \<and> authenticate verify None (rn_auth n) None clk \<lparr>cm_User = cc_User config, cm_RemoteIP = remoteIP\<rparr>
              (signer_PublicKey signer) (auth_state (rn_gateway n)) = (Inr perms, st', background))"

text \<open>C6: Nodes that are configured for each other connect. A node that has started with an id and an
  address is found in the shared database by every node that can sign, for ninety seconds;
  that node dials it, accepts the host key the started node presents, plain or in a
  certificate, and is accepted with its own certificate if one of the authorities in the peer
  authority file signed it; and the started node becomes its peer. The hypothesis about
  \<open>dial\<close> is that a handshake which both sides accept succeeds.\<close>

theorem mesh_link:
  assumes "startNode env cmd = Some (Inr n)" and "\<And>raw s. en_ParsePrivateKey env raw = Inr s \<Longrightarrow> sg_certificate s = None"
    and "co_String cmd ''node-id'' \<noteq> []" and "co_String cmd ''node-address'' \<noteq> []"
    and "keyOk (en_format env) (PlainKey (sg_key (rn_hostSigner n)))"
    and "gw_database h = gw_database (rn_gateway n)" and "gs_NodeID (gw_settings h) \<noteq> co_String cmd ''node-id''"
    and "getPeer (co_String cmd ''node-id'') h = None"
    and "gs_NodeSigner (gw_settings h) = Some signer" and "sg_certificate signer = Some cert"
    and "ct_SignatureKey cert \<in> set (as_PeerCAPublicKeys (rn_auth n))" and "cert_valid_for verify (clk 0) PeerUser cert"
    and "ct_KeyId cert \<noteq> []"
    and "en_now env \<noteq> 0" and "t - en_now env < 90 * second" and "discoverPeers None (\<lambda>_. t) h = Inr nodes"
    and dial: "\<And>config. accepts_client verify clk remoteIP n config \<Longrightarrow> dial (co_String cmd ''node-address'') config = Inr ()"
  shows "\<exists>node \<in> set nodes. \<exists>p h'. connectToPeer (en_format env) dial node h = (Some p, h')
    \<and> getPeer (co_String cmd ''node-id'') h' = Some p"
proof -
  let ?key = "sg_key (rn_hostSigner n)"
  obtain node where row: "mget (db_nodes (gw_database (rn_gateway n))) (nd_ID node) = Some node"
      and node: "nd_ID node = co_String cmd ''node-id''" "nd_Address node = co_String cmd ''node-address''"
        "nd_HostPublicKey node = MarshalAuthorizedKey (en_format env) (publishedHostKey (rn_hostSigner n))"
        "nd_Online node" "nd_OnlineAt node = en_now env"
    by (rule startNode_registers [OF assms(1,3)])
  have host: "publishedHostKey (rn_hostSigner n) = PlainKey ?key"
      "(case signer_PublicKey (rn_hostSigner n) of PlainKey k \<Rightarrow> k | CertKey c \<Rightarrow> ct_Key c) = ?key"
    using startNode_hostKey [OF assms(1)] assms(2) by blast+
  have found: "node \<in> set nodes"
    using discoverPeers_registered [of h node t nodes signer] row node assms(4,6-9,14-16) by simp
  let ?config = "NewPeerClientConfig (en_format env) (Some signer) (PlainKey ?key)"
  have "cc_HostKeyCallback ?config (signer_PublicKey (rn_hostSigner n)) = Inr ()"
    using host(2) by (simp add: peer_host_key_iff keyMarshal_def split: publicKey.splits)
  moreover have "\<exists>perms. authenticatePeer verify (rn_auth n) (clk 0) \<lparr>cm_User = PeerUser, cm_RemoteIP = remoteIP\<rparr> (CertKey cert) = Inr perms"
    using assms(11-13) by (simp add: authenticatePeer_iff)
  ultimately have "accepts_client verify clk remoteIP n ?config"
    using assms(10) by (auto simp: accepts_client_def peer_config authenticate_def signer_PublicKey_def)
  then have "dial (nd_Address node) (NewPeerClientConfig (en_format env) (gs_NodeSigner (gw_settings h)) (PlainKey ?key)) = Inr ()"
    using dial assms(9) node by simp
  from connectToPeer_registered [of node "en_format env" ?key dial h] this node host(1) assms(5,8) found show ?thesis
    by (metis (no_types, lifting))
qed

theorem mesh_link_witness:
  "\<exists>n. startNode sample_runEnv sample_peer_command = Some (Inr n)
     \<and> (\<exists>node p h'. connectToPeer sample_keyFormat (\<lambda>_ _. Inr ()) node
          (sample_gateway\<lparr>gw_database := gw_database (rn_gateway n), gw_settings := sample_gwSettings\<lparr>gs_NodeID := ''node-c'',
             gs_NodeSigner := Some \<lparr>sg_key = [9], sg_certificate = Some sample_peer_cert\<rparr>\<rparr>\<rparr>) = (Some p, h')
        \<and> getPeer ''node-a'' h' = Some p)"
proof -
  obtain n where n: "startNode sample_runEnv sample_peer_command = Some (Inr n)" "as_PeerCAPublicKeys (rn_auth n) = [[1, 2]]"
      "rn_hostSigner n = \<lparr>sg_key = [1], sg_certificate = None\<rparr>"
    by (rule sample_peer_node)
  let ?signer = "\<lparr>sg_key = [9], sg_certificate = Some sample_peer_cert\<rparr>"
  let ?h = "sample_gateway\<lparr>gw_database := gw_database (rn_gateway n),
      gw_settings := sample_gwSettings\<lparr>gs_NodeID := ''node-c'', gs_NodeSigner := Some ?signer\<rparr>\<rparr>"
  have nodes: "discoverPeers None (\<lambda>_. 2) ?h = Inr (projr (discoverPeers None (\<lambda>_. 2) ?h))"
    by (simp add: discoverPeers_def db_ListNodes_def)
  have env: "en_format sample_runEnv = sample_keyFormat" "en_now sample_runEnv = 1"
      "\<And>raw s. en_ParsePrivateKey sample_runEnv raw = Inr s \<Longrightarrow> sg_certificate s = None"
    by (auto simp: sample_runEnv_def sample_cliEnv_def cliEnv.defs)
  have flags: "co_String sample_peer_command ''node-id'' = ''node-a''" "co_String sample_peer_command ''node-address'' = ''a:22''"
    by (simp_all add: sample_peer_command_def sample_flags)
  have "\<exists>node \<in> set (projr (discoverPeers None (\<lambda>_. 2) ?h)). \<exists>p h'.
      connectToPeer (en_format sample_runEnv) (\<lambda>_ _. Inr ()) node ?h = (Some p, h')
      \<and> getPeer (co_String sample_peer_command ''node-id'') h' = Some p"
  proof (rule mesh_link [where h = ?h and signer = ?signer and cert = sample_peer_cert and verify = "\<lambda>_. True"
        and clk = sample_clock and t = 2 and remoteIP = "''10.9.9.9''", OF n(1) env(3) _ _ _ _ _ _ _ _ _ _ _ _ _ nodes])
    show "getPeer (co_String sample_peer_command ''node-id'') ?h = None" by (simp add: getPeer_def sample_gateway_defs Let_def)
    show "cert_valid_for (\<lambda>_. True) (sample_clock 0) PeerUser sample_peer_cert"
      using sample_peer_cert_valid by (simp add: PeerUser_def)
  qed (simp_all add: flags env n sample_key_ok sample_peer_cert_def sample_defs second_def)
  with n(1) show ?thesis by (auto simp: env flags)
qed

text \<open>C12: A node that has started and has a database of its own bridges it to its peers, to the request
  that the database package of another node sends; the two packages agree on its encoding.
  A node that itself reaches the database through a peer refuses such a request and ends the
  connection, so that bridges do not form chains or loops.\<close>

theorem postgres_via_peer:
  assumes "startNode env cmd = Some (Inr n)" and "db_wf (en_database env)"
    and "node_reachable verify (rn_auth n) (rn_gateway n) s" and "cn_nodeId (gw_connection (ns_gateway s) r) \<noteq> []"
    and "dial address (NewPeerClientConfig fmt signer pinned) = Inr client"
    and "\<And>nc. openChannel client nc =
      (case connectionEvent r (ChannelEvent clk faults (Inr ch) closeFault nc) (ns_gateway s) of
         (True, tasks, g') \<Rightarrow> Inr ch | (False, tasks, g') \<Rightarrow> Inl ErrEOF)"
  shows "(co_String cmd ''postgres-peer'' = [] \<longrightarrow>
       connectionEvent r (ChannelEvent clk faults (Inr ch) closeFault
           \<lparr>nc_ChannelType = ''direct-tcpip'', nc_ExtraData = postgresRequest\<rparr>) (ns_gateway s) =
         (True, [DiscardRequests r ch, BridgePostgres r ch
            (co_String cmd ''postgres-host'' @ CHR '':'' # decimal (unat (co_Uint cmd ''postgres-port'')))], ns_gateway s)
       \<and> dialPostgresViaPeer fmt dial openChannel address signer pinned =
         (Inr \<lparr>tc_channel = ch, tc_client = client\<rparr>, [RequestsDiscarded ch]))
    \<and> (co_String cmd ''postgres-peer'' \<noteq> [] \<longrightarrow>
       dialPostgresViaPeer fmt dial openChannel address signer pinned =
         (Inl (ErrText ''db: failed to open postgres tunnel''), [ClientClosed client]))"
proof -
  let ?nc = "\<lparr>nc_ChannelType = ''direct-tcpip'', nc_ExtraData = postgresRequest\<rparr>"
  have "static (rn_gateway n) (ns_gateway s)"
    using node_inv_reachable [OF assms(3) startNode_gateway [OF assms(1,2)]] by simp
  moreover obtain nodeSigner where "gw_settings (rn_gateway n) = gatewaySettings cmd (rn_hostSigner n) nodeSigner"
    using assms(1) by (rule startNode_parts)
  ultimately have address: "gs_PostgresAddress (gw_settings (ns_gateway s)) = postgresAddress cmd"
    by (simp add: static_def gatewaySettings_def)
  have event: "connectionEvent r (ChannelEvent clk faults (Inr ch) closeFault ?nc) (ns_gateway s) =
      (if postgresAddress cmd = [] then (False, [], ns_gateway s)
       else (True, [DiscardRequests r ch, BridgePostgres r ch (postgresAddress cmd)], ns_gateway s))"
    using assms(4) address
    by (simp add: connectionEvent_def handleChannel_def handleTunnelChannel_def unmarshal_postgresRequest
        handlePostgresChannel_def result_defs Let_def)
  have empty: "postgresAddress cmd = [] \<longleftrightarrow> co_String cmd ''postgres-peer'' \<noteq> []" by (simp add: postgresAddress_def)
  have dialled: "dialPostgresViaPeer fmt dial openChannel address signer pinned =
      (case openChannel client ?nc of
         Inl e \<Rightarrow> (Inl (ErrText ''db: failed to open postgres tunnel''), [ClientClosed client])
       | Inr channel \<Rightarrow> (Inr \<lparr>tc_channel = channel, tc_client = client\<rparr>, [RequestsDiscarded channel]))"
    using assms(5) by (simp add: dialPostgresViaPeer_def)
  show ?thesis
    unfolding dialled assms(6) event using empty by (simp add: postgresAddress_def)
qed

theorem postgres_via_peer_witness:
  "\<exists>n s r openChannel. startNode sample_runEnv sample_peer_command = Some (Inr n)
     \<and> node_reachable (\<lambda>_. True) (rn_auth n) (rn_gateway n) s \<and> cn_nodeId (gw_connection (ns_gateway s) r) \<noteq> []
     \<and> dialPostgresViaPeer sample_keyFormat (\<lambda>_ _. Inr 9) openChannel ''a:22'' None (PlainKey [1]) =
         (Inr \<lparr>tc_channel = 6, tc_client = 9\<rparr>, [RequestsDiscarded 6])"
proof -
  obtain n where n: "startNode sample_runEnv sample_peer_command = Some (Inr n)" "as_PeerCAPublicKeys (rn_auth n) = [[1, 2]]"
      "gs_PostgresAddress (gw_settings (rn_gateway n)) \<noteq> []"
    by (rule sample_peer_node)
  let ?r = "gw_nextRef (rn_gateway n)"
  obtain s where s: "node_reachable (\<lambda>_. True) (rn_auth n) (rn_gateway n) s"
      "BridgePostgres ?r 5 (gs_PostgresAddress (gw_settings (rn_gateway n))) \<in> set (ns_tasks s)"
    by (rule sample_peer_run [OF n(2,3)])
  have "node_inv (\<lambda>_. True) (rn_auth n) s"
    using node_inv_reachable [OF s(1) startNode_gateway [OF n(1) sample_database]] by simp
  then have peer: "cn_nodeId (gw_connection (ns_gateway s) ?r) \<noteq> []"
    using s(2) by (auto simp: node_inv_def task_backed_def)
  let ?open = "\<lambda>client nc. (case connectionEvent ?r (ChannelEvent (\<lambda>_. 0) (\<lambda>_. None) (Inr 6) None nc) (ns_gateway s) of
      (True, tasks, g') \<Rightarrow> Inr 6 | (False, tasks, g') \<Rightarrow> Inl ErrEOF)"
  have "co_String sample_peer_command ''postgres-peer'' = []" by (simp add: sample_peer_command_def sample_flags)
  then have "dialPostgresViaPeer sample_keyFormat (\<lambda>_ _. Inr 9) ?open ''a:22'' None (PlainKey [1]) =
      (Inr \<lparr>tc_channel = 6, tc_client = 9\<rparr>, [RequestsDiscarded 6])"
    using postgres_via_peer [where dial = "\<lambda>_ _. Inr 9" and openChannel = ?open and clk = "\<lambda>_. 0" and faults = "\<lambda>_. None"
        and ch = 6 and closeFault = None and client = 9 and fmt = sample_keyFormat and address = "''a:22''" and signer = None
        and pinned = "PlainKey [1]", OF n(1) sample_database s(1) peer refl refl] by blast
  with n(1) s(1) peer show ?thesis by blast
qed

end
